(* ===== verification/Sxt_Prelude.thy ===== *)
theory Sxt_Prelude
  imports Main "HOL-Library.AList" "HOL-Library.Word" "HOL-Library.Char_ord"
    "HOL-Library.List_Lexorder"
begin

text \<open>
  The vocabulary every component shares.

  \<^item> \<open>result\<close> is Rust's \<open>Result\<close> with a third value \<open>Panic\<close>: an \<open>unwrap\<close>, an
    \<open>expect\<close>, a slice out of range or an arithmetic overflow check that aborts the
    running extrinsic. \<open>bind_res\<close> is the \<open>?\<close> operator.
  \<^item> Bytes are HOL characters (8-bit values), so a \<open>Vec<u8>\<close>, a \<open>BoundedVec<u8, _>\<close> and
    the bytes of a \<open>&str\<close> are all \<open>string\<close>s and byte literals can be written down.
    \<open>utf8_valid\<close> is the check of \<open>core::str::from_utf8\<close>.
  \<^item> A \<open>StorageMap\<close> is an association list with distinct keys (\<open>AList.update\<close>,
    \<open>AList.delete\<close>, \<open>map_of\<close>), a \<open>StorageDoubleMap\<close> one keyed by pairs: lookups,
    iteration over a prefix and clearing are all executable. The order of iteration
    over storage is the list's order; no theorem depends on it.
  \<^item> A \<open>BTreeSet\<close> is a strictly sorted list.
\<close>

named_theorems res_simps \<open>equations that run \<open>result\<close> computations\<close>
named_theorems storage_simps \<open>reading a storage map after a write\<close>

section \<open>Results, errors and panics\<close>

datatype ('a, 'e) result = Ok 'a | Err 'e | Panic

definition bind_res :: "('a, 'e) result \<Rightarrow> ('a \<Rightarrow> ('b, 'e) result) \<Rightarrow> ('b, 'e) result" where
  "bind_res r f = (case r of Ok x \<Rightarrow> f x | Err e \<Rightarrow> Err e | Panic \<Rightarrow> Panic)"

definition ensure :: "bool \<Rightarrow> 'e \<Rightarrow> (unit, 'e) result" where
  "ensure b e = (if b then Ok () else Err e)"

definition ok_or :: "'a option \<Rightarrow> 'e \<Rightarrow> ('a, 'e) result" where
  "ok_or x e = (case x of None \<Rightarrow> Err e | Some y \<Rightarrow> Ok y)"

definition map_err :: "('e \<Rightarrow> 'f) \<Rightarrow> ('a, 'e) result \<Rightarrow> ('a, 'f) result" where
  "map_err g r = (case r of Ok x \<Rightarrow> Ok x | Err e \<Rightarrow> Err (g e) | Panic \<Rightarrow> Panic)"

definition map_ok :: "('a \<Rightarrow> 'b) \<Rightarrow> ('a, 'e) result \<Rightarrow> ('b, 'e) result" where
  "map_ok g r = (case r of Ok x \<Rightarrow> Ok (g x) | Err e \<Rightarrow> Err e | Panic \<Rightarrow> Panic)"

text \<open>\<open>Option::unwrap\<close>, \<open>Option::expect\<close>, \<open>Result::unwrap\<close>: a panic instead of a value.\<close>

definition unwrap_opt :: "'a option \<Rightarrow> ('a, 'e) result" where
  "unwrap_opt x = (case x of None \<Rightarrow> Panic | Some y \<Rightarrow> Ok y)"

definition expect_res :: "('a, 'e) result \<Rightarrow> ('a, 'f) result" where
  "expect_res r = (case r of Ok x \<Rightarrow> Ok x | Err _ \<Rightarrow> Panic | Panic \<Rightarrow> Panic)"

definition is_ok :: "('a, 'e) result \<Rightarrow> bool" where
  "is_ok r = (case r of Ok _ \<Rightarrow> True | _ \<Rightarrow> False)"

lemma bind_res_simps [simp, res_simps]:
  "bind_res (Ok x) f = f x" "bind_res (Err e) f = Err e" "bind_res Panic f = Panic"
  by (simp_all add: bind_res_def)

lemma ensure_simps [simp, res_simps]: "ensure True e = Ok ()" "ensure False e = Err e"
  by (simp_all add: ensure_def)

lemma ok_or_simps [simp, res_simps]: "ok_or (Some x) e = Ok x" "ok_or None e = Err e"
  by (simp_all add: ok_or_def)

lemma map_err_simps [simp, res_simps]:
  "map_err g (Ok x) = Ok x" "map_err g (Err e) = Err (g e)" "map_err g Panic = Panic"
  by (simp_all add: map_err_def)

lemma map_ok_simps [simp, res_simps]:
  "map_ok g (Ok x) = Ok (g x)" "map_ok g (Err e) = Err e" "map_ok g Panic = Panic"
  by (simp_all add: map_ok_def)

lemma unwrap_opt_simps [simp, res_simps]: "unwrap_opt (Some x) = Ok x" "unwrap_opt None = Panic"
  by (simp_all add: unwrap_opt_def)

lemma expect_res_simps [simp, res_simps]:
  "expect_res (Ok x) = Ok x" "expect_res (Err e) = Panic" "expect_res Panic = Panic"
  by (simp_all add: expect_res_def)

lemma is_ok_simps [simp, res_simps]: "is_ok (Ok x)" "\<not> is_ok (Err e)" "\<not> is_ok Panic"
  by (simp_all add: is_ok_def)

lemma bind_res_Ok_iff: "bind_res r f = Ok y \<longleftrightarrow> (\<exists>x. r = Ok x \<and> f x = Ok y)"
  by (cases r) auto

lemma ensure_Ok_iff: "ensure b e = Ok u \<longleftrightarrow> b"
  by (cases b) auto

lemma ok_or_Ok_iff: "ok_or x e = Ok y \<longleftrightarrow> x = Some y"
  by (cases x) auto

lemma map_err_Ok_iff: "map_err g r = Ok y \<longleftrightarrow> r = Ok y"
  by (cases r) auto

lemma map_ok_Ok_iff: "map_ok g r = Ok y \<longleftrightarrow> (\<exists>x. r = Ok x \<and> y = g x)"
  by (cases r) auto

lemma unwrap_opt_Ok_iff: "unwrap_opt x = Ok y \<longleftrightarrow> x = Some y"
  by (cases x) auto

lemma expect_res_Ok_iff: "expect_res r = Ok y \<longleftrightarrow> r = Ok y"
  by (cases r) auto

lemma is_ok_iff: "is_ok r \<longleftrightarrow> (\<exists>x. r = Ok x)"
  by (cases r) auto

text \<open>Inversion of a computation that returned \<open>Ok\<close>.\<close>

lemmas res_Ok_iff = bind_res_Ok_iff ensure_Ok_iff ok_or_Ok_iff map_err_Ok_iff map_ok_Ok_iff
  unwrap_opt_Ok_iff expect_res_Ok_iff

text \<open>\<open>iter().map(f).collect::<Result<Vec<_>, _>>()\<close>: stops at the first failure.\<close>

fun collect_res :: "('a \<Rightarrow> ('b, 'e) result) \<Rightarrow> 'a list \<Rightarrow> ('b list, 'e) result" where
  "collect_res f [] = Ok []"
| "collect_res f (x # xs) = bind_res (f x) (\<lambda>y. map_ok (\<lambda>ys. y # ys) (collect_res f xs))"

text \<open>The same iteration when the closure also writes storage: the state is threaded.\<close>

fun collect_state :: "('s \<Rightarrow> 'a \<Rightarrow> ('s \<times> 'b, 'e) result) \<Rightarrow> 's \<Rightarrow> 'a list \<Rightarrow> ('s \<times> 'b list, 'e) result" where
  "collect_state f s [] = Ok (s, [])"
| "collect_state f s (x # xs) =
     bind_res (f s x) (\<lambda>(s', y). bind_res (collect_state f s' xs) (\<lambda>(s'', ys). Ok (s'', y # ys)))"

lemma collect_res_Ok_length: "collect_res f xs = Ok ys \<Longrightarrow> length ys = length xs"
  by (induction xs arbitrary: ys) (auto simp: res_Ok_iff)

lemma collect_res_Ok_iff: "collect_res f xs = Ok ys \<longleftrightarrow> list_all2 (\<lambda>x y. f x = Ok y) xs ys"
  by (induction xs arbitrary: ys) (auto simp: res_Ok_iff list_all2_Cons1)

lemma collect_res_all_Ok: "(\<And>x. x \<in> set xs \<Longrightarrow> f x = Ok (g x)) \<Longrightarrow> collect_res f xs = Ok (map g xs)"
  by (induction xs) auto

lemma collect_state_length: "collect_state f s xs = Ok (s', ys) \<Longrightarrow> length ys = length xs"
  by (induction xs arbitrary: s ys) (auto simp: res_Ok_iff)

lemma collect_state_invariant:
  assumes step: "\<And>s x s' y. I s \<Longrightarrow> f s x = Ok (s', y) \<Longrightarrow> I s'"
  shows "I s \<Longrightarrow> collect_state f s xs = Ok (s', ys) \<Longrightarrow> I s'"
  by (induction xs arbitrary: s ys) (auto simp: res_Ok_iff intro: step)

lemma collect_state_invariant_on:
  assumes step: "\<And>s x s' y. x \<in> set xs \<Longrightarrow> I s \<Longrightarrow> f s x = Ok (s', y) \<Longrightarrow> I s'"
  shows "I s \<Longrightarrow> collect_state f s xs = Ok (s', ys) \<Longrightarrow> I s'"
  using step by (induction xs arbitrary: s ys) (auto simp: res_Ok_iff, blast)

section \<open>Bytes, strings and UTF-8\<close>

type_synonym bytes = string
type_synonym u8 = "8 word"
type_synonym u16 = "16 word"
type_synonym u32 = "32 word"
type_synonym u64 = "64 word"
type_synonym u128 = "128 word"
type_synonym u256 = "256 word"
type_synonym i64 = "64 word"

abbreviation byte :: "char \<Rightarrow> nat" where
  "byte c \<equiv> of_char c"

definition cont_byte :: "char \<Rightarrow> bool" where
  "cont_byte c \<longleftrightarrow> 0x80 \<le> byte c \<and> byte c \<le> 0xBF"

text \<open>
  \<open>core::str::from_utf8\<close> accepts exactly the well-formed UTF-8 sequences: no overlong
  forms, no surrogates, nothing above U+10FFFF.
\<close>

fun utf8_valid :: "bytes \<Rightarrow> bool" where
  "utf8_valid [] = True"
| "utf8_valid (a # bs) =
     (if byte a < 0x80 then utf8_valid bs
      else if 0xC2 \<le> byte a \<and> byte a \<le> 0xDF then
        (case bs of b # cs \<Rightarrow> cont_byte b \<and> utf8_valid cs | _ \<Rightarrow> False)
      else if 0xE0 \<le> byte a \<and> byte a \<le> 0xEF then
        (case bs of b # c # ds \<Rightarrow>
           cont_byte b \<and> cont_byte c
           \<and> (byte a = 0xE0 \<longrightarrow> 0xA0 \<le> byte b) \<and> (byte a = 0xED \<longrightarrow> byte b \<le> 0x9F)
           \<and> utf8_valid ds
         | _ \<Rightarrow> False)
      else if 0xF0 \<le> byte a \<and> byte a \<le> 0xF4 then
        (case bs of b # c # d # es \<Rightarrow>
           cont_byte b \<and> cont_byte c \<and> cont_byte d
           \<and> (byte a = 0xF0 \<longrightarrow> 0x90 \<le> byte b) \<and> (byte a = 0xF4 \<longrightarrow> byte b \<le> 0x8F)
           \<and> utf8_valid es
         | _ \<Rightarrow> False)
      else False)"

definition from_utf8 :: "bytes \<Rightarrow> 'e \<Rightarrow> (bytes, 'e) result" where
  "from_utf8 bs e = (if utf8_valid bs then Ok bs else Err e)"

lemma from_utf8_Ok_iff: "from_utf8 bs e = Ok s \<longleftrightarrow> utf8_valid bs \<and> s = bs"
  by (auto simp: from_utf8_def)

definition ascii :: "bytes \<Rightarrow> bool" where
  "ascii bs \<longleftrightarrow> (\<forall>c \<in> set bs. byte c < 0x80)"

lemma ascii_utf8_valid: "ascii bs \<Longrightarrow> utf8_valid bs"
  by (induction bs) (auto simp: ascii_def)

text \<open>\<open>to_ascii_uppercase\<close> and \<open>to_ascii_lowercase\<close>: letters a-z, A-Z only.\<close>

definition ascii_upper_char :: "char \<Rightarrow> char" where
  "ascii_upper_char c = (if 97 \<le> byte c \<and> byte c \<le> 122 then char_of (byte c - 32) else c)"

definition to_ascii_uppercase :: "bytes \<Rightarrow> bytes" where
  "to_ascii_uppercase s = map ascii_upper_char s"

definition eq_ignore_ascii_case :: "bytes \<Rightarrow> bytes \<Rightarrow> bool" where
  "eq_ignore_ascii_case s t \<longleftrightarrow> to_ascii_uppercase s = to_ascii_uppercase t"

lemma byte_less_256 [simp]: "byte c < 256"
  by simp

lemma byte_char_of: "n < 256 \<Longrightarrow> byte (char_of n) = n"
  by simp

lemma ascii_upper_char_idem [simp]: "ascii_upper_char (ascii_upper_char c) = ascii_upper_char c"
proof (cases "97 \<le> byte c \<and> byte c \<le> 122")
  case True
  then have "byte (char_of (byte c - 32)) = byte c - 32"
    by (intro byte_char_of) auto
  moreover from True have "\<not> 97 \<le> byte c - 32" by arith
  ultimately show ?thesis using True by (simp only: ascii_upper_char_def) auto
next
  case False
  then have "ascii_upper_char c = c" by (auto simp: ascii_upper_char_def)
  then show ?thesis by simp
qed

lemma to_ascii_uppercase_idem [simp]:
  "to_ascii_uppercase (to_ascii_uppercase s) = to_ascii_uppercase s"
  by (simp add: to_ascii_uppercase_def)

lemma length_to_ascii_uppercase [simp]: "length (to_ascii_uppercase s) = length s"
  by (simp add: to_ascii_uppercase_def)

text \<open>
  \<open>str::to_uppercase\<close> uses Unicode's tables and is a parameter wherever the code calls it.
  What the development relies on: it is idempotent, and on ASCII it is the ASCII mapping.
\<close>

definition unicode_upper :: "(bytes \<Rightarrow> bytes) \<Rightarrow> bool" where
  "unicode_upper uc \<longleftrightarrow> (\<forall>s. uc (uc s) = uc s) \<and> (\<forall>s. ascii s \<longrightarrow> uc s = to_ascii_uppercase s)"

lemma unicode_upper_ascii: "unicode_upper to_ascii_uppercase"
  by (simp add: unicode_upper_def)

text \<open>\<open>str::trim_start_matches\<close> and \<open>trim_end_matches\<close> with a literal pattern.\<close>

definition starts_with :: "bytes \<Rightarrow> bytes \<Rightarrow> bool" where
  "starts_with p s \<longleftrightarrow> take (length p) s = p"

definition ends_with :: "bytes \<Rightarrow> bytes \<Rightarrow> bool" where
  "ends_with p s \<longleftrightarrow> starts_with (rev p) (rev s)"

lemma starts_with_iff: "starts_with p s \<longleftrightarrow> (\<exists>t. s = p @ t)"
  by (metis append_eq_conv_conj append_take_drop_id starts_with_def)

lemma ends_with_iff: "ends_with p s \<longleftrightarrow> (\<exists>t. s = t @ p)"
  by (metis ends_with_def starts_with_iff rev_append rev_rev_ident)

function trim_start_matches :: "bytes \<Rightarrow> bytes \<Rightarrow> bytes" where
  "trim_start_matches p s =
     (if p \<noteq> [] \<and> starts_with p s then trim_start_matches p (drop (length p) s) else s)"
  by pat_completeness auto
termination
proof (relation "measure (\<lambda>(p, s). length s)", goal_cases)
  case (2 p s)
  then obtain t where "s = p @ t" by (auto simp: starts_with_iff)
  with 2 show ?case by simp
qed simp

declare trim_start_matches.simps [simp del]

definition trim_end_char :: "char \<Rightarrow> bytes \<Rightarrow> bytes" where
  "trim_end_char c s = rev (dropWhile (\<lambda>x. x = c) (rev s))"

lemma trim_end_char_last: "trim_end_char c s \<noteq> [] \<Longrightarrow> last (trim_end_char c s) \<noteq> c"
  using hd_dropWhile[of "\<lambda>x. x = c" "rev s"] by (auto simp: trim_end_char_def last_rev)

text \<open>Slicing \<open>&xs[n..]\<close> panics when \<open>n\<close> is beyond the end.\<close>

definition slice_from :: "nat \<Rightarrow> 'a list \<Rightarrow> ('a list, 'e) result" where
  "slice_from n xs = (if n \<le> length xs then Ok (drop n xs) else Panic)"

lemma slice_from_Ok_iff: "slice_from n xs = Ok ys \<longleftrightarrow> n \<le> length xs \<and> ys = drop n xs"
  by (auto simp: slice_from_def)

text \<open>Decimal digits of a number, as \<open>format!("{}", n)\<close> prints them.\<close>

function show_nat :: "nat \<Rightarrow> bytes" where
  "show_nat n = (if n < 10 then [char_of (48 + n)] else show_nat (n div 10) @ [char_of (48 + n mod 10)])"
  by pat_completeness auto
termination by (relation "measure id") auto

declare show_nat.simps [simp del]

section \<open>Bounded vectors\<close>

text \<open>\<open>BoundedVec::try_from\<close> and \<open>try_push\<close> for a bound \<open>n\<close>.\<close>

definition bounded_try_from :: "nat \<Rightarrow> 'a list \<Rightarrow> 'e \<Rightarrow> ('a list, 'e) result" where
  "bounded_try_from n xs e = (if length xs \<le> n then Ok xs else Err e)"

definition try_push :: "nat \<Rightarrow> 'a \<Rightarrow> 'a list \<Rightarrow> 'a list option" where
  "try_push n x xs = (if length xs < n then Some (xs @ [x]) else None)"

lemma bounded_try_from_Ok_iff: "bounded_try_from n xs e = Ok ys \<longleftrightarrow> length xs \<le> n \<and> ys = xs"
  by (auto simp: bounded_try_from_def)

lemma try_push_Some_iff: "try_push n x xs = Some ys \<longleftrightarrow> length xs < n \<and> ys = xs @ [x]"
  by (auto simp: try_push_def)

section \<open>Storage maps\<close>

type_synonym ('k, 'v) storage_map = "('k \<times> 'v) list"
type_synonym ('k, 'l, 'v) storage_double_map = "(('k \<times> 'l) \<times> 'v) list"

definition sm_get :: "('k, 'v) storage_map \<Rightarrow> 'k \<Rightarrow> 'v option" where
  "sm_get m k = map_of m k"

definition sm_contains :: "('k, 'v) storage_map \<Rightarrow> 'k \<Rightarrow> bool" where
  "sm_contains m k \<longleftrightarrow> sm_get m k \<noteq> None"

definition sm_insert :: "'k \<Rightarrow> 'v \<Rightarrow> ('k, 'v) storage_map \<Rightarrow> ('k, 'v) storage_map" where
  "sm_insert k v m = AList.update k v m"

definition sm_remove :: "'k \<Rightarrow> ('k, 'v) storage_map \<Rightarrow> ('k, 'v) storage_map" where
  "sm_remove k m = AList.delete k m"

text \<open>\<open>ValueQuery\<close> storage returns a default for an absent key.\<close>

definition sm_get_or :: "'v \<Rightarrow> ('k, 'v) storage_map \<Rightarrow> 'k \<Rightarrow> 'v" where
  "sm_get_or d m k = (case sm_get m k of None \<Rightarrow> d | Some v \<Rightarrow> v)"

text \<open>Iteration over the entries below a first key, and their removal.\<close>

definition sdm_iter_prefix :: "('k, 'l, 'v) storage_double_map \<Rightarrow> 'k \<Rightarrow> ('l \<times> 'v) list" where
  "sdm_iter_prefix m k = map (\<lambda>((_, l), v). (l, v)) (filter (\<lambda>((k', _), _). k' = k) m)"

definition sdm_iter_key_prefix :: "('k, 'l, 'v) storage_double_map \<Rightarrow> 'k \<Rightarrow> 'l list" where
  "sdm_iter_key_prefix m k = map fst (sdm_iter_prefix m k)"

definition sm_wf :: "('k, 'v) storage_map \<Rightarrow> bool" where
  "sm_wf m \<longleftrightarrow> distinct (map fst m)"

lemma sm_get_Nil [simp, storage_simps]: "sm_get [] k = None"
  by (simp add: sm_get_def)

lemma sm_get_insert [simp, storage_simps]:
  "sm_get (sm_insert k v m) k' = (if k' = k then Some v else sm_get m k')"
  by (simp add: sm_get_def sm_insert_def update_conv)

lemma sm_get_remove [simp, storage_simps]:
  "sm_get (sm_remove k m) k' = (if k' = k then None else sm_get m k')"
  by (simp add: sm_get_def sm_remove_def delete_conv)

lemma sm_contains_insert [simp, storage_simps]:
  "sm_contains (sm_insert k v m) k' \<longleftrightarrow> k' = k \<or> sm_contains m k'"
  by (simp add: sm_contains_def)

lemma sm_contains_remove [simp, storage_simps]:
  "sm_contains (sm_remove k m) k' \<longleftrightarrow> k' \<noteq> k \<and> sm_contains m k'"
  by (simp add: sm_contains_def)

lemma sm_get_or_insert [simp, storage_simps]:
  "sm_get_or d (sm_insert k v m) k' = (if k' = k then v else sm_get_or d m k')"
  by (simp add: sm_get_or_def)

lemma sm_get_or_remove [simp, storage_simps]:
  "sm_get_or d (sm_remove k m) k' = (if k' = k then d else sm_get_or d m k')"
  by (simp add: sm_get_or_def)

lemma sm_wf_Nil [simp]: "sm_wf []"
  by (simp add: sm_wf_def)

lemma sm_wf_insert [simp]: "sm_wf m \<Longrightarrow> sm_wf (sm_insert k v m)"
  by (simp add: sm_wf_def sm_insert_def distinct_update)

lemma sm_wf_remove [simp]: "sm_wf m \<Longrightarrow> sm_wf (sm_remove k m)"
  by (simp add: sm_wf_def sm_remove_def distinct_delete)

lemma sm_get_Some_in: "sm_get m k = Some v \<Longrightarrow> (k, v) \<in> set m"
  by (simp add: sm_get_def map_of_SomeD)

lemma sm_wf_get_iff: "sm_wf m \<Longrightarrow> sm_get m k = Some v \<longleftrightarrow> (k, v) \<in> set m"
  by (simp add: sm_wf_def sm_get_def)

lemma set_sdm_iter_prefix:
  "sm_wf m \<Longrightarrow> (l, v) \<in> set (sdm_iter_prefix m k) \<longleftrightarrow> sm_get m (k, l) = Some v"
  by (force simp: sdm_iter_prefix_def sm_wf_get_iff image_iff)

lemma set_sdm_iter_key_prefix:
  "l \<in> set (sdm_iter_key_prefix m k) \<longleftrightarrow> sm_contains m (k, l)"
  by (force simp: sdm_iter_key_prefix_def sdm_iter_prefix_def sm_contains_def sm_get_def
      map_of_eq_None_iff image_iff)

lemma sm_get_fold_remove:
  "sm_get (fold (\<lambda>l m. sm_remove (k, l) m) ls m) (k', l') =
     (if k' = k \<and> l' \<in> set ls then None else sm_get m (k', l'))"
  by (induction ls arbitrary: m) auto

lemma sm_wf_fold_remove [simp]: "sm_wf m \<Longrightarrow> sm_wf (fold (\<lambda>l m. sm_remove (k, l) m) ls m)"
  by (induction ls arbitrary: m) auto

section \<open>Ordered sets\<close>

text \<open>\<open>BTreeSet\<close>: a strictly sorted list; \<open>BTreeSet::insert\<close> and \<open>collect\<close>.\<close>

definition bt_set :: "'a::linorder list \<Rightarrow> bool" where
  "bt_set xs \<longleftrightarrow> sorted_wrt (<) xs"

fun bt_insert :: "'a::linorder \<Rightarrow> 'a list \<Rightarrow> 'a list" where
  "bt_insert x [] = [x]"
| "bt_insert x (y # ys) =
     (if x < y then x # y # ys else if x = y then y # ys else y # bt_insert x ys)"

definition bt_collect :: "'a::linorder list \<Rightarrow> 'a list" where
  "bt_collect xs = fold bt_insert xs []"

lemma set_bt_insert [simp]: "set (bt_insert x xs) = insert x (set xs)"
  by (induction xs) auto

lemma bt_set_insert [simp]: "bt_set xs \<Longrightarrow> bt_set (bt_insert x xs)"
  by (induction xs) (auto simp: bt_set_def)

lemma bt_insert_member: "bt_set xs \<Longrightarrow> x \<in> set xs \<Longrightarrow> bt_insert x xs = xs"
  by (induction xs) (auto simp: bt_set_def)

lemma length_bt_insert_new: "x \<notin> set xs \<Longrightarrow> length (bt_insert x xs) = Suc (length xs)"
  by (induction xs) auto

lemma bt_set_distinct: "bt_set xs \<Longrightarrow> distinct xs"
  by (simp add: bt_set_def strict_sorted_iff)

lemma bt_set_take [simp]: "bt_set xs \<Longrightarrow> bt_set (take n xs)"
  by (simp add: bt_set_def sorted_wrt_take)

lemma bt_set_Nil [simp]: "bt_set []"
  by (simp add: bt_set_def)

lemma fold_bt_insert: "bt_set ys \<Longrightarrow> bt_set (fold bt_insert xs ys) \<and> set (fold bt_insert xs ys) = set xs \<union> set ys"
  by (induction xs arbitrary: ys) auto

lemma bt_set_collect [simp]: "bt_set (bt_collect xs)"
  by (simp add: bt_collect_def fold_bt_insert)

lemma set_bt_collect [simp]: "set (bt_collect xs) = set xs"
  by (simp add: bt_collect_def fold_bt_insert)

lemma bt_collect_id: "bt_set xs \<Longrightarrow> bt_collect xs = xs"
  by (rule strict_sorted_equal) (use bt_set_collect[of xs] in \<open>auto simp: bt_set_def\<close>)

section \<open>Machine integers\<close>

definition saturating_add :: "'l::len word \<Rightarrow> 'l word \<Rightarrow> 'l word" where
  "saturating_add a b = (if unat a + unat b < 2 ^ LENGTH('l) then a + b else -1)"

lemma unat_saturating_add:
  "unat (saturating_add a b) = min (unat a + unat b) (2 ^ LENGTH('l) - 1)"
  for a b :: "'l::len word"
proof (cases "unat a + unat b < 2 ^ LENGTH('l)")
  case True
  then show ?thesis
    by (simp add: saturating_add_def unat_word_ariths)
next
  case False
  then show ?thesis
    by (simp add: saturating_add_def unsigned_minus_1_eq_mask mask_eq_exp_minus_1)
qed

text \<open>\<open>u64::to_be_bytes\<close> and its kin: \<open>n\<close> bytes, most significant first.\<close>

fun to_be_bytes :: "nat \<Rightarrow> nat \<Rightarrow> bytes" where
  "to_be_bytes 0 v = []"
| "to_be_bytes (Suc n) v = to_be_bytes n (v div 256) @ [char_of (v mod 256)]"

fun from_be_bytes :: "nat \<Rightarrow> bytes \<Rightarrow> nat" where
  "from_be_bytes acc [] = acc"
| "from_be_bytes acc (b # bs) = from_be_bytes (acc * 256 + byte b) bs"

lemma length_to_be_bytes [simp]: "length (to_be_bytes n v) = n"
  by (induction n arbitrary: v) auto

lemma from_be_bytes_append: "from_be_bytes acc (xs @ ys) = from_be_bytes (from_be_bytes acc xs) ys"
  by (induction xs arbitrary: acc) auto

lemma from_to_be_bytes: "v < 256 ^ n \<Longrightarrow> from_be_bytes 0 (to_be_bytes n v) = v"
proof (induction n arbitrary: v)
  case 0
  then show ?case by simp
next
  case (Suc n)
  then have "v div 256 < 256 ^ n"
    by (simp add: less_mult_imp_div_less mult.commute)
  then show ?case
    by (simp add: from_be_bytes_append Suc.IH)
qed

lemma to_be_bytes_inj:
  "v < 256 ^ n \<Longrightarrow> w < 256 ^ n \<Longrightarrow> to_be_bytes n v = to_be_bytes n w \<Longrightarrow> v = w"
  by (metis from_to_be_bytes)

end
