(* ===== verification/Sxt_Core_Types.thy ===== *)
theory Sxt_Core_Types
  imports Sxt_Prelude
begin

text \<open>
  The data types of the crate \<open>sxt-core\<close> that the pallets store and exchange, with the
  operations the crate defines on them: table identifiers, quorum sizes and submitter
  lists (\<open>tables.rs\<close>, \<open>indexing.rs\<close>), permission levels (\<open>permissions.rs\<close>), keystore
  entries and attestations (\<open>keystore.rs\<close>, \<open>attestation.rs\<close>), smart contracts and system
  contracts (\<open>smartcontracts.rs\<close>, \<open>system_contracts.rs\<close>). Account identifiers are the
  runtime's 32 bytes, ordered lexicographically as \<open>AccountId32\<close> is.
\<close>

section \<open>Identifiers and byte strings\<close>

definition IDENT_LENGTH :: nat where
  "IDENT_LENGTH = 64"

type_synonym account_id = bytes
type_synonym byte_string = bytes
type_synonym table_uuid = bytes
type_synonym create_statement = bytes
type_synonym snapshot_url = bytes
type_synonym row_data = bytes
type_synonym batch_id = bytes
type_synonym table_version = u16

definition byte_string_try_from :: "bytes \<Rightarrow> 'e \<Rightarrow> (byte_string, 'e) result" where
  "byte_string_try_from bs e = bounded_try_from IDENT_LENGTH bs e"

datatype source = Ethereum | Sepolia | Bitcoin | Polygon | ZkSyncEra | SourceUserCreated byte_string

datatype indexer_mode =
  Core | Full | PriceFeeds | SmartContractMode byte_string | ModeUserCreated byte_string

record source_and_mode =
  sm_source :: source
  sm_mode :: indexer_mode

record table_identifier =
  ti_name :: byte_string
  ti_namespace :: byte_string

definition is_staking_table :: "table_identifier \<Rightarrow> bool" where
  "is_staking_table t \<longleftrightarrow> ti_namespace t = ''SXT_SYSTEM_STAKING''"

text \<open>
  \<open>to_uppercase\<close> is Unicode's case mapping, whose tables are not part of the repository:
  it is the parameter \<open>uc\<close> wherever the code calls it. \<open>from_str_unchecked\<close> panics when
  an identifier is too long after the mapping.
\<close>

definition from_str_unchecked ::
    "(bytes \<Rightarrow> bytes) \<Rightarrow> bytes \<Rightarrow> bytes \<Rightarrow> (table_identifier, 'e) result" where
  "from_str_unchecked uc nam namespace =
     bind_res (expect_res (byte_string_try_from (uc nam) ()))
       (\<lambda>n. bind_res (expect_res (byte_string_try_from (uc namespace) ()))
         (\<lambda>ns. Ok \<lparr>ti_name = n, ti_namespace = ns\<rparr>))"

definition normalized :: "(bytes \<Rightarrow> bytes) \<Rightarrow> table_identifier \<Rightarrow> (table_identifier, 'e) result" where
  "normalized uc ident =
     bind_res (expect_res (from_utf8 (ti_name ident) ()))
       (\<lambda>n. bind_res (expect_res (from_utf8 (ti_namespace ident) ()))
         (\<lambda>ns. from_str_unchecked uc n ns))"

datatype table_identifier_conversion_error = NotTwoIdentifiers | IdentifierExceedsMaxLength

text \<open>\<open>TryFrom<&ObjectName> for TableIdentifier\<close>: the lengths are checked before the count.\<close>

definition table_identifier_from_object_name ::
    "(bytes \<Rightarrow> bytes) \<Rightarrow> bytes list \<Rightarrow> (table_identifier, table_identifier_conversion_error) result" where
  "table_identifier_from_object_name uc idents =
     bind_res (collect_res (\<lambda>i. byte_string_try_from (uc i) IdentifierExceedsMaxLength) idents)
       (\<lambda>ids. case ids of
          [ns, n] \<Rightarrow> Ok \<lparr>ti_name = n, ti_namespace = ns\<rparr>
        | _ \<Rightarrow> Err NotTwoIdentifiers)"

text \<open>\<open>TryFrom<TableRef> for TableIdentifier\<close>: an optional schema name and a table name.\<close>

definition table_identifier_from_table_ref ::
    "(bytes \<Rightarrow> bytes) \<Rightarrow> bytes option \<Rightarrow> bytes
     \<Rightarrow> (table_identifier, table_identifier_conversion_error) result" where
  "table_identifier_from_table_ref uc schema_id table_id =
     bind_res (ok_or schema_id NotTwoIdentifiers)
       (\<lambda>s. bind_res (byte_string_try_from (uc s) IdentifierExceedsMaxLength)
         (\<lambda>ns. bind_res (byte_string_try_from (uc table_id) IdentifierExceedsMaxLength)
           (\<lambda>n. Ok \<lparr>ti_name = n, ti_namespace = ns\<rparr>)))"

definition table_identifier_to_string :: "table_identifier \<Rightarrow> (bytes, unit) result" where
  "table_identifier_to_string t =
     bind_res (from_utf8 (ti_namespace t) ()) (\<lambda>ns.
     bind_res (from_utf8 (ti_name t) ()) (\<lambda>n. Ok (ns @ ''.'' @ n)))"

record column_uuid =
  cu_name :: byte_string
  cu_uuid :: table_uuid

definition MAX_COLS_PER_TABLE :: nat where "MAX_COLS_PER_TABLE = 64"
definition MAX_TABLES_PER_SCHEMA :: nat where "MAX_TABLES_PER_SCHEMA = 1024"
definition CREATE_STMNT_LENGTH :: nat where "CREATE_STMNT_LENGTH = 8192"
definition MAX_IDENTIFIERS_PER_SOURCE_AND_MODE :: nat where "MAX_IDENTIFIERS_PER_SOURCE_AND_MODE = 1024"
definition DATA_MAX_LEN :: nat where "DATA_MAX_LEN = 8000000"
definition MAX_SUBMITTERS :: nat where "MAX_SUBMITTERS = 32"

lemma IDENT_LENGTH_code [simp]: "IDENT_LENGTH = 64" by (simp add: IDENT_LENGTH_def)

lemma from_str_unchecked_normal:
  assumes "from_str_unchecked uc n ns = Ok t"
  shows "ti_name t = uc n" "ti_namespace t = uc ns" "length (uc n) \<le> 64" "length (uc ns) \<le> 64"
  using assms
  by (auto simp: from_str_unchecked_def byte_string_try_from_def res_Ok_iff bounded_try_from_Ok_iff)

lemma table_identifier_from_object_name_Ok:
  "table_identifier_from_object_name uc idents = Ok t \<longleftrightarrow>
     (\<exists>ns n. idents = [ns, n] \<and> length (uc ns) \<le> 64 \<and> length (uc n) \<le> 64
        \<and> t = \<lparr>ti_name = uc n, ti_namespace = uc ns\<rparr>)"
proof -
  have two: "(case ids of [ns, n] \<Rightarrow> Ok (f ns n) | _ \<Rightarrow> Err e) = Ok t \<longleftrightarrow>
      (\<exists>ns n. ids = [ns, n] \<and> t = f ns n)" for ids :: "'x list" and f :: "'x \<Rightarrow> 'x \<Rightarrow> 'y" and t and e :: 'z
    by (cases ids; cases "tl ids"; cases "tl (tl ids)") auto
  show ?thesis
    unfolding table_identifier_from_object_name_def bind_res_Ok_iff two collect_res_Ok_iff
    by (auto simp: byte_string_try_from_def bounded_try_from_Ok_iff list_all2_Cons2)
qed

section \<open>Quorum sizes\<close>

datatype quorum_scope = Public | Privileged

record insert_quorum_size =
  iqs_public :: "u8 option"
  iqs_privileged :: "u8 option"

definition insert_quorum_size_default :: insert_quorum_size where
  "insert_quorum_size_default = \<lparr>iqs_public = None, iqs_privileged = None\<rparr>"

fun iqs_of_scope :: "insert_quorum_size \<Rightarrow> quorum_scope \<Rightarrow> u8 option" where
  "iqs_of_scope q Public = iqs_public q"
| "iqs_of_scope q Privileged = iqs_privileged q"

datatype table_type = CoreBlockchain | SCI | Community | Testing insert_quorum_size

fun insert_quorum_size_from_table_type :: "table_type \<Rightarrow> insert_quorum_size" where
  "insert_quorum_size_from_table_type CoreBlockchain = \<lparr>iqs_public = Some 3, iqs_privileged = None\<rparr>"
| "insert_quorum_size_from_table_type SCI = \<lparr>iqs_public = Some 1, iqs_privileged = None\<rparr>"
| "insert_quorum_size_from_table_type Community = \<lparr>iqs_public = None, iqs_privileged = Some 0\<rparr>"
| "insert_quorum_size_from_table_type (Testing quorum) = quorum"

section \<open>Submitters by scope\<close>

record 'a submitters_by_scope =
  sbs_public :: "'a list"
  sbs_privileged :: "'a list"

definition submitters_default :: "'a submitters_by_scope" where
  "submitters_default = \<lparr>sbs_public = [], sbs_privileged = []\<rparr>"

fun sbs_of_scope :: "'a submitters_by_scope \<Rightarrow> quorum_scope \<Rightarrow> 'a list" where
  "sbs_of_scope s Public = sbs_public s"
| "sbs_of_scope s Privileged = sbs_privileged s"

text \<open>\<open>BoundedBTreeSet::try_insert\<close>: a known item is accepted even when the set is full.\<close>

definition bounded_set_try_insert :: "'a::linorder \<Rightarrow> 'a list \<Rightarrow> ('a list, 'a) result" where
  "bounded_set_try_insert x xs =
     (if length xs < MAX_SUBMITTERS \<or> x \<in> set xs then Ok (bt_insert x xs) else Err x)"

fun with_submitter ::
    "'a::linorder submitters_by_scope \<Rightarrow> 'a \<Rightarrow> quorum_scope
     \<Rightarrow> ('a submitters_by_scope, 'a submitters_by_scope \<times> 'a) result" where
  "with_submitter s who Public =
     map_err (\<lambda>e. (s, e)) (map_ok (\<lambda>xs. s\<lparr>sbs_public := xs\<rparr>) (bounded_set_try_insert who (sbs_public s)))"
| "with_submitter s who Privileged =
     map_err (\<lambda>e. (s, e))
       (map_ok (\<lambda>xs. s\<lparr>sbs_privileged := xs\<rparr>) (bounded_set_try_insert who (sbs_privileged s)))"

fun len_of_scope :: "'a submitters_by_scope \<Rightarrow> quorum_scope \<Rightarrow> nat" where
  "len_of_scope s Public = length (sbs_public s)"
| "len_of_scope s Privileged = length (sbs_privileged s)"

definition scope_is_empty :: "'a submitters_by_scope \<Rightarrow> quorum_scope \<Rightarrow> bool" where
  "scope_is_empty s q \<longleftrightarrow> len_of_scope s q = 0"

fun iter_scope :: "'a submitters_by_scope \<Rightarrow> quorum_scope \<Rightarrow> 'a list" where
  "iter_scope s Public = sbs_public s"
| "iter_scope s Privileged = sbs_privileged s"

definition submitter_list_wf :: "'a::linorder list \<Rightarrow> bool" where
  "submitter_list_wf xs \<longleftrightarrow> bt_set xs \<and> length xs \<le> MAX_SUBMITTERS"

definition submitters_wf :: "'a::linorder submitters_by_scope \<Rightarrow> bool" where
  "submitters_wf s \<longleftrightarrow> submitter_list_wf (sbs_public s) \<and> submitter_list_wf (sbs_privileged s)"

lemma len_of_scope_length: "len_of_scope s q = length (sbs_of_scope s q)"
  by (cases q) auto

lemma iter_scope_of_scope: "iter_scope s q = sbs_of_scope s q"
  by (cases q) auto

lemma submitters_wf_default [simp]: "submitters_wf submitters_default"
  by (simp add: submitters_wf_def submitters_default_def submitter_list_wf_def)

lemma submitters_wf_of_scope: "submitters_wf s \<Longrightarrow> submitter_list_wf (sbs_of_scope s q)"
  by (cases q) (auto simp: submitters_wf_def)

lemma bounded_set_try_insert_wf:
  assumes "submitter_list_wf xs" "bounded_set_try_insert x xs = Ok ys"
  shows "submitter_list_wf ys" "set ys = insert x (set xs)"
  using assms bt_insert_member[of xs x] length_bt_insert_new[of x xs]
  by (cases "x \<in> set xs"; simp add: bounded_set_try_insert_def submitter_list_wf_def insert_absorb
      split: if_splits; fastforce)+

text \<open>
  Adding a submitter to one scope: the list of that scope gains the submitter, the other
  scope is untouched, the bound and the order are kept.
\<close>

lemma with_submitter_Ok:
  assumes "with_submitter s who q = Ok s'"
  shows "set (sbs_of_scope s' q) = insert who (set (sbs_of_scope s q))"
    and "q' \<noteq> q \<Longrightarrow> sbs_of_scope s' q' = sbs_of_scope s q'"
  using assms
  by (cases q; cases q'; auto simp: res_Ok_iff bounded_set_try_insert_def split: if_splits)+

lemma with_submitter_wf: "submitters_wf s \<Longrightarrow> with_submitter s who q = Ok s' \<Longrightarrow> submitters_wf s'"
  by (cases q) (auto simp: res_Ok_iff submitters_wf_def dest: bounded_set_try_insert_wf)

lemma with_submitter_Err:
  "with_submitter s who q = Err (s', x) \<longleftrightarrow>
     s' = s \<and> x = who \<and> who \<notin> set (sbs_of_scope s q) \<and> MAX_SUBMITTERS \<le> len_of_scope s q"
  by (cases q) (auto simp: bounded_set_try_insert_def)

lemma with_submitter_not_Panic: "with_submitter s who q \<noteq> Panic"
  by (cases q) (auto simp: bounded_set_try_insert_def)

section \<open>Submissions and quorums\<close>

record data_submission =
  ds_table :: table_identifier
  ds_batch_id :: batch_id
  ds_data_hash :: bytes
  ds_quorum_scope :: quorum_scope

record data_quorum =
  dq_table :: table_identifier
  dq_batch_id :: batch_id
  dq_data_hash :: bytes
  dq_block_number :: u256
  dq_agreements :: "account_id list"
  dq_dissents :: "account_id list"
  dq_quorum_scope :: quorum_scope

section \<open>Permission levels\<close>

datatype tables_pallet_permission = EditSchema | EditRewards | EditUuid
datatype governance_pallet_permission = AddIndexer | RemoveIndexer
datatype indexing_pallet_permission =
  SubmitDataForPublicQuorum | SubmitDataForPrivilegedQuorum table_identifier
datatype attestation_pallet_permission = AttestBlock | ForwardAttestedBlock
datatype smart_contracts_pallet_permission = UpdateABI

datatype permission_level =
    UpdatePermissions
  | PermissionUserCreated byte_string
  | TablesPallet tables_pallet_permission
  | GovernancePallet governance_pallet_permission
  | IndexingPallet indexing_pallet_permission
  | AttestationPallet attestation_pallet_permission
  | SmartContractsPallet smart_contracts_pallet_permission
  | EditSpecificPermission permission_level

definition PERMISSION_LIST_MAX :: nat where "PERMISSION_LIST_MAX = 32"

section \<open>Keys and attestations\<close>

record ethereum_key =
  ek_pub_key :: bytes
  ek_address20 :: bytes

record user_keystore =
  us_eth_key :: "ethereum_key option"

definition with_eth_key :: "user_keystore \<Rightarrow> ethereum_key option \<Rightarrow> user_keystore" where
  "with_eth_key ks k = ks\<lparr>us_eth_key := k\<rparr>"

datatype unregister_external_address = UnregisterEthereumAddress

record ethereum_signature =
  es_r :: bytes
  es_s :: bytes
  es_v :: u8

definition ethereum_signature_new :: "bytes \<Rightarrow> bytes \<Rightarrow> u8 option \<Rightarrow> ethereum_signature" where
  "ethereum_signature_new r s v =
     \<lparr>es_r = r, es_s = s, es_v = (case v of None \<Rightarrow> 28 | Some x \<Rightarrow> x)\<rparr>"

datatype register_external_address = EthereumAddress ethereum_signature bytes bytes

record attestation =
  at_signature :: ethereum_signature
  at_proposed_pub_key :: bytes
  at_address20 :: bytes
  at_state_root :: bytes
  at_block_number :: u32
  at_block_hash :: bytes

text \<open>The state root followed by the block number as eight big-endian bytes.\<close>

definition create_attestation_message :: "bytes \<Rightarrow> u64 \<Rightarrow> bytes" where
  "create_attestation_message state_root block_number = state_root @ to_be_bytes 8 (unat block_number)"

lemma create_attestation_message_inj:
  "create_attestation_message r b = create_attestation_message r' b' \<longleftrightarrow> r = r' \<and> b = b'"
proof -
  have "unat b < 256 ^ 8" "unat b' < 256 ^ 8"
    using unsigned_less[of b] unsigned_less[of b'] by simp_all
  then have "to_be_bytes 8 (unat b) = to_be_bytes 8 (unat b') \<longleftrightarrow> b = b'"
    using to_be_bytes_inj by (metis unsigned_word_eqI)
  then show ?thesis
    unfolding create_attestation_message_def by (metis append_eq_append_conv length_to_be_bytes)
qed

section \<open>Smart contracts\<close>

record event_details =
  ev_name :: bytes
  ev_signature :: bytes
  ev_table :: byte_string

record contract_details =
  cd_source :: source
  cd_address :: bytes
  cd_abi :: "bytes option"
  cd_starting_block :: "u64 option"
  cd_target_schema :: "byte_string option"
  cd_contract_name :: "byte_string option"
  cd_event_details :: "event_details list option"
  cd_ddl_statement :: "create_statement option"

datatype contract = Normal contract_details | Proxy contract_details contract_details

record contract_info =
  ci_chain_id :: u256
  ci_address :: bytes

definition contract_info_default :: contract_info where
  "contract_info_default = \<lparr>ci_chain_id = 0, ci_address = replicate 20 (CHR 0x00)\<rparr>"

end
