(* ===== verification/Commitment_Map.thy ===== *)
theory Commitment_Map
  imports Sxt_Core_Types
begin

text \<open>
  The crate \<open>proof-of-sql-commitment-map\<close>: the two commitment schemes, data indexed by
  scheme (\<open>AnyCommitmentScheme\<close>, \<open>PerCommitmentScheme\<close>), and the map from keys and schemes
  to commitments.

  The Rust crate has a private trait \<open>CommitmentMapImplementor\<close> with four primitive
  operations and implements the public trait \<open>CommitmentMap\<close> once for all implementors.
  Here an implementor is a record of the four operations, the public operations are
  functions of that record, and the locale \<open>commitment_map_laws\<close> states what an
  implementor has to satisfy; the storage handler and the in-memory map are its two
  interpretations. A type \<open>T: GenericOverCommitment\<close> has one instance per scheme, so the
  models carry one type variable per scheme.
\<close>

section \<open>Schemes, flags and scheme-indexed data\<close>

datatype commitment_scheme = HyperKzg | DynamicDory

record commitment_scheme_flags =
  fl_hyper_kzg :: bool
  fl_dynamic_dory :: bool

definition flags_all :: commitment_scheme_flags where
  "flags_all = \<lparr>fl_hyper_kzg = True, fl_dynamic_dory = True\<rparr>"

definition flags_default :: commitment_scheme_flags where
  "flags_default = \<lparr>fl_hyper_kzg = False, fl_dynamic_dory = False\<rparr>"

fun flags_add :: "commitment_scheme_flags \<Rightarrow> commitment_scheme \<Rightarrow> commitment_scheme_flags" where
  "flags_add acc HyperKzg = acc\<lparr>fl_hyper_kzg := True\<rparr>"
| "flags_add acc DynamicDory = acc\<lparr>fl_dynamic_dory := True\<rparr>"

definition flags_from_iter :: "commitment_scheme list \<Rightarrow> commitment_scheme_flags" where
  "flags_from_iter schemes = foldl flags_add flags_default schemes"

definition flags_into_iter :: "commitment_scheme_flags \<Rightarrow> commitment_scheme list" where
  "flags_into_iter f =
     (if fl_hyper_kzg f then [HyperKzg] else []) @ (if fl_dynamic_dory f then [DynamicDory] else [])"

datatype ('h, 'd) any_commitment_scheme = AnyHyperKzg 'h | AnyDynamicDory 'd

fun into_any_concrete :: "commitment_scheme \<Rightarrow> 'a \<Rightarrow> ('a, 'a) any_commitment_scheme" where
  "into_any_concrete HyperKzg v = AnyHyperKzg v"
| "into_any_concrete DynamicDory v = AnyDynamicDory v"

fun to_scheme :: "('h, 'd) any_commitment_scheme \<Rightarrow> commitment_scheme" where
  "to_scheme (AnyHyperKzg _) = HyperKzg"
| "to_scheme (AnyDynamicDory _) = DynamicDory"

fun any_map :: "('h \<Rightarrow> 'h2) \<Rightarrow> ('d \<Rightarrow> 'd2) \<Rightarrow> ('h, 'd) any_commitment_scheme
    \<Rightarrow> ('h2, 'd2) any_commitment_scheme" where
  "any_map f g (AnyHyperKzg x) = AnyHyperKzg (f x)"
| "any_map f g (AnyDynamicDory x) = AnyDynamicDory (g x)"

fun transpose_option :: "('h option, 'd option) any_commitment_scheme
    \<Rightarrow> ('h, 'd) any_commitment_scheme option" where
  "transpose_option (AnyHyperKzg (Some x)) = Some (AnyHyperKzg x)"
| "transpose_option (AnyDynamicDory (Some x)) = Some (AnyDynamicDory x)"
| "transpose_option (AnyHyperKzg None) = None"
| "transpose_option (AnyDynamicDory None) = None"

fun transpose_result :: "(('h, 'e) result, ('d, 'e) result) any_commitment_scheme
    \<Rightarrow> (('h, 'd) any_commitment_scheme, 'e) result" where
  "transpose_result (AnyHyperKzg r) = map_ok AnyHyperKzg r"
| "transpose_result (AnyDynamicDory r) = map_ok AnyDynamicDory r"

fun any_unzip :: "('h \<times> 'h2, 'd \<times> 'd2) any_commitment_scheme
    \<Rightarrow> ('h, 'd) any_commitment_scheme \<times> ('h2, 'd2) any_commitment_scheme" where
  "any_unzip (AnyHyperKzg (l, r)) = (AnyHyperKzg l, AnyHyperKzg r)"
| "any_unzip (AnyDynamicDory (l, r)) = (AnyDynamicDory l, AnyDynamicDory r)"

fun any_unwrap :: "('a, 'a) any_commitment_scheme \<Rightarrow> 'a" where
  "any_unwrap (AnyHyperKzg x) = x"
| "any_unwrap (AnyDynamicDory x) = x"

record ('h, 'd) per_commitment_scheme =
  pc_hyper_kzg :: 'h
  pc_dynamic_dory :: 'd

type_synonym ('h, 'd) opt_per_commitment_scheme = "('h option, 'd option) per_commitment_scheme"

definition per_map :: "('h \<Rightarrow> 'h2) \<Rightarrow> ('d \<Rightarrow> 'd2) \<Rightarrow> ('h, 'd) per_commitment_scheme
    \<Rightarrow> ('h2, 'd2) per_commitment_scheme" where
  "per_map f g p = \<lparr>pc_hyper_kzg = f (pc_hyper_kzg p), pc_dynamic_dory = g (pc_dynamic_dory p)\<rparr>"

definition per_select :: "('h, 'd) per_commitment_scheme \<Rightarrow> commitment_scheme_flags
    \<Rightarrow> ('h, 'd) opt_per_commitment_scheme" where
  "per_select p f =
     \<lparr>pc_hyper_kzg = (if fl_hyper_kzg f then Some (pc_hyper_kzg p) else None),
      pc_dynamic_dory = (if fl_dynamic_dory f then Some (pc_dynamic_dory p) else None)\<rparr>"

definition per_zip :: "('h, 'd) per_commitment_scheme \<Rightarrow> ('h2, 'd2) per_commitment_scheme
    \<Rightarrow> ('h \<times> 'h2, 'd \<times> 'd2) per_commitment_scheme" where
  "per_zip p q =
     \<lparr>pc_hyper_kzg = (pc_hyper_kzg p, pc_hyper_kzg q),
      pc_dynamic_dory = (pc_dynamic_dory p, pc_dynamic_dory q)\<rparr>"

definition per_unzip :: "('h \<times> 'h2, 'd \<times> 'd2) per_commitment_scheme
    \<Rightarrow> ('h, 'd) per_commitment_scheme \<times> ('h2, 'd2) per_commitment_scheme" where
  "per_unzip p =
     (\<lparr>pc_hyper_kzg = fst (pc_hyper_kzg p), pc_dynamic_dory = fst (pc_dynamic_dory p)\<rparr>,
      \<lparr>pc_hyper_kzg = snd (pc_hyper_kzg p), pc_dynamic_dory = snd (pc_dynamic_dory p)\<rparr>)"

definition per_to_flags :: "('h, 'd) opt_per_commitment_scheme \<Rightarrow> commitment_scheme_flags" where
  "per_to_flags p =
     \<lparr>fl_hyper_kzg = (pc_hyper_kzg p \<noteq> None), fl_dynamic_dory = (pc_dynamic_dory p \<noteq> None)\<rparr>"

definition per_default :: "('h, 'd) opt_per_commitment_scheme" where
  "per_default = \<lparr>pc_hyper_kzg = None, pc_dynamic_dory = None\<rparr>"

definition per_into_iter :: "('h, 'd) per_commitment_scheme \<Rightarrow> ('h, 'd) any_commitment_scheme list" where
  "per_into_iter p = [AnyHyperKzg (pc_hyper_kzg p), AnyDynamicDory (pc_dynamic_dory p)]"

definition per_into_flat_iter :: "('h, 'd) opt_per_commitment_scheme
    \<Rightarrow> ('h, 'd) any_commitment_scheme list" where
  "per_into_flat_iter p = List.map_filter transpose_option (per_into_iter p)"

fun per_add :: "('h, 'd) opt_per_commitment_scheme \<Rightarrow> ('h, 'd) any_commitment_scheme
    \<Rightarrow> ('h, 'd) opt_per_commitment_scheme" where
  "per_add acc (AnyHyperKzg x) = acc\<lparr>pc_hyper_kzg := Some x\<rparr>"
| "per_add acc (AnyDynamicDory x) = acc\<lparr>pc_dynamic_dory := Some x\<rparr>"

definition per_from_iter :: "('h, 'd) any_commitment_scheme list
    \<Rightarrow> ('h, 'd) opt_per_commitment_scheme" where
  "per_from_iter xs = foldl per_add per_default xs"

lemma flags_roundtrip: "flags_from_iter (flags_into_iter f) = f"
  by (cases f) (simp add: flags_from_iter_def flags_into_iter_def flags_default_def)

lemma flags_into_iter_all [simp]: "flags_into_iter flags_all = [HyperKzg, DynamicDory]"
  by (simp add: flags_into_iter_def flags_all_def)

lemma per_into_flat_iter_eq:
  "per_into_flat_iter p =
     (case pc_hyper_kzg p of None \<Rightarrow> [] | Some h \<Rightarrow> [AnyHyperKzg h])
     @ (case pc_dynamic_dory p of None \<Rightarrow> [] | Some d \<Rightarrow> [AnyDynamicDory d])"
  by (auto simp: per_into_flat_iter_def per_into_iter_def List.map_filter_def split: option.split)

lemma per_from_iter_simps [simp]:
  "per_from_iter [] = per_default"
  "per_from_iter [AnyHyperKzg h] = \<lparr>pc_hyper_kzg = Some h, pc_dynamic_dory = None\<rparr>"
  "per_from_iter [AnyDynamicDory d] = \<lparr>pc_hyper_kzg = None, pc_dynamic_dory = Some d\<rparr>"
  "per_from_iter [AnyHyperKzg h, AnyDynamicDory d] = \<lparr>pc_hyper_kzg = Some h, pc_dynamic_dory = Some d\<rparr>"
  "per_from_iter [AnyDynamicDory d, AnyHyperKzg h] = \<lparr>pc_hyper_kzg = Some h, pc_dynamic_dory = Some d\<rparr>"
  by (simp_all add: per_from_iter_def per_default_def)

lemma per_flat_iter_roundtrip: "per_from_iter (per_into_flat_iter p) = p"
  by (cases p; rename_tac h d; case_tac h; case_tac d)
    (simp_all add: per_from_iter_def per_into_flat_iter_def per_into_iter_def per_default_def
      List.map_filter_def)

lemma per_zip_unzip: "per_unzip (per_zip p q) = (p, q)"
  by (cases p; cases q) (simp add: per_zip_def per_unzip_def)

lemma per_to_flags_select [simp]: "per_to_flags (per_select p f) = f"
  by (cases f) (simp add: per_to_flags_def per_select_def)

lemma per_to_flags_none: "per_to_flags p = flags_default \<longleftrightarrow> p = per_default"
  by (cases p) (auto simp: per_to_flags_def flags_default_def per_default_def)

text \<open>The element of one scheme, as \<open>AnyCommitmentScheme\<close> carries it.\<close>

fun per_get :: "('h, 'd) per_commitment_scheme \<Rightarrow> commitment_scheme \<Rightarrow> ('h, 'd) any_commitment_scheme" where
  "per_get p HyperKzg = AnyHyperKzg (pc_hyper_kzg p)"
| "per_get p DynamicDory = AnyDynamicDory (pc_dynamic_dory p)"

lemma per_eq_iff: "p = q \<longleftrightarrow> (\<forall>s. per_get p s = per_get q s)"
  for p q :: "('h, 'd) per_commitment_scheme"
proof
  assume eq: "\<forall>s. per_get p s = per_get q s"
  show "p = q"
    using eq[rule_format, of HyperKzg] eq[rule_format, of DynamicDory] by (cases p; cases q) simp
qed simp

section \<open>The commitment map\<close>

record ('m, 'k, 'h, 'd) commitment_map_implementor =
  has_key_and_scheme_impl :: "'m \<Rightarrow> 'k \<Rightarrow> commitment_scheme \<Rightarrow> bool"
  get_commitment_for_any_scheme_impl ::
    "'m \<Rightarrow> 'k \<Rightarrow> commitment_scheme \<Rightarrow> ('h option, 'd option) any_commitment_scheme"
  set_commitment_for_any_scheme_impl :: "'m \<Rightarrow> 'k \<Rightarrow> ('h, 'd) any_commitment_scheme \<Rightarrow> 'm"
  delete_commitment_for_any_scheme_impl :: "'m \<Rightarrow> 'k \<Rightarrow> commitment_scheme \<Rightarrow> 'm"

record 'k key_exists_error =
  ke_key :: 'k

record commitment_schemes_mismatch_error =
  sme_original_schemes :: commitment_scheme_flags
  sme_new_schemes :: commitment_scheme_flags

definition has_key_and_scheme ::
    "('m, 'k, 'h, 'd) commitment_map_implementor \<Rightarrow> 'm \<Rightarrow> 'k \<Rightarrow> commitment_scheme \<Rightarrow> bool" where
  "has_key_and_scheme I m key scheme = has_key_and_scheme_impl I m key scheme"

definition schemes_for_key ::
    "('m, 'k, 'h, 'd) commitment_map_implementor \<Rightarrow> 'm \<Rightarrow> 'k \<Rightarrow> commitment_scheme_flags" where
  "schemes_for_key I m key =
     flags_from_iter (filter (has_key_and_scheme_impl I m key) (flags_into_iter flags_all))"

definition has_key :: "('m, 'k, 'h, 'd) commitment_map_implementor \<Rightarrow> 'm \<Rightarrow> 'k \<Rightarrow> bool" where
  "has_key I m key \<longleftrightarrow> length (flags_into_iter (schemes_for_key I m key)) > 0"

definition get_commitments ::
    "('m, 'k, 'h, 'd) commitment_map_implementor \<Rightarrow> 'm \<Rightarrow> 'k \<Rightarrow> ('h, 'd) opt_per_commitment_scheme" where
  "get_commitments I m key =
     per_from_iter (List.map_filter
       (\<lambda>scheme. transpose_option (get_commitment_for_any_scheme_impl I m key scheme))
       (flags_into_iter flags_all))"

definition update_commitments ::
    "('m, 'k, 'h, 'd) commitment_map_implementor \<Rightarrow> 'm \<Rightarrow> 'k \<Rightarrow> ('h, 'd) opt_per_commitment_scheme
     \<Rightarrow> ('m, commitment_schemes_mismatch_error) result" where
  "update_commitments I m key commitments =
     (let original_schemes = schemes_for_key I m key;
          new_schemes = per_to_flags commitments
      in if original_schemes \<noteq> new_schemes
         then Err \<lparr>sme_original_schemes = original_schemes, sme_new_schemes = new_schemes\<rparr>
         else Ok (foldl (\<lambda>m c. set_commitment_for_any_scheme_impl I m key c) m
                (per_into_flat_iter commitments)))"

definition create_commitments ::
    "('m, 'k, 'h, 'd) commitment_map_implementor \<Rightarrow> 'm \<Rightarrow> 'k \<Rightarrow> ('h, 'd) opt_per_commitment_scheme
     \<Rightarrow> ('m, 'k key_exists_error) result" where
  "create_commitments I m key commitments =
     (if has_key I m key then Err \<lparr>ke_key = key\<rparr>
      else Ok (foldl (\<lambda>m c. set_commitment_for_any_scheme_impl I m key c) m
             (per_into_flat_iter commitments)))"

definition delete_commitments ::
    "('m, 'k, 'h, 'd) commitment_map_implementor \<Rightarrow> 'm \<Rightarrow> 'k \<Rightarrow> 'm" where
  "delete_commitments I m key =
     foldl (\<lambda>m c. delete_commitment_for_any_scheme_impl I m key c) m (flags_into_iter flags_all)"

text \<open>
  What an implementor promises: the four primitives agree on what the map holds, a write
  and a removal change exactly one entry, and a lookup answers with the scheme asked for.
\<close>

locale commitment_map_laws =
  fixes I :: "('m, 'k, 'h, 'd) commitment_map_implementor"
  assumes get_scheme: "to_scheme (get_commitment_for_any_scheme_impl I m k s) = s"
    and has_iff: "has_key_and_scheme_impl I m k s \<longleftrightarrow>
      transpose_option (get_commitment_for_any_scheme_impl I m k s) \<noteq> None"
    and get_set: "transpose_option
        (get_commitment_for_any_scheme_impl I (set_commitment_for_any_scheme_impl I m k c) k' s) =
      (if k' = k \<and> s = to_scheme c then Some c
       else transpose_option (get_commitment_for_any_scheme_impl I m k' s))"
    and get_delete: "transpose_option
        (get_commitment_for_any_scheme_impl I (delete_commitment_for_any_scheme_impl I m k s') k' s) =
      (if k' = k \<and> s = s' then None
       else transpose_option (get_commitment_for_any_scheme_impl I m k' s))"
begin

lemma get_cases:
  "(\<exists>h. get_commitment_for_any_scheme_impl I m k HyperKzg = AnyHyperKzg h) \<and>
   (\<exists>d. get_commitment_for_any_scheme_impl I m k DynamicDory = AnyDynamicDory d)"
  using get_scheme[of m k HyperKzg] get_scheme[of m k DynamicDory]
  by (metis any_commitment_scheme.exhaust commitment_scheme.distinct(1) to_scheme.simps)

lemma get_commitments_get:
  "transpose_option (per_get (get_commitments I m k) s) =
     transpose_option (get_commitment_for_any_scheme_impl I m k s)"
proof -
  obtain h d where
    h: "get_commitment_for_any_scheme_impl I m k HyperKzg = AnyHyperKzg h" and
    d: "get_commitment_for_any_scheme_impl I m k DynamicDory = AnyDynamicDory d"
    using get_cases by blast
  show ?thesis
    by (cases s; cases h; cases d)
      (simp_all add: get_commitments_def per_from_iter_def per_default_def List.map_filter_def h d)
qed

lemma get_commitments_eqI:
  assumes "\<And>s. transpose_option (get_commitment_for_any_scheme_impl I m k s) =
    transpose_option (per_get p s)"
  shows "get_commitments I m k = p"
proof -
  have inj: "x = y" if "transpose_option x = transpose_option y" "to_scheme x = to_scheme y" for x y
    using that by (cases x rule: transpose_option.cases; cases y rule: transpose_option.cases) auto
  have sch: "to_scheme (per_get q s) = s" for q :: "('h, 'd) opt_per_commitment_scheme" and s
    by (cases s) auto
  have "per_get (get_commitments I m k) s = per_get p s" for s
    by (rule inj) (simp_all add: sch get_commitments_get assms)
  then show ?thesis unfolding per_eq_iff by blast
qed

lemma schemes_for_key_get: "schemes_for_key I m k = per_to_flags (get_commitments I m k)"
proof -
  have "has_key_and_scheme_impl I m k s \<longleftrightarrow>
      transpose_option (per_get (get_commitments I m k) s) \<noteq> None" for s
    by (simp add: has_iff get_commitments_get)
  from this[of HyperKzg] this[of DynamicDory] show ?thesis
    by (cases "pc_hyper_kzg (get_commitments I m k)"; cases "pc_dynamic_dory (get_commitments I m k)")
      (simp_all add: schemes_for_key_def per_to_flags_def flags_from_iter_def flags_default_def)
qed

lemma has_key_iff: "has_key I m k \<longleftrightarrow> get_commitments I m k \<noteq> per_default"
  unfolding has_key_def schemes_for_key_get
  by (auto simp: flags_into_iter_def per_to_flags_def per_default_def)

lemma get_foldl_set:
  "transpose_option (get_commitment_for_any_scheme_impl I
      (foldl (\<lambda>m c. set_commitment_for_any_scheme_impl I m k c) m (per_into_flat_iter p)) k' s) =
   (if k' = k \<and> transpose_option (per_get p s) \<noteq> None then transpose_option (per_get p s)
    else transpose_option (get_commitment_for_any_scheme_impl I m k' s))"
  by (cases "pc_hyper_kzg p"; cases "pc_dynamic_dory p"; cases s)
    (simp_all add: per_into_flat_iter_def per_into_iter_def List.map_filter_def get_set)

lemma create_refines:
  assumes "get_commitments I m k = per_default"
  obtains m' where "create_commitments I m k p = Ok m'"
    "get_commitments I m' = (get_commitments I m)(k := p)"
proof
  let ?m' = "foldl (\<lambda>m c. set_commitment_for_any_scheme_impl I m k c) m (per_into_flat_iter p)"
  show "create_commitments I m k p = Ok ?m'"
    using assms by (simp add: create_commitments_def has_key_iff)
  have none: "transpose_option (get_commitment_for_any_scheme_impl I m k s) = None" for s
    using get_commitments_get[of m k s] by (cases s) (simp_all add: assms per_default_def)
  have "get_commitments I ?m' k' = ((get_commitments I m)(k := p)) k'" for k'
    by (rule get_commitments_eqI) (auto simp: get_foldl_set none get_commitments_get)
  then show "get_commitments I ?m' = (get_commitments I m)(k := p)" by blast
qed

lemma create_exists:
  "get_commitments I m k \<noteq> per_default \<Longrightarrow> create_commitments I m k p = Err \<lparr>ke_key = k\<rparr>"
  by (simp add: create_commitments_def has_key_iff)

lemma update_refines:
  assumes "per_to_flags p = per_to_flags (get_commitments I m k)"
  obtains m' where "update_commitments I m k p = Ok m'"
    "get_commitments I m' = (get_commitments I m)(k := p)"
proof
  let ?m' = "foldl (\<lambda>m c. set_commitment_for_any_scheme_impl I m k c) m (per_into_flat_iter p)"
  show "update_commitments I m k p = Ok ?m'"
    using assms by (simp add: update_commitments_def schemes_for_key_get)
  have same: "transpose_option (per_get p s) = None \<Longrightarrow>
      transpose_option (get_commitment_for_any_scheme_impl I m k s) = None" for s
    using assms get_commitments_get[of m k s, symmetric]
    by (cases s; cases "pc_hyper_kzg p"; cases "pc_dynamic_dory p") (auto simp: per_to_flags_def)
  have "get_commitments I ?m' k' = ((get_commitments I m)(k := p)) k'" for k'
    by (rule get_commitments_eqI) (auto simp: get_foldl_set same get_commitments_get)
  then show "get_commitments I ?m' = (get_commitments I m)(k := p)" by blast
qed

lemma update_mismatch:
  "per_to_flags p \<noteq> per_to_flags (get_commitments I m k) \<Longrightarrow>
   update_commitments I m k p =
     Err \<lparr>sme_original_schemes = per_to_flags (get_commitments I m k), sme_new_schemes = per_to_flags p\<rparr>"
  by (simp add: update_commitments_def schemes_for_key_get)

lemma delete_refines:
  "get_commitments I (delete_commitments I m k) = (get_commitments I m)(k := per_default)"
proof -
  have "get_commitments I (delete_commitments I m k) k' =
      ((get_commitments I m)(k := per_default)) k'" for k'
  proof (rule get_commitments_eqI)
    fix s
    show "transpose_option (get_commitment_for_any_scheme_impl I (delete_commitments I m k) k' s) =
        transpose_option (per_get (((get_commitments I m)(k := per_default)) k') s)"
      using get_commitments_get[of m k' s]
      by (cases s) (auto simp: delete_commitments_def get_delete per_default_def)
  qed
  then show ?thesis by blast
qed

end

text \<open>
  Two implementors side by side: every sequence of public operations has the same answers
  and leaves the same commitments behind in both.
\<close>

datatype ('k, 'h, 'd) commitment_map_op =
    CreateOp 'k "('h, 'd) opt_per_commitment_scheme"
  | UpdateOp 'k "('h, 'd) opt_per_commitment_scheme"
  | DeleteOp 'k

datatype 'k commitment_map_answer =
    Done | KeyExists 'k | SchemesMismatch commitment_schemes_mismatch_error

fun run_op :: "('m, 'k, 'h, 'd) commitment_map_implementor \<Rightarrow> 'm \<Rightarrow> ('k, 'h, 'd) commitment_map_op
    \<Rightarrow> 'm \<times> 'k commitment_map_answer" where
  "run_op I m (CreateOp k p) =
     (case create_commitments I m k p of Ok m' \<Rightarrow> (m', Done) | Err e \<Rightarrow> (m, KeyExists (ke_key e)) | Panic \<Rightarrow> (m, Done))"
| "run_op I m (UpdateOp k p) =
     (case update_commitments I m k p of Ok m' \<Rightarrow> (m', Done) | Err e \<Rightarrow> (m, SchemesMismatch e) | Panic \<Rightarrow> (m, Done))"
| "run_op I m (DeleteOp k) = (delete_commitments I m k, Done)"

fun run_ops :: "('m, 'k, 'h, 'd) commitment_map_implementor \<Rightarrow> 'm \<Rightarrow> ('k, 'h, 'd) commitment_map_op list
    \<Rightarrow> 'm \<times> 'k commitment_map_answer list" where
  "run_ops I m [] = (m, [])"
| "run_ops I m (x # xs) =
     (let (m', a) = run_op I m x; (m'', as) = run_ops I m' xs in (m'', a # as))"

text \<open>
  The abstract map: a function from keys to the commitments of every scheme. A key exists
  when it has a commitment for some scheme.
\<close>

fun spec_op :: "('k \<Rightarrow> ('h, 'd) opt_per_commitment_scheme) \<Rightarrow> ('k, 'h, 'd) commitment_map_op
    \<Rightarrow> ('k \<Rightarrow> ('h, 'd) opt_per_commitment_scheme) \<times> 'k commitment_map_answer" where
  "spec_op M (CreateOp k p) = (if M k = per_default then (M(k := p), Done) else (M, KeyExists k))"
| "spec_op M (UpdateOp k p) =
     (if per_to_flags (M k) = per_to_flags p then (M(k := p), Done)
      else (M, SchemesMismatch
        \<lparr>sme_original_schemes = per_to_flags (M k), sme_new_schemes = per_to_flags p\<rparr>))"
| "spec_op M (DeleteOp k) = (M(k := per_default), Done)"

fun spec_ops :: "('k \<Rightarrow> ('h, 'd) opt_per_commitment_scheme) \<Rightarrow> ('k, 'h, 'd) commitment_map_op list
    \<Rightarrow> ('k \<Rightarrow> ('h, 'd) opt_per_commitment_scheme) \<times> 'k commitment_map_answer list" where
  "spec_ops M [] = (M, [])"
| "spec_ops M (x # xs) =
     (let (M', a) = spec_op M x; (M'', as) = spec_ops M' xs in (M'', a # as))"

context commitment_map_laws
begin

lemma run_op_refines:
  "get_commitments I (fst (run_op I m x)) = fst (spec_op (get_commitments I m) x)
   \<and> snd (run_op I m x) = snd (spec_op (get_commitments I m) x)"
proof (cases x)
  case (CreateOp k p)
  then show ?thesis
    by (cases "get_commitments I m k = per_default")
      (auto elim!: create_refines[of m k p] simp: create_exists)
next
  case (UpdateOp k p)
  then show ?thesis
    by (cases "per_to_flags p = per_to_flags (get_commitments I m k)")
      (auto elim!: update_refines[of p m k] simp: update_mismatch)
next
  case (DeleteOp k)
  then show ?thesis by (simp add: delete_refines)
qed

lemma run_ops_refines:
  "get_commitments I (fst (run_ops I m xs)) = fst (spec_ops (get_commitments I m) xs)
   \<and> snd (run_ops I m xs) = snd (spec_ops (get_commitments I m) xs)"
proof (induction xs arbitrary: m)
  case Nil
  then show ?case by simp
next
  case (Cons x xs)
  then show ?case
    using run_op_refines[of m x] Cons.IH[of "fst (run_op I m x)"]
    by (auto simp: case_prod_beta Let_def)
qed

end

locale commitment_map_simulation =
  left: commitment_map_laws I + right: commitment_map_laws J
  for I :: "('m, 'k, 'h, 'd) commitment_map_implementor"
    and J :: "('n, 'k, 'h, 'd) commitment_map_implementor"
begin

lemma run_ops_sim:
  "get_commitments I m = get_commitments J n \<Longrightarrow>
   get_commitments I (fst (run_ops I m xs)) = get_commitments J (fst (run_ops J n xs))
   \<and> snd (run_ops I m xs) = snd (run_ops J n xs)"
  using left.run_ops_refines[of m xs] right.run_ops_refines[of n xs] by simp

end

section \<open>The storage handler\<close>

definition TABLE_COMMITMENT_MAX_LENGTH :: nat where
  "TABLE_COMMITMENT_MAX_LENGTH = 45328"

type_synonym table_commitment_bytes = bytes
type_synonym table_commitment_bytes_per_scheme =
  "(table_commitment_bytes, table_commitment_bytes) opt_per_commitment_scheme"
type_synonym commitment_storage =
  "(table_identifier, commitment_scheme, table_commitment_bytes) storage_double_map"

definition storage_has :: "commitment_storage \<Rightarrow> table_identifier \<Rightarrow> commitment_scheme \<Rightarrow> bool" where
  "storage_has m key scheme = sm_contains m (key, scheme)"

fun storage_get :: "commitment_storage \<Rightarrow> table_identifier \<Rightarrow> commitment_scheme
    \<Rightarrow> (bytes option, bytes option) any_commitment_scheme" where
  "storage_get m key HyperKzg = AnyHyperKzg (sm_get m (key, HyperKzg))"
| "storage_get m key DynamicDory = AnyDynamicDory (sm_get m (key, DynamicDory))"

definition storage_set :: "commitment_storage \<Rightarrow> table_identifier
    \<Rightarrow> (bytes, bytes) any_commitment_scheme \<Rightarrow> commitment_storage" where
  "storage_set m key commitment =
     (let scheme = to_scheme commitment in sm_insert (key, scheme) (any_unwrap commitment) m)"

definition storage_delete :: "commitment_storage \<Rightarrow> table_identifier \<Rightarrow> commitment_scheme
    \<Rightarrow> commitment_storage" where
  "storage_delete m key scheme = sm_remove (key, scheme) m"

definition storage_map_handler ::
    "(commitment_storage, table_identifier, bytes, bytes) commitment_map_implementor" where
  "storage_map_handler =
     \<lparr>has_key_and_scheme_impl = storage_has,
      get_commitment_for_any_scheme_impl = storage_get,
      set_commitment_for_any_scheme_impl = storage_set,
      delete_commitment_for_any_scheme_impl = storage_delete\<rparr>"

interpretation sh: commitment_map_laws storage_map_handler
proof (unfold_locales, goal_cases)
  case (1 m k s)
  show ?case by (cases s) (auto simp: storage_map_handler_def)
next
  case (2 m k s)
  show ?case
    by (cases s; cases "sm_get m (k, s)")
      (auto simp: storage_map_handler_def storage_has_def sm_contains_def)
next
  case (3 m k c k' s)
  show ?case by (cases s; cases c) (auto simp: storage_map_handler_def storage_set_def)
next
  case (4 m k s' k' s)
  show ?case by (cases s; cases s') (auto simp: storage_map_handler_def storage_delete_def)
qed

section \<open>The in-memory map\<close>

record ('k, 'h, 'd) memory_commitment_map =
  hyper_kzg_map :: "('k, 'h) storage_map"
  dory_map :: "('k, 'd) storage_map"

fun memory_has :: "('k, 'h, 'd) memory_commitment_map \<Rightarrow> 'k \<Rightarrow> commitment_scheme \<Rightarrow> bool" where
  "memory_has m key HyperKzg = sm_contains (hyper_kzg_map m) key"
| "memory_has m key DynamicDory = sm_contains (dory_map m) key"

fun memory_get :: "('k, 'h, 'd) memory_commitment_map \<Rightarrow> 'k \<Rightarrow> commitment_scheme
    \<Rightarrow> ('h option, 'd option) any_commitment_scheme" where
  "memory_get m key HyperKzg = AnyHyperKzg (sm_get (hyper_kzg_map m) key)"
| "memory_get m key DynamicDory = AnyDynamicDory (sm_get (dory_map m) key)"

fun memory_set :: "('k, 'h, 'd) memory_commitment_map \<Rightarrow> 'k \<Rightarrow> ('h, 'd) any_commitment_scheme
    \<Rightarrow> ('k, 'h, 'd) memory_commitment_map" where
  "memory_set m key (AnyHyperKzg c) = m\<lparr>hyper_kzg_map := sm_insert key c (hyper_kzg_map m)\<rparr>"
| "memory_set m key (AnyDynamicDory c) = m\<lparr>dory_map := sm_insert key c (dory_map m)\<rparr>"

fun memory_delete :: "('k, 'h, 'd) memory_commitment_map \<Rightarrow> 'k \<Rightarrow> commitment_scheme
    \<Rightarrow> ('k, 'h, 'd) memory_commitment_map" where
  "memory_delete m key HyperKzg = m\<lparr>hyper_kzg_map := sm_remove key (hyper_kzg_map m)\<rparr>"
| "memory_delete m key DynamicDory = m\<lparr>dory_map := sm_remove key (dory_map m)\<rparr>"

definition memory_map_handler ::
    "(('k, 'h, 'd) memory_commitment_map, 'k, 'h, 'd) commitment_map_implementor" where
  "memory_map_handler =
     \<lparr>has_key_and_scheme_impl = memory_has,
      get_commitment_for_any_scheme_impl = memory_get,
      set_commitment_for_any_scheme_impl = memory_set,
      delete_commitment_for_any_scheme_impl = memory_delete\<rparr>"

interpretation mh: commitment_map_laws memory_map_handler
proof (unfold_locales, goal_cases)
  case (1 m k s)
  show ?case by (cases s) (auto simp: memory_map_handler_def)
next
  case (2 m k s)
  show ?case
    by (cases s; cases "sm_get (hyper_kzg_map m) k"; cases "sm_get (dory_map m) k")
      (auto simp: memory_map_handler_def sm_contains_def)
next
  case (3 m k c k' s)
  show ?case by (cases s; cases c) (auto simp: memory_map_handler_def)
next
  case (4 m k s' k' s)
  show ?case by (cases s; cases s') (auto simp: memory_map_handler_def)
qed

interpretation mh_sh: commitment_map_simulation memory_map_handler storage_map_handler
  by unfold_locales

section \<open>Serialized commitments\<close>

text \<open>
  \<open>TableCommitment<C>\<close> and its bincode format belong to other crates: they enter as a
  record with the number of columns of a commitment, its encoding and its decoding.
\<close>

record 'c table_commitment_codec =
  cc_num_columns :: "'c \<Rightarrow> nat"
  cc_encode :: "'c \<Rightarrow> bytes option"
  cc_decode :: "bytes \<Rightarrow> 'c option"

datatype table_commitment_to_bytes_error = TooManyColumns nat | BincodeEncode

datatype bincode_decode_error = BincodeDecode

definition table_commitment_to_bytes ::
    "'c table_commitment_codec \<Rightarrow> 'c \<Rightarrow> (table_commitment_bytes, table_commitment_to_bytes_error) result" where
  "table_commitment_to_bytes C value =
     (let num_columns = cc_num_columns C value in
      if num_columns > MAX_COLS_PER_TABLE then Err (TooManyColumns num_columns)
      else bind_res (ok_or (cc_encode C value) BincodeEncode) (\<lambda>bytes.
           expect_res (bounded_try_from TABLE_COMMITMENT_MAX_LENGTH bytes ())))"

definition table_commitment_from_bytes ::
    "'c table_commitment_codec \<Rightarrow> table_commitment_bytes \<Rightarrow> ('c, bincode_decode_error) result" where
  "table_commitment_from_bytes C value = ok_or (cc_decode C value) BincodeDecode"

fun any_commitment_to_bytes ::
    "'h table_commitment_codec \<Rightarrow> 'd table_commitment_codec \<Rightarrow> ('h, 'd) any_commitment_scheme
     \<Rightarrow> ((bytes, bytes) any_commitment_scheme, table_commitment_to_bytes_error) result" where
  "any_commitment_to_bytes CH CD (AnyHyperKzg c) = map_ok AnyHyperKzg (table_commitment_to_bytes CH c)"
| "any_commitment_to_bytes CH CD (AnyDynamicDory c) = map_ok AnyDynamicDory (table_commitment_to_bytes CD c)"

definition commitments_to_bytes ::
    "'h table_commitment_codec \<Rightarrow> 'd table_commitment_codec \<Rightarrow> ('h, 'd) opt_per_commitment_scheme
     \<Rightarrow> (table_commitment_bytes_per_scheme, table_commitment_to_bytes_error) result" where
  "commitments_to_bytes CH CD value =
     map_ok per_from_iter (collect_res (any_commitment_to_bytes CH CD) (per_into_flat_iter value))"

fun any_commitment_from_bytes ::
    "'h table_commitment_codec \<Rightarrow> 'd table_commitment_codec \<Rightarrow> (bytes, bytes) any_commitment_scheme
     \<Rightarrow> (('h, 'd) any_commitment_scheme, bincode_decode_error) result" where
  "any_commitment_from_bytes CH CD (AnyHyperKzg b) = map_ok AnyHyperKzg (table_commitment_from_bytes CH b)"
| "any_commitment_from_bytes CH CD (AnyDynamicDory b) = map_ok AnyDynamicDory (table_commitment_from_bytes CD b)"

definition commitments_from_bytes ::
    "'h table_commitment_codec \<Rightarrow> 'd table_commitment_codec \<Rightarrow> table_commitment_bytes_per_scheme
     \<Rightarrow> (('h, 'd) opt_per_commitment_scheme, bincode_decode_error) result" where
  "commitments_from_bytes CH CD value =
     map_ok per_from_iter (collect_res (any_commitment_from_bytes CH CD) (per_into_flat_iter value))"

text \<open>What bincode documents: decoding what was encoded gives the value back.\<close>

definition codec_roundtrips :: "'c table_commitment_codec \<Rightarrow> bool" where
  "codec_roundtrips C \<longleftrightarrow> (\<forall>c b. cc_encode C c = Some b \<longrightarrow> cc_decode C b = Some c)"

lemma table_commitment_to_bytes_Ok:
  "table_commitment_to_bytes C c = Ok b \<longleftrightarrow>
     cc_num_columns C c \<le> MAX_COLS_PER_TABLE \<and> cc_encode C c = Some b
     \<and> length b \<le> TABLE_COMMITMENT_MAX_LENGTH"
  by (auto simp: table_commitment_to_bytes_def Let_def res_Ok_iff bounded_try_from_Ok_iff)

lemma commitments_to_bytes_Ok:
  "commitments_to_bytes CH CD p = Ok q \<longleftrightarrow>
     (case pc_hyper_kzg p of None \<Rightarrow> pc_hyper_kzg q = None
      | Some c \<Rightarrow> \<exists>b. table_commitment_to_bytes CH c = Ok b \<and> pc_hyper_kzg q = Some b) \<and>
     (case pc_dynamic_dory p of None \<Rightarrow> pc_dynamic_dory q = None
      | Some c \<Rightarrow> \<exists>b. table_commitment_to_bytes CD c = Ok b \<and> pc_dynamic_dory q = Some b)"
  by (cases q; cases "pc_hyper_kzg p"; cases "pc_dynamic_dory p")
    (auto simp: commitments_to_bytes_def per_into_flat_iter_def per_into_iter_def
      List.map_filter_def per_from_iter_def per_default_def res_Ok_iff)

lemma commitments_to_bytes_flags: "commitments_to_bytes CH CD p = Ok q \<Longrightarrow> per_to_flags q = per_to_flags p"
  by (auto simp: commitments_to_bytes_Ok per_to_flags_def split: option.splits)

lemma commitments_from_bytes_flags:
  "commitments_from_bytes CH CD q = Ok p \<Longrightarrow> per_to_flags p = per_to_flags q"
  by (cases "pc_hyper_kzg q"; cases "pc_dynamic_dory q")
    (auto simp: commitments_from_bytes_def per_into_flat_iter_eq per_to_flags_def res_Ok_iff per_default_def)

lemma commitments_from_to_bytes:
  assumes "codec_roundtrips CH" "codec_roundtrips CD" "commitments_to_bytes CH CD p = Ok q"
  shows "commitments_from_bytes CH CD q = Ok p"
  using assms
  by (cases p; cases "pc_hyper_kzg p"; cases "pc_dynamic_dory p")
    (auto simp: commitments_to_bytes_Ok table_commitment_to_bytes_Ok codec_roundtrips_def
      commitments_from_bytes_def table_commitment_from_bytes_def per_into_flat_iter_eq per_default_def)

text \<open>The bound on serialized commitments the code relies on: 64 columns fit.\<close>

definition codec_fits :: "'c table_commitment_codec \<Rightarrow> bool" where
  "codec_fits C \<longleftrightarrow> (\<forall>c b. cc_num_columns C c \<le> MAX_COLS_PER_TABLE \<longrightarrow> cc_encode C c = Some b \<longrightarrow>
     length b \<le> TABLE_COMMITMENT_MAX_LENGTH)"

lemma table_commitment_to_bytes_not_Panic:
  "codec_fits C \<Longrightarrow> table_commitment_to_bytes C c \<noteq> Panic"
  by (auto simp: table_commitment_to_bytes_def codec_fits_def Let_def ok_or_def bounded_try_from_def
      not_less split: option.splits)

lemma commitments_to_bytes_not_Panic:
  assumes "codec_fits CH" "codec_fits CD"
  shows "commitments_to_bytes CH CD p \<noteq> Panic"
proof -
  have "any_commitment_to_bytes CH CD x \<noteq> Panic" for x
    using table_commitment_to_bytes_not_Panic[OF assms(1)] table_commitment_to_bytes_not_Panic[OF assms(2)]
    by (cases x) (auto simp: map_ok_def split: result.splits)
  then have "collect_res (any_commitment_to_bytes CH CD) xs \<noteq> Panic" for xs
    by (induction xs) (auto simp: bind_res_def map_ok_def split: result.splits)
  then show ?thesis by (auto simp: commitments_to_bytes_def map_ok_def split: result.splits)
qed

section \<open>Properties\<close>

text \<open>
  C14. The on-chain commitment storage implements the abstract map from tables to
  per-scheme commitments: for every sequence of create, update and delete operations the
  stored commitments and all answers (success, \<open>KeyExistsError\<close>,
  \<open>CommitmentSchemesMismatchError\<close> with its two flag sets) are those of the abstract map.
\<close>

theorem commitment_storage_refines_map:
  "get_commitments storage_map_handler (fst (run_ops storage_map_handler m xs)) =
     fst (spec_ops (get_commitments storage_map_handler m) xs)
   \<and> snd (run_ops storage_map_handler m xs) =
     snd (spec_ops (get_commitments storage_map_handler m) xs)"
  by (rule sh.run_ops_refines)

text \<open>
  C34. The in-memory map used in tests and the on-chain storage are interchangeable: from
  maps that hold the same commitments, the same operations give the same answers and leave
  the same commitments.
\<close>

theorem memory_map_simulates_storage:
  assumes "get_commitments memory_map_handler m = get_commitments storage_map_handler n"
  shows "get_commitments memory_map_handler (fst (run_ops memory_map_handler m xs)) =
      get_commitments storage_map_handler (fst (run_ops storage_map_handler n xs))
    \<and> snd (run_ops memory_map_handler m xs) = snd (run_ops storage_map_handler n xs)"
  by (rule mh_sh.run_ops_sim) (rule assms)

lemma empty_maps_agree:
  "get_commitments memory_map_handler \<lparr>hyper_kzg_map = [], dory_map = []\<rparr> =
   get_commitments storage_map_handler []"
  by (rule ext) (simp add: get_commitments_def memory_map_handler_def storage_map_handler_def)

theorem memory_map_simulates_storage_witness:
  "snd (run_ops memory_map_handler \<lparr>hyper_kzg_map = [], dory_map = []\<rparr>
      [CreateOp \<lparr>ti_name = ''T'', ti_namespace = ''N''\<rparr>
         \<lparr>pc_hyper_kzg = Some ''c'', pc_dynamic_dory = None :: bytes option\<rparr>]) =
   snd (run_ops storage_map_handler []
      [CreateOp \<lparr>ti_name = ''T'', ti_namespace = ''N''\<rparr>
         \<lparr>pc_hyper_kzg = Some ''c'', pc_dynamic_dory = None\<rparr>])"
  by (rule conjunct2[OF memory_map_simulates_storage[OF empty_maps_agree]])

text \<open>
  Serializing the commitments of a table and reading them back gives the same
  commitments for the same schemes, every serialized commitment has at most 64 columns and
  fits the 45328 bytes the storage allows, provided the codec decodes what it encodes.
\<close>

theorem commitments_bytes_roundtrip:
  assumes "codec_roundtrips CH" "codec_roundtrips CD"
    and "commitments_to_bytes CH CD p = Ok q"
  shows "commitments_from_bytes CH CD q = Ok p \<and> per_to_flags q = per_to_flags p
    \<and> (\<forall>b \<in> set (map any_unwrap (per_into_flat_iter q)). length b \<le> TABLE_COMMITMENT_MAX_LENGTH)"
  using commitments_from_to_bytes[OF assms] commitments_to_bytes_flags[OF assms(3)] assms(3)
  by (cases "pc_hyper_kzg p"; cases "pc_dynamic_dory p")
    (auto simp: commitments_to_bytes_Ok table_commitment_to_bytes_Ok per_into_flat_iter_eq)

definition demo_codec :: "bytes table_commitment_codec" where
  "demo_codec = \<lparr>cc_num_columns = length, cc_encode = Some, cc_decode = Some\<rparr>"

theorem commitments_bytes_roundtrip_witness:
  "commitments_from_bytes demo_codec demo_codec
     \<lparr>pc_hyper_kzg = Some ''ab'', pc_dynamic_dory = None\<rparr> =
   Ok \<lparr>pc_hyper_kzg = Some ''ab'', pc_dynamic_dory = None\<rparr>"
proof -
  have c: "codec_roundtrips demo_codec" by (simp add: codec_roundtrips_def demo_codec_def)
  have "commitments_to_bytes demo_codec demo_codec
      \<lparr>pc_hyper_kzg = Some ''ab'', pc_dynamic_dory = None\<rparr> =
      Ok \<lparr>pc_hyper_kzg = Some ''ab'', pc_dynamic_dory = None\<rparr>"
    by (simp add: commitments_to_bytes_Ok table_commitment_to_bytes_Ok demo_codec_def
        MAX_COLS_PER_TABLE_def TABLE_COMMITMENT_MAX_LENGTH_def)
  from commitments_bytes_roundtrip[OF c c this] show ?thesis by blast
qed

end
