(* ===== verification/Sxt_Frame.thy ===== *)
theory Sxt_Frame
  imports Commitment_Map
begin

text \<open>
  The runtime frame the pallets share: origins, the error and event enumerations that the
  runtime aggregates, the system state with its block number and event log, and the
  execution of extrinsics. An extrinsic is transactional: an error leaves storage as it
  was, so a failing call returns no state, and \<open>dispatch\<close> keeps the old one.

  The storage of the runtime is one record that every pallet extends with its storage
  items, in the order of the pallets' \<open>Config\<close> supertraits. A pallet's operation is
  polymorphic in the extension, so it cannot touch the storage of pallets above it.
\<close>

section \<open>Origins\<close>

datatype origin = Root | Signed account_id | Unsigned

section \<open>Errors of the pallets\<close>

datatype permissions_error =
    InsufficientPermissions | EmptyPermissionsListError | UnsignedTransaction
  | PermissionsBadOrigin | PermissionAlreadyExists | PermissionListFull

datatype keystore_error =
    KeystoreVerificationError | AccountAlreadyRegistered | KeystoreKeyNotFound | NoKeysRegistered
  | NoEthereumKeyRegistered | EthereumKeyAlreadyRegistered | SignatureVerificationFailed | KeyMismatch

datatype attestation_error =
    AttestationVerificationError | MaxAttestationKeys | PublicKeyAlreadyRegistered
  | AccountIdAlreadyLinked | AttestationInsufficientPermissions | AttestationSignatureError
  | MaxAttestationsForBlockError | AttestationAlreadyRecordedError | CannotAttestFutureBlock
  | CannotAttestCurrentBlock | AttestationKeyNotFound

datatype commitments_error =
    CommitmentWithTooManyColumns | SerializeCommitment | DeserializeCommitment
  | SerializeInsertData | DeserializeInsertData | InappropriateSnapshotCommitments
  | CreateTableWithNoColumns | CreateTableWithInvalidTableIdentifierCount
  | CreateTableWithDuplicateIdentifiers | CreateTableWithReservedMetadataPrefix
  | DecimalColumnWithoutPrecision | DecimalColumnWithInvalidPrecision
  | DecimalColumnWithInvalidScale | SupportedColumnWithUnsupportedParameter
  | ColumnWithUnsupportedDataType | ColumnWithoutNotNull | ColumnWithUnsupportedOption
  | NativeSerializeCommitment | NativeDeserializeCommitment | NativeSerializeInsertData
  | NativeDeserializeInsertData | ExistingCommitmentsRangeMismatch
  | ExistingCommitmentsColumnOrderMismatch | NoExistingCommitments | InsertDataOutOfBounds
  | InsertDataDoesntMatchExistingCommitments | TableAlreadyExists

datatype tables_error =
    ArrowDeserializationError | TableIdentifierParsingError | IdentifierAlreadyExists
  | CreateStatementParseError | VersionAlreadyExists | NotAllSchemasRemovedError
  | NotAllInsertQuorumsRemovedError | NotAllCommitmentsRemovedError | TableNotFound
  | MissingCommitmentScheme | BoundedVecError | MissingSnapshot | SchemaNameParseError
  | GeneratedUuidError | TableUUIDError | UtfConversionError | UUIDGenerationError

datatype indexing_error =
    UnauthorizedSubmitter | SchemaMismatch | NoData | InvalidBatch | LateBatch | InvalidTable
  | AlreadySubmitted | NativeDeserializationError | NativeEmptyRecordBatchError
  | NativeBatchReadError | NativeRecordBatchUnsupportedType | NativeRecordBatchContainsNulls
  | NativeRecordBatchInvalidTimezone | NativeRecordBatchUnexpectedSchemaDataMismatch
  | NativeRecordBatchDuplicateIdentifiers | NativeSerializationError
  | TableDeserializationError | TableSerializationError

datatype system_tables_error =
    MissingExpectedField | IncorrectFieldType | InternalError | InvalidSignature
  | AddressMismatch | LateNonce | FutureNonce | InvalidMessageFormat | InvalidSessionKeys
  | InvalidValidatorProof | ErrorParsingNominations | EmptyNominationSet

datatype smartcontracts_error =
  ExistingContractError | TooManyTables | MissingTargetSchema | MissingDdlStatement

datatype rewards_error = NoPayerSet

text \<open>
  \<open>ExternalError\<close> stands for the module errors of the Substrate pallets the runtime uses
  (staking, balances, session), \<open>OtherError\<close> for \<open>DispatchError::Other\<close>.
\<close>

datatype dispatch_error =
    BadOrigin
  | OtherError bytes
  | ExternalError bytes
  | PermissionsError permissions_error
  | KeystoreError keystore_error
  | AttestationError attestation_error
  | CommitmentsError commitments_error
  | TablesError tables_error
  | IndexingError indexing_error
  | SystemTablesError system_tables_error
  | SmartContractsError smartcontracts_error
  | RewardsError rewards_error

section \<open>Requests and events\<close>

datatype commitment_creation_cmd =
    FromSnapshot snapshot_url table_commitment_bytes_per_scheme
  | EmptyCommitment commitment_scheme_flags

record update_table =
  ut_ident :: table_identifier
  ut_create_statement :: create_statement
  ut_table_type :: table_type
  ut_commitment :: commitment_creation_cmd
  ut_source :: source

record create_table_request =
  cr_table_uuid :: table_uuid
  cr_table_version :: table_version
  cr_column_uuids :: "column_uuid list"
  cr_table_name :: table_identifier
  cr_ddl :: create_statement
  cr_commitment :: table_commitment_bytes_per_scheme
  cr_snapshot_url :: snapshot_url
  cr_table_type :: table_type

datatype runtime_event =
    PermissionsSet account_id "permission_level list"
  | EthereumKeyRegistered account_id ethereum_key
  | EthereumKeyRemoved account_id
  | BlockAttested u32 attestation account_id
  | NamespaceCreated create_statement table_version table_uuid table_type source
  | NamespaceUuidUpdated table_uuid table_uuid table_version bytes
  | TableUuidUpdated table_uuid table_uuid table_version table_identifier
  | SchemaUpdated "account_id option" "update_table list"
  | TablesCreatedWithCommitments source_and_mode "create_table_request list"
  | TableDropped "account_id option" table_type table_identifier source
  | DataSubmitted account_id data_submission
  | QuorumReached data_quorum row_data
  | SystemTableUpdate table_identifier row_data
  | SystemTableError table_identifier dispatch_error row_data
  | QuorumEmptyBlock table_identifier u64 "account_id list" "account_id list"
  | MessageReceived bytes bytes
  | MessageProcessingError dispatch_error
  | ValidatorForceChilled account_id
  | SmartContractAdded "account_id option" source bytes
  | SmartContractRemoved "account_id option" source bytes
  | EraPaid u32
  | Payout account_id
  | RewardsStatus u32 u32
  | PayoutError account_id dispatch_error
  | SetupError dispatch_error
  | PayerUpdated account_id
  | StakingContractUpdated contract_info
  | MessagingContractUpdated contract_info

section \<open>System state\<close>

record frame_system =
  block_number :: u32
  events :: "runtime_event list"

type_synonym 'a dispatch_result = "('a, dispatch_error) result"

definition deposit_event :: "runtime_event \<Rightarrow> 'a frame_system_scheme \<Rightarrow> 'a frame_system_scheme" where
  "deposit_event e s = s\<lparr>events := events s @ [e]\<rparr>"

fun ensure_root :: "origin \<Rightarrow> unit dispatch_result" where
  "ensure_root Root = Ok ()"
| "ensure_root _ = Err BadOrigin"

fun ensure_signed :: "origin \<Rightarrow> account_id dispatch_result" where
  "ensure_signed (Signed who) = Ok who"
| "ensure_signed _ = Err BadOrigin"

lemma ensure_root_Ok_iff: "ensure_root orig = Ok u \<longleftrightarrow> orig = Root"
  by (cases orig) auto

lemma ensure_signed_Ok_iff: "ensure_signed orig = Ok who \<longleftrightarrow> orig = Signed who"
  by (cases orig) auto

lemma bind_root_denied: "orig \<noteq> Root \<Longrightarrow> \<exists>e. bind_res (ensure_root orig) f = Err e"
  by (cases orig) auto

lemma block_number_deposit_event [simp]: "block_number (deposit_event e s) = block_number s"
  by (simp add: deposit_event_def)

lemma events_deposit_event [simp]: "events (deposit_event e s) = events s @ [e]"
  by (simp add: deposit_event_def)

section \<open>Executing extrinsics\<close>

text \<open>An extrinsic that fails or panics leaves the state of the chain unchanged.\<close>

definition dispatch :: "('c \<Rightarrow> origin \<Rightarrow> 's \<Rightarrow> 's dispatch_result) \<Rightarrow> 'c \<times> origin \<Rightarrow> 's \<Rightarrow> 's" where
  "dispatch call x s = (case call (fst x) (snd x) s of Ok s' \<Rightarrow> s' | _ \<Rightarrow> s)"

definition run_extrinsics ::
    "('c \<Rightarrow> origin \<Rightarrow> 's \<Rightarrow> 's dispatch_result) \<Rightarrow> ('c \<times> origin) list \<Rightarrow> 's \<Rightarrow> 's" where
  "run_extrinsics call xs s = fold (dispatch call) xs s"

lemma run_extrinsics_preserves:
  assumes step: "\<And>x s s'. x \<in> set xs \<Longrightarrow> P s \<Longrightarrow> call (fst x) (snd x) s = Ok s' \<Longrightarrow> P s'"
  shows "P s \<Longrightarrow> P (run_extrinsics call xs s)"
proof -
  have "set ys \<subseteq> set xs \<Longrightarrow> P s \<Longrightarrow> P (fold (dispatch call) ys s)" for ys
    by (induction ys arbitrary: s) (auto simp: dispatch_def split: result.split intro: step)
  then show "P s \<Longrightarrow> P (run_extrinsics call xs s)" by (simp add: run_extrinsics_def)
qed

text \<open>
  Interface of a pallet with an invariant: no successful call breaks it. Then no sequence of
  extrinsics, successful or not and from whatever origins, does.
\<close>

locale invariant_pallet =
  fixes call :: "'c \<Rightarrow> origin \<Rightarrow> 's \<Rightarrow> 's dispatch_result"
    and inv :: "'s \<Rightarrow> bool"
  assumes call_inv: "inv s \<Longrightarrow> call c orig s = Ok s' \<Longrightarrow> inv s'"
begin

lemma dispatch_inv: "inv s \<Longrightarrow> inv (dispatch call x s)"
  using call_inv by (auto simp: dispatch_def split: result.split)

lemma run_inv: "inv s \<Longrightarrow> inv (run_extrinsics call xs s)"
  unfolding run_extrinsics_def by (induction xs arbitrary: s) (auto intro: dispatch_inv)

end

text \<open>
  Interface of a pallet whose calls are guarded: an origin that is not allowed gets an error.
  A state in which none of the origins is allowed survives every attempt of theirs.
\<close>

locale guarded_pallet =
  fixes call :: "'c \<Rightarrow> origin \<Rightarrow> 's \<Rightarrow> 's dispatch_result"
    and allowed :: "'c \<Rightarrow> origin \<Rightarrow> 's \<Rightarrow> bool"
  assumes denied: "\<not> allowed c orig s \<Longrightarrow> \<exists>e. call c orig s = Err e"
begin

lemma dispatch_denied: "\<not> allowed (fst x) (snd x) s \<Longrightarrow> dispatch call x s = s"
  using denied by (fastforce simp: dispatch_def)

lemma run_denied:
  "(\<And>c orig. (c, orig) \<in> set xs \<Longrightarrow> \<not> allowed c orig s) \<Longrightarrow> run_extrinsics call xs s = s"
  unfolding run_extrinsics_def by (induction xs) (auto simp: dispatch_denied)

end

end
