(* ===== verification/Pallet_Permissions.thy ===== *)
theory Pallet_Permissions
  imports Sxt_Frame
begin

text \<open>
  \<open>pallets/permissions\<close>: the permission lists of accounts, the three extrinsics that edit
  them and the check \<open>ensure_root_or_permissioned\<close> that every other pallet calls.
\<close>

record permissions_state = frame_system +
  Permissions :: "(account_id, permission_level list) storage_map"

definition has_permissions :: "'a permissions_state_scheme \<Rightarrow> account_id \<Rightarrow> permission_level \<Rightarrow> bool" where
  "has_permissions s who p =
     (case sm_get (Permissions s) who of None \<Rightarrow> False | Some l \<Rightarrow> list_ex (\<lambda>x. x = p) l)"

fun ensure_root_or_permissioned ::
    "'a permissions_state_scheme \<Rightarrow> origin \<Rightarrow> permission_level \<Rightarrow> account_id option dispatch_result" where
  "ensure_root_or_permissioned s Root p = Ok None"
| "ensure_root_or_permissioned s (Signed who) p =
     (if has_permissions s who p then Ok (Some who) else Err (PermissionsError InsufficientPermissions))"
| "ensure_root_or_permissioned s Unsigned p = Err (PermissionsError UnsignedTransaction)"

definition set_permissions ::
    "origin \<Rightarrow> account_id \<Rightarrow> permission_level list \<Rightarrow> 'a permissions_state_scheme
     \<Rightarrow> 'a permissions_state_scheme dispatch_result" where
  "set_permissions orig who permissions s =
     bind_res (ensure_root_or_permissioned s orig UpdatePermissions) (\<lambda>_.
     bind_res (ensure (length permissions > 0) (PermissionsError EmptyPermissionsListError)) (\<lambda>_.
     let s = s\<lparr>Permissions := sm_insert who permissions (Permissions s)\<rparr>
     in Ok (deposit_event (PermissionsSet who permissions) s)))"

definition clear_permissions ::
    "origin \<Rightarrow> account_id \<Rightarrow> 'a permissions_state_scheme \<Rightarrow> 'a permissions_state_scheme dispatch_result" where
  "clear_permissions orig who s =
     bind_res (ensure_root_or_permissioned s orig UpdatePermissions) (\<lambda>_.
     let permissions = [];
         s = s\<lparr>Permissions := sm_remove who (Permissions s)\<rparr>
     in Ok (deposit_event (PermissionsSet who permissions) s))"

definition add_proxy_permission ::
    "origin \<Rightarrow> account_id \<Rightarrow> permission_level \<Rightarrow> 'a permissions_state_scheme
     \<Rightarrow> 'a permissions_state_scheme dispatch_result" where
  "add_proxy_permission orig proxy permission s =
     bind_res (ensure_root_or_permissioned s orig (EditSpecificPermission permission)) (\<lambda>_.
     let permissions = sm_get_or [] (Permissions s) proxy in
     if permission \<in> set permissions then Err (PermissionsError PermissionAlreadyExists)
     else bind_res (ok_or (try_push PERMISSION_LIST_MAX permission permissions)
            (PermissionsError PermissionListFull)) (\<lambda>permissions.
          let s = s\<lparr>Permissions := sm_insert proxy permissions (Permissions s)\<rparr>
          in Ok (deposit_event (PermissionsSet proxy permissions) s)))"

text \<open>
  The calls of the pallet. A \<open>PermissionList\<close> holds at most 32 entries: a longer argument
  does not decode into a call.
\<close>

datatype permissions_call =
    SetPermissions account_id "permission_level list"
  | ClearPermissions account_id
  | AddProxyPermission account_id permission_level

fun permissions_dispatch ::
    "permissions_call \<Rightarrow> origin \<Rightarrow> 'a permissions_state_scheme \<Rightarrow> 'a permissions_state_scheme dispatch_result" where
  "permissions_dispatch (SetPermissions who ps) orig s =
     (if length ps \<le> PERMISSION_LIST_MAX then set_permissions orig who ps s
      else Err (OtherError ''decode''))"
| "permissions_dispatch (ClearPermissions who) orig s = clear_permissions orig who s"
| "permissions_dispatch (AddProxyPermission proxy p) orig s = add_proxy_permission orig proxy p s"

section \<open>Invariant and access control\<close>

definition permissions_inv :: "'a permissions_state_scheme \<Rightarrow> bool" where
  "permissions_inv s \<longleftrightarrow> sm_wf (Permissions s)
     \<and> (\<forall>who l. sm_get (Permissions s) who = Some l \<longrightarrow> l \<noteq> [] \<and> length l \<le> PERMISSION_LIST_MAX)"

text \<open>The permission a call asks of a signed origin.\<close>

fun required_permission :: "permissions_call \<Rightarrow> permission_level" where
  "required_permission (SetPermissions _ _) = UpdatePermissions"
| "required_permission (ClearPermissions _) = UpdatePermissions"
| "required_permission (AddProxyPermission _ p) = EditSpecificPermission p"

definition permitted :: "'a permissions_state_scheme \<Rightarrow> origin \<Rightarrow> permission_level \<Rightarrow> bool" where
  "permitted s orig p = (case orig of Root \<Rightarrow> True | Signed who \<Rightarrow> has_permissions s who p | Unsigned \<Rightarrow> False)"

lemma has_permissions_iff: "has_permissions s who p \<longleftrightarrow> p \<in> set (sm_get_or [] (Permissions s) who)"
  by (auto simp: has_permissions_def sm_get_or_def list_ex_iff split: option.split)

lemma ensure_root_or_permissioned_Ok:
  "ensure_root_or_permissioned s orig p = Ok r \<longleftrightarrow>
     permitted s orig p \<and> r = (case orig of Signed who \<Rightarrow> Some who | _ \<Rightarrow> None)"
  by (cases orig) (auto simp: permitted_def)

lemma ensure_root_or_permissioned_denied:
  "\<not> permitted s orig p \<Longrightarrow> \<exists>e. ensure_root_or_permissioned s orig p = Err (PermissionsError e)"
  by (cases orig) (auto simp: permitted_def)

lemma bind_permission_denied:
  "\<not> permitted s orig p \<Longrightarrow> \<exists>e. bind_res (ensure_root_or_permissioned s orig p) f = Err e"
  using ensure_root_or_permissioned_denied[of s orig p] by auto

lemma is_ok_ensure_root_or_permissioned:
  "is_ok (ensure_root_or_permissioned s orig p) \<longleftrightarrow> permitted s orig p"
  by (cases orig) (auto simp: permitted_def)

lemma ensure_root_or_permissioned_Panic [simp]: "ensure_root_or_permissioned s orig p \<noteq> Panic"
  by (cases orig) auto

lemma permissions_inv_write:
  "permissions_inv s \<Longrightarrow> l \<noteq> [] \<Longrightarrow> length l \<le> PERMISSION_LIST_MAX \<Longrightarrow>
   permissions_inv (deposit_event e (s\<lparr>Permissions := sm_insert who l (Permissions s)\<rparr>))"
  by (auto simp: permissions_inv_def deposit_event_def)

lemma permissions_inv_remove:
  assumes "permissions_inv s"
  shows "permissions_inv (deposit_event e (s\<lparr>Permissions := sm_remove who (Permissions s)\<rparr>))"
proof -
  have "l \<noteq> [] \<and> length l \<le> PERMISSION_LIST_MAX"
    if "sm_get (sm_remove who (Permissions s)) w = Some l" for w l
    using that assms unfolding permissions_inv_def by (cases "w = who") simp_all
  then show ?thesis using assms by (simp add: permissions_inv_def deposit_event_def)
qed

lemma permissions_dispatch_inv:
  assumes "permissions_inv s" "permissions_dispatch c orig s = Ok s'"
  shows "permissions_inv s'"
proof (cases c)
  case (SetPermissions who ps)
  then show ?thesis using assms
    by (auto simp: set_permissions_def Let_def res_Ok_iff split: if_splits intro!: permissions_inv_write)
next
  case (ClearPermissions who)
  then show ?thesis using assms
    by (auto simp: clear_permissions_def Let_def res_Ok_iff intro!: permissions_inv_remove)
next
  case (AddProxyPermission proxy p)
  then show ?thesis using assms
    by (auto simp: add_proxy_permission_def Let_def res_Ok_iff try_push_Some_iff
        split: if_splits intro!: permissions_inv_write)
qed

lemma permissions_dispatch_denied:
  assumes "\<not> permitted s orig (required_permission c)"
  shows "\<exists>e. permissions_dispatch c orig s = Err e"
  using ensure_root_or_permissioned_denied[OF assms]
  by (cases c) (auto simp: set_permissions_def clear_permissions_def add_proxy_permission_def)

lemma add_proxy_permission_Ok:
  "add_proxy_permission orig proxy p s = Ok s' \<longleftrightarrow>
     permitted s orig (EditSpecificPermission p)
     \<and> p \<notin> set (sm_get_or [] (Permissions s) proxy)
     \<and> length (sm_get_or [] (Permissions s) proxy) < PERMISSION_LIST_MAX
     \<and> s' = deposit_event (PermissionsSet proxy (sm_get_or [] (Permissions s) proxy @ [p]))
         (s\<lparr>Permissions := sm_insert proxy (sm_get_or [] (Permissions s) proxy @ [p]) (Permissions s)\<rparr>)"
  by (auto simp: add_proxy_permission_def Let_def res_Ok_iff ensure_root_or_permissioned_Ok
      try_push_Some_iff)

interpretation permissions: invariant_pallet permissions_dispatch permissions_inv
  by unfold_locales (rule permissions_dispatch_inv)

interpretation permissions: guarded_pallet permissions_dispatch
  "\<lambda>c orig s. permitted s orig (required_permission c)"
  by unfold_locales (rule permissions_dispatch_denied)

section \<open>Properties\<close>

text \<open>
  No privilege escalation: when a call of the permissions pallet succeeds and an account
  has a permission after it that it did not have before, then the origin is root, or a signed
  account that held \<open>UpdatePermissions\<close> or the right to edit exactly that permission.
\<close>

theorem no_privilege_escalation:
  assumes "permissions_dispatch c orig s = Ok s'"
    and "has_permissions s' who p" "\<not> has_permissions s who p"
  shows "permitted s orig UpdatePermissions \<or> permitted s orig (EditSpecificPermission p)"
proof (cases c)
  case (SetPermissions w ps)
  then show ?thesis using assms
    by (auto simp: set_permissions_def Let_def res_Ok_iff ensure_root_or_permissioned_Ok split: if_splits)
next
  case (ClearPermissions w)
  then show ?thesis using assms
    by (auto simp: clear_permissions_def Let_def res_Ok_iff ensure_root_or_permissioned_Ok)
next
  case (AddProxyPermission w q)
  then have *: "add_proxy_permission orig w q s = Ok s'" using assms(1) by simp
  then have "q = p"
    using assms(2,3) by (auto simp: add_proxy_permission_Ok has_permissions_iff deposit_event_def split: if_splits)
  then show ?thesis using * by (simp add: add_proxy_permission_Ok)
qed

theorem no_privilege_escalation_witness:
  "let s = \<lparr>block_number = 1, events = [],
        Permissions = [(''a'', [EditSpecificPermission (TablesPallet EditSchema)])]\<rparr>
   in permitted s (Signed ''a'') UpdatePermissions
      \<or> permitted s (Signed ''a'') (EditSpecificPermission (TablesPallet EditSchema))"
proof -
  define s where "s = \<lparr>block_number = 1, events = [],
    Permissions = [(''a'', [EditSpecificPermission (TablesPallet EditSchema)])]\<rparr>"
  define s' where "s' = deposit_event (PermissionsSet ''b'' [TablesPallet EditSchema])
    (s\<lparr>Permissions := sm_insert ''b'' [TablesPallet EditSchema] (Permissions s)\<rparr>)"
  have call: "permissions_dispatch (AddProxyPermission ''b'' (TablesPallet EditSchema)) (Signed ''a'') s = Ok s'"
    by (simp add: add_proxy_permission_Ok s_def s'_def permitted_def has_permissions_def sm_get_def
        sm_get_or_def PERMISSION_LIST_MAX_def)
  have "has_permissions s' ''b'' (TablesPallet EditSchema)"
    "\<not> has_permissions s ''b'' (TablesPallet EditSchema)"
    by (simp_all add: has_permissions_def s_def s'_def sm_get_def deposit_event_def sm_insert_def)
  from no_privilege_escalation[OF call this] show ?thesis by (simp add: s_def)
qed

text \<open>
  From a well-formed state, every sequence of extrinsics of the permissions pallet, from
  any origins and with any of them failing, leaves permission lists that are non-empty and
  have at most 32 entries; and origins that lack the permission of the calls they try change
  nothing at all.
\<close>

theorem permissions_sequences_safe:
  assumes "permissions_inv s"
  shows "permissions_inv (run_extrinsics permissions_dispatch xs s)
    \<and> ((\<forall>(c, orig) \<in> set xs. \<not> permitted s orig (required_permission c)) \<longrightarrow>
        run_extrinsics permissions_dispatch xs s = s)"
proof (intro conjI impI)
  show "permissions_inv (run_extrinsics permissions_dispatch xs s)"
    by (rule permissions.run_inv) (rule assms)
next
  assume "\<forall>(c, orig) \<in> set xs. \<not> permitted s orig (required_permission c)"
  then show "run_extrinsics permissions_dispatch xs s = s"
    by (intro permissions.run_denied) blast
qed

theorem permissions_sequences_safe_witness:
  "run_extrinsics permissions_dispatch
     [(SetPermissions ''b'' [UpdatePermissions], Signed ''b''), (ClearPermissions ''a'', Unsigned)]
     \<lparr>block_number = 1, events = [], Permissions = [(''a'', [UpdatePermissions])]\<rparr> =
   \<lparr>block_number = 1, events = [], Permissions = [(''a'', [UpdatePermissions])]\<rparr>"
proof -
  let ?s = "\<lparr>block_number = 1, events = [], Permissions = [(''a'', [UpdatePermissions])]\<rparr>"
  have inv: "permissions_inv ?s"
    by (simp add: permissions_inv_def sm_wf_def sm_get_def PERMISSION_LIST_MAX_def)
  show ?thesis
    using permissions_sequences_safe[OF inv, of "[(SetPermissions ''b'' [UpdatePermissions], Signed ''b''),
        (ClearPermissions ''a'', Unsigned)]"]
    by (simp add: permitted_def has_permissions_def sm_get_def)
qed

text \<open>
  \<open>add_proxy_permission\<close> on every branch: the caller's right is checked first, then a
  permission already held and a full list of 32 are refused, and otherwise the permission is
  appended to the list of that account only and announced by one event.
\<close>

theorem add_proxy_permission_correct:
  "add_proxy_permission orig proxy p s =
     (let l = sm_get_or [] (Permissions s) proxy in
      if \<not> permitted s orig (EditSpecificPermission p)
      then Err (PermissionsError (if orig = Unsigned then UnsignedTransaction else InsufficientPermissions))
      else if p \<in> set l then Err (PermissionsError PermissionAlreadyExists)
      else if PERMISSION_LIST_MAX \<le> length l then Err (PermissionsError PermissionListFull)
      else Ok (s\<lparr>Permissions := sm_insert proxy (l @ [p]) (Permissions s),
              events := events s @ [PermissionsSet proxy (l @ [p])]\<rparr>))"
  by (cases orig)
    (auto simp: add_proxy_permission_def permitted_def Let_def try_push_def deposit_event_def)

end
