(* ===== verification/Eth_Attestation.thy ===== *)
theory Eth_Attestation
  imports Sxt_Core_Types
begin

text \<open>
  The Ethereum signatures of \<open>sxt-core/src/attestation.rs\<close>: hashing a message with the
  Ethereum prefix, signing, verifying by key recovery, deriving an address from a public key
  and building the registration of an external address. The curve arithmetic and the Keccak
  hash belong to other crates and are the functions of \<open>crypto_ext\<close>; the type variables are
  the signature, verifying key and signing key types of \<open>k256\<close>.
\<close>

record ('g, 'k, 'p) crypto_ext =
  cx_from_scalars :: "bytes \<Rightarrow> bytes \<Rightarrow> 'g option"
  cx_recovery_id :: "u8 \<Rightarrow> u8 option"
  cx_recover_from_digest :: "bytes \<Rightarrow> 'g \<Rightarrow> u8 \<Rightarrow> 'k option"
  cx_from_sec1_bytes :: "bytes \<Rightarrow> 'k option"
  cx_uncompressed_point :: "'k \<Rightarrow> bytes"
  cx_keccak256 :: "bytes \<Rightarrow> bytes"
  cx_signing_key :: "bytes \<Rightarrow> 'p option"
  cx_sign_digest_recoverable :: "'p \<Rightarrow> bytes \<Rightarrow> ('g \<times> u8) option"
  cx_sig_r :: "'g \<Rightarrow> bytes"
  cx_sig_s :: "'g \<Rightarrow> bytes"

datatype verification_error =
    InvalidRecoveryIdError u8 | KeyRecoveryError | PublicKeyParsingError
  | SignatureRecoveryError | SignatureMismatchError

datatype signature_error = CreateSigningKeyError

datatype eth_attestation_error =
    VerificationFailed verification_error | SignatureFailed signature_error
  | PublicKeyError | InvalidPublicKey | ConversionError

definition hash_eth_msg :: "('g, 'k, 'p) crypto_ext \<Rightarrow> bytes \<Rightarrow> bytes" where
  "hash_eth_msg X message =
     (let prefix = CHR 0x19 # ''Ethereum Signed Message:'' @ [CHR 0x0A] @ show_nat (length message)
      in cx_keccak256 X (prefix @ message))"

definition verify_eth_signature ::
    "('g, 'k, 'p) crypto_ext \<Rightarrow> bytes \<Rightarrow> ethereum_signature \<Rightarrow> bytes \<Rightarrow> (unit, eth_attestation_error) result" where
  "verify_eth_signature X msg scalars pub_key =
     bind_res (ok_or (cx_from_scalars X (es_r scalars) (es_s scalars))
       (VerificationFailed SignatureRecoveryError)) (\<lambda>signature.
     bind_res (ok_or (cx_recovery_id X (es_v scalars))
       (VerificationFailed (InvalidRecoveryIdError (es_v scalars)))) (\<lambda>recovery_id.
     let digest = hash_eth_msg X msg in
     bind_res (ok_or (cx_recover_from_digest X digest signature recovery_id)
       (VerificationFailed KeyRecoveryError)) (\<lambda>recovered_pub_key.
     bind_res (ok_or (cx_from_sec1_bytes X pub_key)
       (VerificationFailed PublicKeyParsingError)) (\<lambda>expected_key.
     if recovered_pub_key = expected_key then Ok ()
     else Err (VerificationFailed SignatureMismatchError)))))"

definition slice_to_scalar :: "bytes \<Rightarrow> bytes option" where
  "slice_to_scalar bs = (if length bs = 32 then Some bs else None)"

text \<open>
  \<open>private_key.into()\<close> turns the slice into a 32-byte array and panics on any other length.
\<close>

definition sign_eth_message ::
    "('g, 'k, 'p) crypto_ext \<Rightarrow> bytes \<Rightarrow> bytes \<Rightarrow> (ethereum_signature, eth_attestation_error) result" where
  "sign_eth_message X private_key message =
     (if length private_key \<noteq> 32 then Panic else
     bind_res (ok_or (cx_signing_key X private_key) (SignatureFailed CreateSigningKeyError)) (\<lambda>signing_key.
     let digest = hash_eth_msg X message in
     bind_res (unwrap_opt (cx_sign_digest_recoverable X signing_key digest)) (\<lambda>(signature, recovery_id).
     bind_res (unwrap_opt (slice_to_scalar (cx_sig_r X signature))) (\<lambda>r.
     bind_res (unwrap_opt (slice_to_scalar (cx_sig_s X signature))) (\<lambda>s.
     Ok (ethereum_signature_new r s (Some recovery_id)))))))"

definition uncompressed_public_key_to_address ::
    "('g, 'k, 'p) crypto_ext \<Rightarrow> bytes \<Rightarrow> (bytes, eth_attestation_error) result" where
  "uncompressed_public_key_to_address X public_key =
     bind_res (ok_or (cx_from_sec1_bytes X public_key) InvalidPublicKey) (\<lambda>verifying_key.
     let verifying_key_bytes = cx_uncompressed_point X verifying_key in
     bind_res (slice_from 1 verifying_key_bytes) (\<lambda>public_key.
     let eth_address = cx_keccak256 X public_key in
     bind_res (slice_from 12 eth_address) (\<lambda>eth_address.
     bounded_try_from 20 eth_address ConversionError)))"

definition create_ethereum_attestation_registration ::
    "('g, 'k, 'p) crypto_ext \<Rightarrow> bytes \<Rightarrow> bytes \<Rightarrow> bytes
     \<Rightarrow> (register_external_address, eth_attestation_error) result" where
  "create_ethereum_attestation_registration X account_id private_key public_key =
     bind_res (sign_eth_message X private_key account_id) (\<lambda>signature.
     bind_res (uncompressed_public_key_to_address X public_key) (\<lambda>address20.
     bind_res (if length public_key = 33 then Ok public_key else Err PublicKeyError) (\<lambda>public_key.
     Ok (EthereumAddress signature public_key address20))))"

section \<open>Facts\<close>

text \<open>
  What the curve crate documents of recoverable signatures: the scalars of a signature
  rebuild it, its recovery id is valid, and recovery gives the signer's verifying key.
  \<open>pk\<close> maps a signing key to its verifying key.
\<close>

definition ecdsa_recoverable :: "('g, 'k, 'p) crypto_ext \<Rightarrow> ('p \<Rightarrow> 'k) \<Rightarrow> bool" where
  "ecdsa_recoverable X pk \<longleftrightarrow>
     (\<forall>sk d g v. cx_sign_digest_recoverable X sk d = Some (g, v) \<longrightarrow>
        cx_from_scalars X (cx_sig_r X g) (cx_sig_s X g) = Some g
        \<and> cx_recovery_id X v = Some v \<and> cx_recover_from_digest X d g v = Some (pk sk))"

lemma verify_eth_signature_Ok:
  "verify_eth_signature X msg sig pub_key = Ok () \<longleftrightarrow>
     (\<exists>g v k. cx_from_scalars X (es_r sig) (es_s sig) = Some g \<and> cx_recovery_id X (es_v sig) = Some v
        \<and> cx_recover_from_digest X (hash_eth_msg X msg) g v = Some k \<and> cx_from_sec1_bytes X pub_key = Some k)"
  by (auto simp: verify_eth_signature_def Let_def res_Ok_iff)

lemma verify_eth_signature_Panic [simp]: "verify_eth_signature X msg sig pub_key \<noteq> Panic"
  by (auto simp: verify_eth_signature_def Let_def ok_or_def split: option.split)

lemma sign_verify:
  assumes "ecdsa_recoverable X pk" "sign_eth_message X private_key msg = Ok sig"
    and "cx_signing_key X private_key = Some sk" "cx_from_sec1_bytes X pub_key = Some (pk sk)"
  shows "verify_eth_signature X msg sig pub_key = Ok ()"
  using assms unfolding verify_eth_signature_Ok ecdsa_recoverable_def
  by (auto simp: sign_eth_message_def Let_def res_Ok_iff slice_to_scalar_def ethereum_signature_new_def
      split: if_splits)

lemma registration_parts:
  "create_ethereum_attestation_registration X account_id private_key public_key = Ok r \<longleftrightarrow>
     (\<exists>sig addr. sign_eth_message X private_key account_id = Ok sig
        \<and> uncompressed_public_key_to_address X public_key = Ok addr
        \<and> length public_key = 33 \<and> r = EthereumAddress sig public_key addr)"
  by (auto simp: create_ethereum_attestation_registration_def res_Ok_iff)

text \<open>A toy instance: a signature is the signing key, recovery tags it as a public key.\<close>

definition demo_crypto :: "(bytes, bytes, bytes) crypto_ext" where
  "demo_crypto =
     \<lparr>cx_from_scalars = (\<lambda>r s. Some r),
      cx_recovery_id = (\<lambda>v. if v < 4 then Some v else None),
      cx_recover_from_digest = (\<lambda>d g v. Some (CHR 0x02 # g)),
      cx_from_sec1_bytes = (\<lambda>b. if length b = 33 then Some b else None),
      cx_uncompressed_point = (\<lambda>k. k @ k),
      cx_keccak256 = (\<lambda>m. replicate 32 (CHR 0x00)),
      cx_signing_key = Some,
      cx_sign_digest_recoverable = (\<lambda>sk d. Some (sk, 0)),
      cx_sig_r = (\<lambda>g. g),
      cx_sig_s = (\<lambda>g. g)\<rparr>"

definition demo_private_key :: bytes where
  "demo_private_key = replicate 32 (CHR ''k'')"

lemma demo_crypto_recoverable: "ecdsa_recoverable demo_crypto (\<lambda>sk. CHR 0x02 # sk)"
  by (simp add: ecdsa_recoverable_def demo_crypto_def)

end
