(* ===== verification/Pallet_Keystore.thy ===== *)
theory Pallet_Keystore
  imports Pallet_Permissions Eth_Attestation
begin

text \<open>
  \<open>pallets/keystore\<close>: the Ethereum keys of accounts. Root registers a key on proof of
  ownership, a signature over the account id, and removes it; \<open>verify_ethereum_msg\<close> is the
  check the attestation pallet relies on.
\<close>

record keystore_state = permissions_state +
  Keys :: "(account_id, user_keystore) storage_map"

definition add_ethereum_key ::
    "account_id \<Rightarrow> ethereum_key \<Rightarrow> 'a keystore_state_scheme \<Rightarrow> 'a keystore_state_scheme dispatch_result" where
  "add_ethereum_key who key s =
     (case sm_get (Keys s) who of
        None \<Rightarrow> Ok (s\<lparr>Keys := sm_insert who \<lparr>us_eth_key = Some key\<rparr> (Keys s)\<rparr>)
      | Some user_keystore \<Rightarrow>
          bind_res (ensure (us_eth_key user_keystore = None) (KeystoreError EthereumKeyAlreadyRegistered)) (\<lambda>_.
          let new_user_keystore = with_eth_key user_keystore (Some key)
          in Ok (s\<lparr>Keys := sm_insert who new_user_keystore (Keys s)\<rparr>)))"

definition remove_ethereum_key ::
    "account_id \<Rightarrow> 'a keystore_state_scheme \<Rightarrow> 'a keystore_state_scheme dispatch_result" where
  "remove_ethereum_key who s =
     bind_res (ok_or (sm_get (Keys s) who) (KeystoreError NoKeysRegistered)) (\<lambda>user_keystore.
     bind_res (ensure (us_eth_key user_keystore \<noteq> None) (KeystoreError NoEthereumKeyRegistered)) (\<lambda>_.
     let user_keystore = user_keystore\<lparr>us_eth_key := None\<rparr>
     in Ok (s\<lparr>Keys := sm_insert who user_keystore (Keys s)\<rparr>)))"

definition register_key ::
    "('g, 'k, 'p) crypto_ext \<Rightarrow> origin \<Rightarrow> account_id \<Rightarrow> register_external_address
     \<Rightarrow> 'a keystore_state_scheme \<Rightarrow> 'a keystore_state_scheme dispatch_result" where
  "register_key X orig who registration s =
     bind_res (ensure_root orig) (\<lambda>_.
     case registration of EthereumAddress signature proposed_pub_key address20 \<Rightarrow>
       let msg = who in
       bind_res (map_err (\<lambda>_. KeystoreError KeystoreVerificationError)
         (verify_eth_signature X msg signature proposed_pub_key)) (\<lambda>_.
       let new_key = \<lparr>ek_pub_key = proposed_pub_key, ek_address20 = address20\<rparr> in
       bind_res (add_ethereum_key who new_key s) (\<lambda>s.
       Ok (deposit_event (EthereumKeyRegistered who new_key) s))))"

definition unregister_key ::
    "origin \<Rightarrow> account_id \<Rightarrow> unregister_external_address \<Rightarrow> 'a keystore_state_scheme
     \<Rightarrow> 'a keystore_state_scheme dispatch_result" where
  "unregister_key orig who key s =
     bind_res (ensure_root orig) (\<lambda>_.
     case key of UnregisterEthereumAddress \<Rightarrow>
       bind_res (remove_ethereum_key who s) (\<lambda>s.
       Ok (deposit_event (EthereumKeyRemoved who) s)))"

definition verify_ethereum_msg ::
    "('g, 'k, 'p) crypto_ext \<Rightarrow> 'a keystore_state_scheme \<Rightarrow> account_id \<Rightarrow> bytes \<Rightarrow> ethereum_key
     \<Rightarrow> ethereum_signature \<Rightarrow> unit dispatch_result" where
  "verify_ethereum_msg X s who msg key signature =
     bind_res (ok_or (sm_get (Keys s) who) (KeystoreError KeystoreKeyNotFound)) (\<lambda>keystore.
     bind_res (ok_or (us_eth_key keystore) (KeystoreError KeystoreKeyNotFound)) (\<lambda>stored_key.
     bind_res (ensure (ek_pub_key stored_key = ek_pub_key key) (KeystoreError KeyMismatch)) (\<lambda>_.
     map_err (\<lambda>_. KeystoreError SignatureVerificationFailed)
       (verify_eth_signature X msg signature (ek_pub_key key)))))"

definition verify_ethereum_key ::
    "('g, 'k, 'p) crypto_ext \<Rightarrow> 'a keystore_state_scheme \<Rightarrow> account_id \<Rightarrow> ethereum_key
     \<Rightarrow> ethereum_signature \<Rightarrow> unit dispatch_result" where
  "verify_ethereum_key X s who key signature = verify_ethereum_msg X s who who key signature"

datatype keystore_call =
    RegisterKey account_id register_external_address
  | UnregisterKey account_id unregister_external_address

fun keystore_dispatch ::
    "('g, 'k, 'p) crypto_ext \<Rightarrow> keystore_call \<Rightarrow> origin \<Rightarrow> 'a keystore_state_scheme
     \<Rightarrow> 'a keystore_state_scheme dispatch_result" where
  "keystore_dispatch X (RegisterKey who r) orig s = register_key X orig who r s"
| "keystore_dispatch X (UnregisterKey who r) orig s = unregister_key orig who r s"

section \<open>Invariant\<close>

definition registered_key :: "'a keystore_state_scheme \<Rightarrow> account_id \<Rightarrow> ethereum_key option" where
  "registered_key s who = Option.bind (sm_get (Keys s) who) us_eth_key"

text \<open>
  Every key in the store was proved: some signature over the account id verifies against it.
\<close>

definition keystore_inv :: "('g, 'k, 'p) crypto_ext \<Rightarrow> 'a keystore_state_scheme \<Rightarrow> bool" where
  "keystore_inv X s \<longleftrightarrow> sm_wf (Keys s) \<and>
     (\<forall>who key. registered_key s who = Some key \<longrightarrow>
        (\<exists>sig. verify_eth_signature X who sig (ek_pub_key key) = Ok ()))"

lemma registered_key_write:
  "registered_key (s\<lparr>Keys := sm_insert who ks (Keys s)\<rparr>) w =
     (if w = who then us_eth_key ks else registered_key s w)"
  by (simp add: registered_key_def)

lemma registered_key_event [simp]: "registered_key (deposit_event e s) who = registered_key s who"
  by (simp add: registered_key_def deposit_event_def)

lemma Keys_event [simp]: "Keys (deposit_event e s) = Keys s"
  by (simp add: deposit_event_def)

lemma user_keystore_update [simp]: "ks\<lparr>us_eth_key := v\<rparr> = \<lparr>us_eth_key = v\<rparr>" for ks :: user_keystore
  by (cases ks) simp

lemma add_ethereum_key_correct:
  "add_ethereum_key who key s =
     (if registered_key s who = None
      then Ok (s\<lparr>Keys := sm_insert who \<lparr>us_eth_key = Some key\<rparr> (Keys s)\<rparr>)
      else Err (KeystoreError EthereumKeyAlreadyRegistered))"
  by (cases "sm_get (Keys s) who")
    (auto simp: add_ethereum_key_def registered_key_def with_eth_key_def Let_def ensure_def)

lemma register_key_Ok:
  "register_key X orig who (EthereumAddress sig pub addr) s = Ok s' \<longleftrightarrow>
     orig = Root \<and> verify_eth_signature X who sig pub = Ok () \<and> registered_key s who = None
     \<and> s' = deposit_event (EthereumKeyRegistered who \<lparr>ek_pub_key = pub, ek_address20 = addr\<rparr>)
         (s\<lparr>Keys := sm_insert who \<lparr>us_eth_key = Some \<lparr>ek_pub_key = pub, ek_address20 = addr\<rparr>\<rparr> (Keys s)\<rparr>)"
  by (auto simp: register_key_def Let_def res_Ok_iff ensure_root_Ok_iff add_ethereum_key_correct
      split: if_splits)

lemma unregister_key_Ok:
  "unregister_key orig who UnregisterEthereumAddress s = Ok s' \<Longrightarrow>
     orig = Root \<and> registered_key s who \<noteq> None
     \<and> s' = deposit_event (EthereumKeyRemoved who)
         (s\<lparr>Keys := sm_insert who \<lparr>us_eth_key = None\<rparr> (Keys s)\<rparr>)"
  by (auto simp: unregister_key_def remove_ethereum_key_def Let_def res_Ok_iff ensure_root_Ok_iff
      registered_key_def)

lemma keystore_dispatch_inv:
  assumes "keystore_inv X s" "keystore_dispatch X c orig s = Ok s'"
  shows "keystore_inv X s'"
proof (cases c)
  case (RegisterKey who r)
  obtain sig pub addr where r: "r = EthereumAddress sig pub addr" by (cases r)
  with RegisterKey assms(2) have v: "verify_eth_signature X who sig pub = Ok ()"
    and s': "s' = deposit_event (EthereumKeyRegistered who \<lparr>ek_pub_key = pub, ek_address20 = addr\<rparr>)
      (s\<lparr>Keys := sm_insert who \<lparr>us_eth_key = Some \<lparr>ek_pub_key = pub, ek_address20 = addr\<rparr>\<rparr> (Keys s)\<rparr>)"
    by (simp_all add: register_key_Ok)
  then show ?thesis using assms(1) by (auto simp: keystore_inv_def registered_key_write)
next
  case (UnregisterKey who r)
  then have "s' = deposit_event (EthereumKeyRemoved who)
      (s\<lparr>Keys := sm_insert who \<lparr>us_eth_key = None\<rparr> (Keys s)\<rparr>)"
    using assms(2) by (cases r) (auto dest: unregister_key_Ok)
  then show ?thesis using assms(1) by (auto simp: keystore_inv_def registered_key_write)
qed

lemma keystore_dispatch_denied: "orig \<noteq> Root \<Longrightarrow> \<exists>e. keystore_dispatch X c orig s = Err e"
  by (cases c; cases orig) (auto simp: register_key_def unregister_key_def)

interpretation keystore: invariant_pallet "keystore_dispatch X" "keystore_inv X"
  by unfold_locales (rule keystore_dispatch_inv)

interpretation keystore: guarded_pallet "keystore_dispatch X" "\<lambda>c orig s. orig = Root"
  by unfold_locales (rule keystore_dispatch_denied)

lemma verify_ethereum_msg_Ok:
  "verify_ethereum_msg X s who msg key sig = Ok () \<longleftrightarrow>
     (\<exists>stored. registered_key s who = Some stored \<and> ek_pub_key stored = ek_pub_key key)
     \<and> verify_eth_signature X msg sig (ek_pub_key key) = Ok ()"
  by (cases "sm_get (Keys s) who")
    (auto simp: verify_ethereum_msg_def registered_key_def res_Ok_iff)

lemma verify_ethereum_msg_Panic [simp]: "verify_ethereum_msg X s who msg key sig \<noteq> Panic"
proof (cases "verify_eth_signature X msg sig (ek_pub_key key)")
  case (Ok u)
  then show ?thesis
    by (auto simp: verify_ethereum_msg_def bind_res_def ok_or_def ensure_def split: option.split)
next
  case (Err e)
  then show ?thesis
    by (auto simp: verify_ethereum_msg_def bind_res_def ok_or_def ensure_def split: option.split)
qed simp

section \<open>Properties\<close>

text \<open>
  C20. Whatever extrinsics the keystore pallet executes, every Ethereum key it holds for an
  account was proved to belong to it: some signature over the account id verifies against
  that key. Origins other than root change nothing.
\<close>

theorem keystore_keys_proved:
  assumes "keystore_inv X s"
  shows "keystore_inv X (run_extrinsics (keystore_dispatch X) xs s)
    \<and> (Root \<notin> snd ` set xs \<longrightarrow> run_extrinsics (keystore_dispatch X) xs s = s)"
proof (intro conjI impI)
  show "keystore_inv X (run_extrinsics (keystore_dispatch X) xs s)"
    by (rule keystore.run_inv) (rule assms)
next
  assume "Root \<notin> snd ` set xs"
  then show "run_extrinsics (keystore_dispatch X) xs s = s"
    by (intro keystore.run_denied) force
qed

theorem keystore_keys_proved_witness:
  "keystore_inv demo_crypto (run_extrinsics (keystore_dispatch demo_crypto)
     [(RegisterKey ''a'' (EthereumAddress \<lparr>es_r = demo_private_key, es_s = [], es_v = 0\<rparr>
         (CHR 0x02 # demo_private_key) ''addr''), Root)]
     \<lparr>block_number = 1, events = [], Permissions = [], Keys = []\<rparr>)"
proof -
  have "keystore_inv demo_crypto \<lparr>block_number = 1, events = [], Permissions = [], Keys = []\<rparr>"
    by (simp add: keystore_inv_def registered_key_def)
  from keystore_keys_proved[OF this] show ?thesis by blast
qed

text \<open>
  C28. The client side and the chain agree: a registration built by
  \<open>create_ethereum_attestation_registration\<close> with a matching key pair is accepted by
  \<open>register_key\<close> for an account without a key, which then holds exactly that public key; a
  message signed with the same private key passes \<open>verify_ethereum_msg\<close> afterwards.
\<close>

theorem registration_accepted:
  assumes "ecdsa_recoverable X pk"
    and "create_ethereum_attestation_registration X who priv pub = Ok r"
    and "cx_signing_key X priv = Some sk" "cx_from_sec1_bytes X pub = Some (pk sk)"
    and "registered_key s who = None"
    and "sign_eth_message X priv msg = Ok sig"
  shows "\<exists>s' addr. register_key X Root who r s = Ok s'
    \<and> registered_key s' who = Some \<lparr>ek_pub_key = pub, ek_address20 = addr\<rparr>
    \<and> verify_ethereum_msg X s' who msg \<lparr>ek_pub_key = pub, ek_address20 = addr\<rparr> sig = Ok ()"
proof -
  obtain rsig addr where sg: "sign_eth_message X priv who = Ok rsig" and r: "r = EthereumAddress rsig pub addr"
    using assms(2) by (auto simp: registration_parts)
  note valid = sign_verify[OF assms(1) _ assms(3,4)]
  have "verify_eth_signature X who rsig pub = Ok ()" "verify_eth_signature X msg sig pub = Ok ()"
    by (rule valid[OF sg], rule valid[OF assms(6)])
  then show ?thesis
    using assms(5) by (auto simp: r register_key_Ok registered_key_write verify_ethereum_msg_Ok intro!: exI)
qed

theorem registration_accepted_witness:
  "\<exists>r s'. create_ethereum_attestation_registration demo_crypto ''acc'' demo_private_key
       (CHR 0x02 # demo_private_key) = Ok r
     \<and> register_key demo_crypto Root ''acc'' r
       \<lparr>block_number = 1, events = [], Permissions = [], Keys = []\<rparr> = Ok s'"
proof -
  have len: "length demo_private_key = 32" by (simp add: demo_private_key_def)
  let ?sig = "\<lparr>es_r = demo_private_key, es_s = demo_private_key, es_v = 0\<rparr>"
  have sign: "sign_eth_message demo_crypto demo_private_key m = Ok ?sig" for m
    by (simp add: sign_eth_message_def len demo_crypto_def slice_to_scalar_def ethereum_signature_new_def)
  have addr: "uncompressed_public_key_to_address demo_crypto (CHR 0x02 # demo_private_key) =
      Ok (replicate 20 (CHR 0x00))"
    by (simp add: uncompressed_public_key_to_address_def len demo_crypto_def slice_from_def
        bounded_try_from_def)
  have reg: "create_ethereum_attestation_registration demo_crypto ''acc'' demo_private_key
      (CHR 0x02 # demo_private_key) =
      Ok (EthereumAddress ?sig (CHR 0x02 # demo_private_key) (replicate 20 (CHR 0x00)))"
    by (simp add: create_ethereum_attestation_registration_def sign addr len)
  have k: "cx_signing_key demo_crypto demo_private_key = Some demo_private_key"
    "cx_from_sec1_bytes demo_crypto (CHR 0x02 # demo_private_key) = Some (CHR 0x02 # demo_private_key)"
    by (simp_all add: demo_crypto_def len)
  have none: "registered_key \<lparr>block_number = 1, events = [], Permissions = [], Keys = []\<rparr> ''acc'' = None"
    by (simp add: registered_key_def)
  from registration_accepted[OF demo_crypto_recoverable reg k none sign] show ?thesis
    using reg by blast
qed

end
