(* ===== verification/Pallet_Attestation.thy ===== *)
theory Pallet_Attestation
  imports Pallet_Keystore
begin

text \<open>
  \<open>pallets/attestation\<close>: the attestations recorded per block and the last block forwarded.
\<close>

record attestation_state = keystore_state +
  AttestationKeys :: "(account_id \<times> ethereum_key) list"
  Attestations :: "(u32, attestation list) storage_map"
  LastForwardedBlock :: "u32 option"

definition MAX_ATTESTATIONS :: nat where
  "MAX_ATTESTATIONS = 64"

definition must_not_have_submitted_attestation ::
    "attestation list \<Rightarrow> bytes \<Rightarrow> unit dispatch_result" where
  "must_not_have_submitted_attestation attestations_for_block attestor_key =
     ensure (\<not> list_ex (\<lambda>x. at_proposed_pub_key x = attestor_key) attestations_for_block)
       (AttestationError AttestationAlreadyRecordedError)"

text \<open>
  The match on the attestation binds a second \<open>block_number\<close>, the attestation's own; it is
  the one the message, the lookup, the insertion and the event use.
\<close>

definition attest_block ::
    "('g, 'k, 'p) crypto_ext \<Rightarrow> origin \<Rightarrow> u32 \<Rightarrow> attestation \<Rightarrow> 'a attestation_state_scheme
     \<Rightarrow> 'a attestation_state_scheme dispatch_result" where
  "attest_block X orig outer_block_number att s =
     bind_res (ensure_signed orig) (\<lambda>who.
     let current_block = block_number s in
     bind_res (ensure (current_block > outer_block_number) (AttestationError CannotAttestFutureBlock)) (\<lambda>_.
     bind_res (ensure (current_block \<noteq> outer_block_number) (AttestationError CannotAttestCurrentBlock)) (\<lambda>_.
     bind_res (ensure_root_or_permissioned s orig (AttestationPallet AttestBlock)) (\<lambda>_.
     let attestor_pub_key = at_proposed_pub_key att;
         proposed_key = \<lparr>ek_pub_key = attestor_pub_key, ek_address20 = at_address20 att\<rparr>;
         msg = create_attestation_message (at_state_root att) (ucast (at_block_number att)) in
     bind_res (verify_ethereum_msg X s who msg proposed_key (at_signature att)) (\<lambda>_.
     let attestations_for_block = sm_get_or [] (Attestations s) (at_block_number att) in
     bind_res (must_not_have_submitted_attestation attestations_for_block attestor_pub_key) (\<lambda>_.
     bind_res (ok_or (try_push MAX_ATTESTATIONS att attestations_for_block)
       (AttestationError MaxAttestationsForBlockError)) (\<lambda>attestations_for_block.
     let s = s\<lparr>Attestations := sm_insert (at_block_number att) attestations_for_block (Attestations s)\<rparr>
     in Ok (deposit_event (BlockAttested (at_block_number att) att who) s))))))))"

definition mark_block_forwarded ::
    "origin \<Rightarrow> u32 \<Rightarrow> 'a attestation_state_scheme \<Rightarrow> 'a attestation_state_scheme dispatch_result" where
  "mark_block_forwarded orig b s =
     bind_res (ensure_root_or_permissioned s orig (AttestationPallet ForwardAttestedBlock)) (\<lambda>_.
     Ok (s\<lparr>LastForwardedBlock := Some b\<rparr>))"

datatype attestation_call = AttestBlockCall u32 attestation | MarkBlockForwarded u32

fun attestation_dispatch ::
    "('g, 'k, 'p) crypto_ext \<Rightarrow> attestation_call \<Rightarrow> origin \<Rightarrow> 'a attestation_state_scheme
     \<Rightarrow> 'a attestation_state_scheme dispatch_result" where
  "attestation_dispatch X (AttestBlockCall b att) orig s = attest_block X orig b att s"
| "attestation_dispatch X (MarkBlockForwarded b) orig s = mark_block_forwarded orig b s"

section \<open>Invariant\<close>

definition attestation_valid :: "('g, 'k, 'p) crypto_ext \<Rightarrow> u32 \<Rightarrow> attestation \<Rightarrow> bool" where
  "attestation_valid X b att \<longleftrightarrow> at_block_number att = b \<and>
     verify_eth_signature X (create_attestation_message (at_state_root att) (ucast b))
       (at_signature att) (at_proposed_pub_key att) = Ok ()"

definition block_attestations_ok :: "('g, 'k, 'p) crypto_ext \<Rightarrow> u32 \<Rightarrow> attestation list \<Rightarrow> bool" where
  "block_attestations_ok X b l \<longleftrightarrow> length l \<le> MAX_ATTESTATIONS \<and> distinct (map at_proposed_pub_key l)
     \<and> list_all (attestation_valid X b) l"

definition attestation_inv :: "('g, 'k, 'p) crypto_ext \<Rightarrow> 'a attestation_state_scheme \<Rightarrow> bool" where
  "attestation_inv X s \<longleftrightarrow> sm_wf (Attestations s)
     \<and> (\<forall>b. block_attestations_ok X b (sm_get_or [] (Attestations s) b))"

lemma attest_block_Ok:
  "attest_block X orig b att s = Ok s' \<longleftrightarrow>
     (\<exists>who. orig = Signed who \<and> b < block_number s
        \<and> has_permissions s who (AttestationPallet AttestBlock)
        \<and> (\<exists>stored. registered_key s who = Some stored \<and> ek_pub_key stored = at_proposed_pub_key att)
        \<and> attestation_valid X (at_block_number att) att
        \<and> at_proposed_pub_key att \<notin>
            at_proposed_pub_key ` set (sm_get_or [] (Attestations s) (at_block_number att))
        \<and> length (sm_get_or [] (Attestations s) (at_block_number att)) < MAX_ATTESTATIONS
        \<and> s' = deposit_event (BlockAttested (at_block_number att) att who)
            (s\<lparr>Attestations := sm_insert (at_block_number att)
               (sm_get_or [] (Attestations s) (at_block_number att) @ [att]) (Attestations s)\<rparr>))"
  by (cases orig)
    (auto simp: attest_block_def Let_def res_Ok_iff ensure_signed_Ok_iff ensure_root_or_permissioned_Ok
      permitted_def must_not_have_submitted_attestation_def verify_ethereum_msg_Ok try_push_Some_iff
      attestation_valid_def list_ex_iff image_iff)

lemma attest_block_inv:
  assumes "attestation_inv X s" "attest_block X orig b att s = Ok s'"
  shows "attestation_inv X s'"
proof -
  let ?l = "sm_get_or [] (Attestations s) (at_block_number att)"
  have ok: "block_attestations_ok X (at_block_number att) ?l"
    using assms(1) by (simp add: attestation_inv_def)
  from assms(2) have "block_attestations_ok X (at_block_number att) (?l @ [att])"
    using ok by (auto simp: attest_block_Ok block_attestations_ok_def)
  then show ?thesis
    using assms by (auto simp: attest_block_Ok attestation_inv_def deposit_event_def)
qed

lemma attestation_dispatch_inv:
  "attestation_inv X s \<Longrightarrow> attestation_dispatch X c orig s = Ok s' \<Longrightarrow> attestation_inv X s'"
proof (cases c)
  case (AttestBlockCall b att)
  then show "attestation_inv X s \<Longrightarrow> attestation_dispatch X c orig s = Ok s' \<Longrightarrow> attestation_inv X s'"
    using attest_block_inv by (metis attestation_dispatch.simps(1))
next
  case (MarkBlockForwarded b)
  then show "attestation_inv X s \<Longrightarrow> attestation_dispatch X c orig s = Ok s' \<Longrightarrow> attestation_inv X s'"
    by (auto simp: mark_block_forwarded_def res_Ok_iff attestation_inv_def)
qed

fun attestation_permission :: "attestation_call \<Rightarrow> permission_level" where
  "attestation_permission (AttestBlockCall _ _) = AttestationPallet AttestBlock"
| "attestation_permission (MarkBlockForwarded _) = AttestationPallet ForwardAttestedBlock"

lemma attestation_dispatch_denied:
  assumes "\<not> permitted s orig (attestation_permission c)"
  shows "\<exists>e. attestation_dispatch X c orig s = Err e"
proof -
  obtain e where "ensure_root_or_permissioned s orig (attestation_permission c) = Err (PermissionsError e)"
    using ensure_root_or_permissioned_denied[OF assms] by blast
  then show ?thesis
    by (cases c; cases orig) (auto simp: attest_block_def mark_block_forwarded_def Let_def ensure_def)
qed

interpretation attestation: invariant_pallet "attestation_dispatch X" "attestation_inv X"
  by unfold_locales (rule attestation_dispatch_inv)

interpretation attestation: guarded_pallet "attestation_dispatch X"
  "\<lambda>c orig s. permitted s orig (attestation_permission c)"
  by unfold_locales (rule attestation_dispatch_denied)

section \<open>Properties\<close>

text \<open>
  C7. What the chain records as attestations is sound: starting from a state where this holds,
  after any sequence of extrinsics every block has at most 64 attestations, no two of them by
  the same public key, each filed under its own block number and each carrying a signature of
  its state root and block number that verifies against its public key. Origins without the
  required permission change nothing.
\<close>

theorem attestations_sound:
  assumes "attestation_inv X s"
  shows "attestation_inv X (run_extrinsics (attestation_dispatch X) xs s)
    \<and> ((\<forall>(c, orig) \<in> set xs. \<not> permitted s orig (attestation_permission c)) \<longrightarrow>
        run_extrinsics (attestation_dispatch X) xs s = s)"
proof (intro conjI impI)
  show "attestation_inv X (run_extrinsics (attestation_dispatch X) xs s)"
    by (rule attestation.run_inv) (rule assms)
next
  assume "\<forall>(c, orig) \<in> set xs. \<not> permitted s orig (attestation_permission c)"
  then show "run_extrinsics (attestation_dispatch X) xs s = s"
    by (intro attestation.run_denied) blast
qed

definition demo_attestation :: attestation where
  "demo_attestation =
     \<lparr>at_signature = \<lparr>es_r = demo_private_key, es_s = [], es_v = 0\<rparr>,
      at_proposed_pub_key = CHR 0x02 # demo_private_key, at_address20 = [],
      at_state_root = ''root'', at_block_number = 900, at_block_hash = ''hash''\<rparr>"

definition demo_attestation_state :: attestation_state where
  "demo_attestation_state =
     \<lparr>block_number = 10, events = [],
      Permissions = [(''v'', [AttestationPallet AttestBlock])],
      Keys = [(''v'', \<lparr>us_eth_key = Some \<lparr>ek_pub_key = CHR 0x02 # demo_private_key, ek_address20 = []\<rparr>\<rparr>)],
      AttestationKeys = [], Attestations = [], LastForwardedBlock = None\<rparr>"

theorem attestations_sound_witness:
  "attestation_inv demo_crypto (run_extrinsics (attestation_dispatch demo_crypto)
     [(AttestBlockCall 9 demo_attestation, Signed ''v'')] demo_attestation_state)"
proof -
  have "attestation_inv demo_crypto demo_attestation_state"
    by (simp add: attestation_inv_def demo_attestation_state_def block_attestations_ok_def sm_get_or_def)
  from attestations_sound[OF this] show ?thesis by blast
qed

text \<open>
  The block number argument of \<open>attest_block\<close> only gates the call: all arguments below the
  current block give the same result, because the block that is verified, stored and announced
  is the one inside the attestation, which is compared with nothing. The error
  \<open>CannotAttestCurrentBlock\<close> is never returned.
\<close>

theorem attest_block_number_only_gates:
  assumes "b < block_number s" "b' < block_number s"
  shows "attest_block X orig b att s = attest_block X orig b' att s
    \<and> attest_block X orig b'' att s \<noteq> Err (AttestationError CannotAttestCurrentBlock)"
proof
  have "block_number s \<noteq> b" "block_number s \<noteq> b'" using assms by auto
  then show "attest_block X orig b att s = attest_block X orig b' att s"
    using assms by (simp add: attest_block_def Let_def)
  have "verify_ethereum_msg X s who m k g \<noteq> Err (AttestationError CannotAttestCurrentBlock)" for who m k g
    by (auto simp: verify_ethereum_msg_def bind_res_def ok_or_def ensure_def map_err_def
        split: option.split result.split)
  then show "attest_block X orig b'' att s \<noteq> Err (AttestationError CannotAttestCurrentBlock)"
    by (cases orig) (auto simp: attest_block_def Let_def bind_res_def ensure_def ok_or_def
        must_not_have_submitted_attestation_def split: result.split option.split)
qed

theorem attest_block_number_only_gates_witness:
  "attest_block demo_crypto (Signed ''v'') 9 demo_attestation demo_attestation_state =
     attest_block demo_crypto (Signed ''v'') 1 demo_attestation demo_attestation_state
   \<and> is_ok (attest_block demo_crypto (Signed ''v'') 1 demo_attestation demo_attestation_state)
   \<and> at_block_number demo_attestation > block_number demo_attestation_state"
proof (intro conjI)
  show "attest_block demo_crypto (Signed ''v'') 9 demo_attestation demo_attestation_state =
      attest_block demo_crypto (Signed ''v'') 1 demo_attestation demo_attestation_state"
    using attest_block_number_only_gates[of 9 demo_attestation_state 1 demo_crypto "Signed ''v''"
        demo_attestation 1]
    by (simp add: demo_attestation_state_def)
  have "verify_eth_signature demo_crypto m \<lparr>es_r = demo_private_key, es_s = [], es_v = 0\<rparr>
      (CHR 0x02 # demo_private_key) = Ok ()" for m
    by (simp add: verify_eth_signature_def demo_crypto_def demo_private_key_def)
  then show "is_ok (attest_block demo_crypto (Signed ''v'') 1 demo_attestation demo_attestation_state)"
    unfolding is_ok_iff attest_block_Ok
    by (simp add: demo_attestation_def demo_attestation_state_def has_permissions_def sm_get_def
        registered_key_def attestation_valid_def sm_get_or_def MAX_ATTESTATIONS_def)
qed (simp add: demo_attestation_def demo_attestation_state_def)

end
