(* ===== verification/On_Chain_Table.thy ===== *)
theory On_Chain_Table
  imports Sxt_Core_Types "HOL-Library.Multiset"
begin

text \<open>
  The crate \<open>on-chain-table\<close>: columns of the supported types (\<open>column.rs\<close>), the signed
  reading of 256-bit decimals as scalars (\<open>u256_scalar_conversion.rs\<close>), tables as insertion
  ordered maps from identifiers to columns (\<open>table.rs\<close>), and the conversions from and to
  arrow record batches (\<open>arrow_column_conversion.rs\<close>, \<open>arrow_table_conversion.rs\<close>).

  An \<open>IndexMap\<close> is an association list with distinct keys; \<open>AList.update\<close> is its insert
  (a known key keeps its position, a new one goes to the end). The scalar field, the hash to
  it, Unicode case mapping, arrow's decimal validation and the time zone parser are parameters.
\<close>

section \<open>Identifiers and columns\<close>

record ident =
  id_value :: bytes
  id_quote_style :: "char option"

definition ident_new :: "bytes \<Rightarrow> ident" where
  "ident_new v = \<lparr>id_value = v, id_quote_style = None\<rparr>"

type_synonym i8 = "8 word"
type_synonym i16 = "16 word"
type_synonym i32 = "32 word"
type_synonym i128 = "128 word"
type_synonym timezone = i32

datatype time_unit = Second | Millisecond | Microsecond | Nanosecond

datatype on_chain_column =
    Boolean "bool list"
  | UnsignedTinyInt "u8 list"
  | TinyInt "i8 list"
  | SmallInt "i16 list"
  | IntCol "i32 list"
  | BigInt "i64 list"
  | Int128 "i128 list"
  | VarChar "bytes list"
  | Decimal75 u8 i8 "u256 list"
  | TimestampTZ time_unit "timezone option" "i64 list"
  | VarBinary "bytes list"

fun col_len :: "on_chain_column \<Rightarrow> nat" where
  "col_len (Boolean xs) = length xs"
| "col_len (UnsignedTinyInt xs) = length xs"
| "col_len (TinyInt xs) = length xs"
| "col_len (SmallInt xs) = length xs"
| "col_len (IntCol xs) = length xs"
| "col_len (BigInt xs) = length xs"
| "col_len (Int128 xs) = length xs"
| "col_len (VarChar xs) = length xs"
| "col_len (VarBinary xs) = length xs"
| "col_len (Decimal75 _ _ xs) = length xs"
| "col_len (TimestampTZ _ _ xs) = length xs"

definition col_is_empty :: "on_chain_column \<Rightarrow> bool" where
  "col_is_empty c \<longleftrightarrow> col_len c = 0"

text \<open>The \<open>ColumnType\<close>s of proof-of-sql the code matches on.\<close>

datatype column_type =
    CTBoolean | CTVarChar | CTVarBinary | CTUint8 | CTTinyInt | CTSmallInt | CTInt | CTBigInt
  | CTInt128 | CTDecimal75 u8 i8 | CTTimestampTZ time_unit timezone | CTScalar

fun empty_with_type :: "column_type \<Rightarrow> (on_chain_column, 'e) result" where
  "empty_with_type CTBoolean = Ok (Boolean [])"
| "empty_with_type CTVarChar = Ok (VarChar [])"
| "empty_with_type CTVarBinary = Ok (VarBinary [])"
| "empty_with_type CTUint8 = Ok (UnsignedTinyInt [])"
| "empty_with_type CTTinyInt = Ok (TinyInt [])"
| "empty_with_type CTSmallInt = Ok (SmallInt [])"
| "empty_with_type CTInt = Ok (IntCol [])"
| "empty_with_type CTBigInt = Ok (BigInt [])"
| "empty_with_type CTInt128 = Ok (Int128 [])"
| "empty_with_type (CTDecimal75 precision scale) = Ok (Decimal75 precision scale [])"
| "empty_with_type (CTTimestampTZ time_unit time_zone) = Ok (TimestampTZ time_unit (Some time_zone) [])"
| "empty_with_type CTScalar = Panic"

section \<open>Scalars and committable columns\<close>

text \<open>
  What the code uses of \<open>S: Scalar\<close>: its largest signed value, the conversion from and to
  four limbs (one 256-bit word), negation, and the hashes of strings and byte slices.
\<close>

record 's scalar_ops =
  sc_max_signed :: u256
  sc_from_limbs :: "u256 \<Rightarrow> 's"
  sc_to_limbs :: "'s \<Rightarrow> u256"
  sc_neg :: "'s \<Rightarrow> 's"
  sc_from_string :: "bytes \<Rightarrow> 's"
  sc_from_byte_slice_via_hash :: "bytes \<Rightarrow> 's"

datatype out_of_scalar_bounds = OutOfScalarBounds

definition u256_max :: u256 where
  "u256_max = -1"

definition u256_to_scalar :: "'s scalar_ops \<Rightarrow> u256 \<Rightarrow> ('s, out_of_scalar_bounds) result" where
  "u256_to_scalar S v =
     (let is_negative = v > u256_max div 2;
          abs_value = (if is_negative then u256_max - v + 1 else v)
      in if abs_value > sc_max_signed S then Err OutOfScalarBounds
         else let scalar = sc_from_limbs S abs_value
              in Ok (if is_negative then sc_neg S scalar else scalar))"

datatype committable_column =
    CCBoolean "bool list" | CCUint8 "u8 list" | CCTinyInt "i8 list" | CCSmallInt "i16 list"
  | CCInt "i32 list" | CCBigInt "i64 list" | CCInt128 "i128 list" | CCVarChar "u256 list"
  | CCDecimal75 u8 i8 "u256 list" | CCTimestampTZ time_unit timezone "i64 list"
  | CCVarBinary "u256 list"

definition timezone_utc :: timezone where
  "timezone_utc = 0"

fun try_to_committable_column ::
    "'s scalar_ops \<Rightarrow> on_chain_column \<Rightarrow> (committable_column, out_of_scalar_bounds) result" where
  "try_to_committable_column S (Boolean xs) = Ok (CCBoolean xs)"
| "try_to_committable_column S (UnsignedTinyInt xs) = Ok (CCUint8 xs)"
| "try_to_committable_column S (TinyInt xs) = Ok (CCTinyInt xs)"
| "try_to_committable_column S (SmallInt xs) = Ok (CCSmallInt xs)"
| "try_to_committable_column S (IntCol xs) = Ok (CCInt xs)"
| "try_to_committable_column S (BigInt xs) = Ok (CCBigInt xs)"
| "try_to_committable_column S (Int128 xs) = Ok (CCInt128 xs)"
| "try_to_committable_column S (VarChar xs) =
     Ok (CCVarChar (map (\<lambda>s. sc_to_limbs S (sc_from_string S s)) xs))"
| "try_to_committable_column S (Decimal75 precision scale xs) =
     map_ok (CCDecimal75 precision scale)
       (collect_res (\<lambda>v. map_ok (sc_to_limbs S) (u256_to_scalar S v)) xs)"
| "try_to_committable_column S (TimestampTZ u tz xs) =
     Ok (CCTimestampTZ u (case tz of None \<Rightarrow> timezone_utc | Some z \<Rightarrow> z) xs)"
| "try_to_committable_column S (VarBinary xs) =
     Ok (CCVarBinary (map (\<lambda>b. sc_to_limbs S (sc_from_byte_slice_via_hash S b)) xs))"

fun cc_len :: "committable_column \<Rightarrow> nat" where
  "cc_len (CCBoolean xs) = length xs"
| "cc_len (CCUint8 xs) = length xs"
| "cc_len (CCTinyInt xs) = length xs"
| "cc_len (CCSmallInt xs) = length xs"
| "cc_len (CCInt xs) = length xs"
| "cc_len (CCBigInt xs) = length xs"
| "cc_len (CCInt128 xs) = length xs"
| "cc_len (CCVarChar xs) = length xs"
| "cc_len (CCDecimal75 _ _ xs) = length xs"
| "cc_len (CCTimestampTZ _ _ xs) = length xs"
| "cc_len (CCVarBinary xs) = length xs"

section \<open>Tables\<close>

type_synonym on_chain_table = "(ident \<times> on_chain_column) list"

datatype on_chain_table_error = NoColumns | ColumnLengthMismatch

definition index_map_insert :: "('k \<times> 'v) list \<Rightarrow> 'k \<times> 'v \<Rightarrow> ('k \<times> 'v) list" where
  "index_map_insert m kv = AList.update (fst kv) (snd kv) m"

definition index_map_collect :: "('k \<times> 'v) list \<Rightarrow> ('k \<times> 'v) list" where
  "index_map_collect kvs = foldl index_map_insert [] kvs"

definition upper_ident :: "(bytes \<Rightarrow> bytes) \<Rightarrow> ident \<Rightarrow> ident" where
  "upper_ident uc i = i\<lparr>id_value := uc (id_value i)\<rparr>"

definition try_from_iter ::
    "(bytes \<Rightarrow> bytes) \<Rightarrow> (ident \<times> on_chain_column) list \<Rightarrow> (on_chain_table, on_chain_table_error) result" where
  "try_from_iter uc cols =
     bind_res (ok_or (case cols of [] \<Rightarrow> None | (_, c) # _ \<Rightarrow> Some (col_len c)) NoColumns) (\<lambda>len.
     map_ok index_map_collect
       (collect_res (\<lambda>(i, c).
          let i' = upper_ident uc i
          in if col_len c \<noteq> len then Err ColumnLengthMismatch else Ok (i', c)) cols))"

definition table_num_columns :: "on_chain_table \<Rightarrow> nat" where
  "table_num_columns t = length t"

definition table_num_rows :: "on_chain_table \<Rightarrow> (nat, 'e) result" where
  "table_num_rows t = (case t of [] \<Rightarrow> Panic | (_, c) # _ \<Rightarrow> Ok (col_len c))"

definition iter_committable ::
    "'s scalar_ops \<Rightarrow> on_chain_table \<Rightarrow> (ident \<times> committable_column, out_of_scalar_bounds) result list" where
  "iter_committable S t = map (\<lambda>(i, c). map_ok (\<lambda>cc. (i, cc)) (try_to_committable_column S c)) t"

text \<open>\<open>shift_remove_entry\<close>: take an entry out of the map, keeping the order of the rest.\<close>

definition shift_remove_entry :: "('k \<times> 'v) list \<Rightarrow> 'k \<Rightarrow> ('k \<times> 'v) option \<times> ('k \<times> 'v) list" where
  "shift_remove_entry m k =
     (case map_of m k of None \<Rightarrow> (None, m) | Some v \<Rightarrow> (Some (k, v), AList.delete k m))"

fun take_in_order :: "('k \<times> 'v) list \<Rightarrow> 'k list \<Rightarrow> ('k \<times> 'v) list \<times> ('k \<times> 'v) list" where
  "take_in_order m [] = ([], m)"
| "take_in_order m (k # ks) =
     (let (e, m') = shift_remove_entry m k; (es, m'') = take_in_order m' ks
      in (case e of None \<Rightarrow> es | Some kv \<Rightarrow> kv # es, m''))"

definition with_column_order :: "on_chain_table \<Rightarrow> ident list \<Rightarrow> on_chain_table" where
  "with_column_order t order =
     (let (ordered, remaining) = take_in_order t order in index_map_collect (ordered @ remaining))"

definition get_column :: "on_chain_table \<Rightarrow> ident \<Rightarrow> on_chain_column option" where
  "get_column t i = map_of t i"

definition get_decimal_by_column :: "(bytes \<Rightarrow> bytes) \<Rightarrow> on_chain_table \<Rightarrow> bytes \<Rightarrow> u256 list option" where
  "get_decimal_by_column uc t column_name =
     (case get_column t (ident_new (uc column_name)) of
        Some (Decimal75 _ _ vs) \<Rightarrow> Some vs | _ \<Rightarrow> None)"

definition get_bytes_by_column :: "(bytes \<Rightarrow> bytes) \<Rightarrow> on_chain_table \<Rightarrow> bytes \<Rightarrow> bytes list option" where
  "get_bytes_by_column uc t column_name =
     (case get_column t (ident_new (uc column_name)) of Some (VarBinary vs) \<Rightarrow> Some vs | _ \<Rightarrow> None)"

definition get_varchars_by_column :: "(bytes \<Rightarrow> bytes) \<Rightarrow> on_chain_table \<Rightarrow> bytes \<Rightarrow> bytes list option" where
  "get_varchars_by_column uc t column_name =
     (case get_column t (ident_new (uc column_name)) of Some (VarChar vs) \<Rightarrow> Some vs | _ \<Rightarrow> None)"

text \<open>\<open>values.iter().max()\<close> on \<open>i64\<close>: the signed order.\<close>

definition signed_max :: "i64 \<Rightarrow> i64 \<Rightarrow> i64" where
  "signed_max a b = (if sint a \<le> sint b then b else a)"

fun iter_max :: "i64 list \<Rightarrow> i64 option" where
  "iter_max [] = None"
| "iter_max (x # xs) = Some (foldl signed_max x xs)"

definition max_block_number :: "on_chain_table \<Rightarrow> i64 option" where
  "max_block_number t =
     (case get_column t (ident_new ''BLOCK_NUMBER'') of Some (BigInt vs) \<Rightarrow> iter_max vs | _ \<Rightarrow> None)"

text \<open>What \<open>OnChainTable\<close> guarantees of its columns.\<close>

definition table_wf :: "(bytes \<Rightarrow> bytes) \<Rightarrow> on_chain_table \<Rightarrow> bool" where
  "table_wf uc t \<longleftrightarrow> t \<noteq> [] \<and> distinct (map fst t)
     \<and> (\<forall>(i, c) \<in> set t. id_value i \<in> range uc \<and> col_len c = col_len (snd (hd t)))"


section \<open>Arrow conversions\<close>

text \<open>
  An arrow \<open>ArrayRef\<close> is what the code reads of it: whether it has nulls, its data type, and
  the typed values behind it; \<open>downcast_ref\<close> succeeds exactly on the array type asked for.
  Primitive arrays are read through \<open>values()\<close>, the others element by element.
\<close>

datatype arrow_time_unit = ArrowSecond | ArrowMillisecond | ArrowMicrosecond | ArrowNanosecond

datatype arrow_data_type =
    DTBoolean | DTInt8 | DTInt16 | DTInt32 | DTInt64 | DTUInt8
  | DTDecimal128 u8 i8 | DTDecimal256 u8 i8 | DTUtf8 | DTBinary
  | DTTimestamp arrow_time_unit "bytes option" | DTOther bytes

datatype arrow_values =
    BooleanArray "bool option list" | Int8Array "i8 list" | Int16Array "i16 list"
  | Int32Array "i32 list" | Int64Array "i64 list" | UInt8Array "u8 list"
  | Decimal128Array "i128 list" | Decimal256Array "256 word list"
  | StringArray "bytes option list" | BinaryArray "bytes option list"
  | TimestampArray arrow_time_unit "i64 list"

record arrow_array =
  aa_is_nullable :: bool
  aa_data_type :: arrow_data_type
  aa_values :: arrow_values

text \<open>
  Code of other crates: proof-of-sql's precision constructor and time zone conversions, and
  arrow's validation of a decimal's precision and scale.
\<close>

record arrow_ext =
  ax_precision_new :: "u8 \<Rightarrow> u8 option"
  ax_decimal_ok :: "u8 \<Rightarrow> i8 \<Rightarrow> bool"
  ax_timezone_try_from :: "bytes \<Rightarrow> timezone option"
  ax_timezone_to_string :: "timezone \<Rightarrow> bytes"

datatype arrow_to_on_chain_column_error =
    UnsupportedType arrow_data_type | UnsupportedNull | InvalidTimestamp | UnexpectedSchemaDataMismatch

definition arrow_i256_to_u256 :: "256 word \<Rightarrow> u256" where
  "arrow_i256_to_u256 v = word_of_nat (from_be_bytes 0 (rev (rev (to_be_bytes 32 (unat v)))))"

definition u256_to_arrow_i256 :: "u256 \<Rightarrow> 256 word" where
  "u256_to_arrow_i256 v = word_of_nat (from_be_bytes 0 (rev (rev (to_be_bytes 32 (unat v)))))"

fun posql_time_unit :: "arrow_time_unit \<Rightarrow> time_unit" where
  "posql_time_unit ArrowSecond = Second"
| "posql_time_unit ArrowMillisecond = Millisecond"
| "posql_time_unit ArrowMicrosecond = Microsecond"
| "posql_time_unit ArrowNanosecond = Nanosecond"

fun arrow_time_unit_of :: "time_unit \<Rightarrow> arrow_time_unit" where
  "arrow_time_unit_of Second = ArrowSecond"
| "arrow_time_unit_of Millisecond = ArrowMillisecond"
| "arrow_time_unit_of Microsecond = ArrowMicrosecond"
| "arrow_time_unit_of Nanosecond = ArrowNanosecond"

definition downcast_boolean :: "arrow_values \<Rightarrow> bool option list option" where
  "downcast_boolean v = (case v of BooleanArray xs \<Rightarrow> Some xs | _ \<Rightarrow> None)"
definition downcast_int8 :: "arrow_values \<Rightarrow> i8 list option" where
  "downcast_int8 v = (case v of Int8Array xs \<Rightarrow> Some xs | _ \<Rightarrow> None)"
definition downcast_int16 :: "arrow_values \<Rightarrow> i16 list option" where
  "downcast_int16 v = (case v of Int16Array xs \<Rightarrow> Some xs | _ \<Rightarrow> None)"
definition downcast_int32 :: "arrow_values \<Rightarrow> i32 list option" where
  "downcast_int32 v = (case v of Int32Array xs \<Rightarrow> Some xs | _ \<Rightarrow> None)"
definition downcast_int64 :: "arrow_values \<Rightarrow> i64 list option" where
  "downcast_int64 v = (case v of Int64Array xs \<Rightarrow> Some xs | _ \<Rightarrow> None)"
definition downcast_decimal128 :: "arrow_values \<Rightarrow> i128 list option" where
  "downcast_decimal128 v = (case v of Decimal128Array xs \<Rightarrow> Some xs | _ \<Rightarrow> None)"
definition downcast_decimal256 :: "arrow_values \<Rightarrow> 256 word list option" where
  "downcast_decimal256 v = (case v of Decimal256Array xs \<Rightarrow> Some xs | _ \<Rightarrow> None)"
definition downcast_string :: "arrow_values \<Rightarrow> bytes option list option" where
  "downcast_string v = (case v of StringArray xs \<Rightarrow> Some xs | _ \<Rightarrow> None)"
definition downcast_binary :: "arrow_values \<Rightarrow> bytes option list option" where
  "downcast_binary v = (case v of BinaryArray xs \<Rightarrow> Some xs | _ \<Rightarrow> None)"
definition downcast_timestamp :: "arrow_time_unit \<Rightarrow> arrow_values \<Rightarrow> i64 list option" where
  "downcast_timestamp u v =
     (case v of TimestampArray u' xs \<Rightarrow> if u' = u then Some xs else None | _ \<Rightarrow> None)"

definition or_mismatch :: "'a option \<Rightarrow> ('a, arrow_to_on_chain_column_error) result" where
  "or_mismatch x = ok_or x UnexpectedSchemaDataMismatch"

definition no_nulls :: "'a option list \<Rightarrow> ('a list, arrow_to_on_chain_column_error) result" where
  "no_nulls xs = collect_res (\<lambda>x. ok_or x UnsupportedNull) xs"

definition column_from_arrow ::
    "arrow_ext \<Rightarrow> arrow_array \<Rightarrow> (on_chain_column, arrow_to_on_chain_column_error) result" where
  "column_from_arrow X a =
     (if aa_is_nullable a then Err UnsupportedNull
      else let v = aa_values a in
        case aa_data_type a of
          DTBoolean \<Rightarrow> map_ok Boolean (bind_res (or_mismatch (downcast_boolean v)) no_nulls)
        | DTInt8 \<Rightarrow> map_ok TinyInt (or_mismatch (downcast_int8 v))
        | DTInt16 \<Rightarrow> map_ok SmallInt (or_mismatch (downcast_int16 v))
        | DTInt32 \<Rightarrow> map_ok IntCol (or_mismatch (downcast_int32 v))
        | DTInt64 \<Rightarrow> map_ok BigInt (or_mismatch (downcast_int64 v))
        | DTDecimal128 p s \<Rightarrow>
            if p = 38 \<and> s = 0 then map_ok Int128 (or_mismatch (downcast_decimal128 v))
            else Err (UnsupportedType (aa_data_type a))
        | DTDecimal256 p s \<Rightarrow>
            if p \<le> 75 then
              bind_res (unwrap_opt (ax_precision_new X p)) (\<lambda>precision.
              map_ok (\<lambda>xs. Decimal75 precision s (map arrow_i256_to_u256 xs))
                (or_mismatch (downcast_decimal256 v)))
            else Err (UnsupportedType (aa_data_type a))
        | DTUtf8 \<Rightarrow> map_ok VarChar (bind_res (or_mismatch (downcast_string v)) no_nulls)
        | DTBinary \<Rightarrow> map_ok VarBinary (bind_res (or_mismatch (downcast_binary v)) no_nulls)
        | DTTimestamp u tz \<Rightarrow>
            bind_res (or_mismatch (downcast_timestamp u v)) (\<lambda>timestamps.
            bind_res (case tz of None \<Rightarrow> Ok None
                | Some z \<Rightarrow> map_ok Some (ok_or (ax_timezone_try_from X z) InvalidTimestamp)) (\<lambda>tz'.
            Ok (TimestampTZ (posql_time_unit u) tz' timestamps)))
        | t \<Rightarrow> Err (UnsupportedType t))"

definition plain_array :: "arrow_data_type \<Rightarrow> arrow_values \<Rightarrow> arrow_array" where
  "plain_array t v = \<lparr>aa_is_nullable = False, aa_data_type = t, aa_values = v\<rparr>"

fun column_to_arrow :: "arrow_ext \<Rightarrow> on_chain_column \<Rightarrow> (arrow_array, 'e) result" where
  "column_to_arrow X (Boolean xs) = Ok (plain_array DTBoolean (BooleanArray (map Some xs)))"
| "column_to_arrow X (UnsignedTinyInt xs) = Ok (plain_array DTUInt8 (UInt8Array xs))"
| "column_to_arrow X (TinyInt xs) = Ok (plain_array DTInt8 (Int8Array xs))"
| "column_to_arrow X (SmallInt xs) = Ok (plain_array DTInt16 (Int16Array xs))"
| "column_to_arrow X (IntCol xs) = Ok (plain_array DTInt32 (Int32Array xs))"
| "column_to_arrow X (BigInt xs) = Ok (plain_array DTInt64 (Int64Array xs))"
| "column_to_arrow X (Int128 xs) =
     (if ax_decimal_ok X 38 0 then Ok (plain_array (DTDecimal128 38 0) (Decimal128Array xs)) else Panic)"
| "column_to_arrow X (Decimal75 p s xs) =
     (if ax_decimal_ok X p s
      then Ok (plain_array (DTDecimal256 p s) (Decimal256Array (map u256_to_arrow_i256 xs))) else Panic)"
| "column_to_arrow X (VarChar xs) = Ok (plain_array DTUtf8 (StringArray (map Some xs)))"
| "column_to_arrow X (VarBinary xs) = Ok (plain_array DTBinary (BinaryArray (map Some xs)))"
| "column_to_arrow X (TimestampTZ u tz xs) =
     Ok (plain_array (DTTimestamp (arrow_time_unit_of u) (map_option (ax_timezone_to_string X) tz))
       (TimestampArray (arrow_time_unit_of u) xs))"

record record_batch =
  rb_fields :: "bytes list"
  rb_columns :: "arrow_array list"

datatype arrow_to_on_chain_table_error = ColumnError arrow_to_on_chain_column_error | DuplicateIdentifier

definition index_set_collect :: "'a list \<Rightarrow> 'a list" where
  "index_set_collect xs = foldl (\<lambda>s x. if x \<in> set s then s else s @ [x]) [] xs"

definition table_from_record_batch ::
    "(bytes \<Rightarrow> bytes) \<Rightarrow> arrow_ext \<Rightarrow> record_batch \<Rightarrow> (on_chain_table, arrow_to_on_chain_table_error) result" where
  "table_from_record_batch uc X batch =
     bind_res (map_err ColumnError (collect_res (column_from_arrow X) (rb_columns batch))) (\<lambda>columns.
     let identifiers = index_set_collect (map ident_new (rb_fields batch)) in
     if length columns \<noteq> length identifiers then Err DuplicateIdentifier
     else expect_res (try_from_iter uc (zip identifiers columns)))"

fun arrow_values_len :: "arrow_values \<Rightarrow> nat" where
  "arrow_values_len (BooleanArray xs) = length xs"
| "arrow_values_len (Int8Array xs) = length xs"
| "arrow_values_len (Int16Array xs) = length xs"
| "arrow_values_len (Int32Array xs) = length xs"
| "arrow_values_len (Int64Array xs) = length xs"
| "arrow_values_len (UInt8Array xs) = length xs"
| "arrow_values_len (Decimal128Array xs) = length xs"
| "arrow_values_len (Decimal256Array xs) = length xs"
| "arrow_values_len (StringArray xs) = length xs"
| "arrow_values_len (BinaryArray xs) = length xs"
| "arrow_values_len (TimestampArray _ xs) = length xs"

text \<open>\<open>RecordBatch::try_from_iter\<close> needs at least one column and columns of one length.\<close>

definition record_batch_try_from_iter :: "(bytes \<times> arrow_array) list \<Rightarrow> record_batch option" where
  "record_batch_try_from_iter cols =
     (case cols of [] \<Rightarrow> None
      | (_, a) # _ \<Rightarrow>
          if list_all (\<lambda>(_, b). arrow_values_len (aa_values b) = arrow_values_len (aa_values a)) cols
          then Some \<lparr>rb_fields = map fst cols, rb_columns = map snd cols\<rparr> else None)"

definition table_to_record_batch :: "arrow_ext \<Rightarrow> on_chain_table \<Rightarrow> (record_batch, 'e) result" where
  "table_to_record_batch X t =
     bind_res (collect_res (\<lambda>(i, c). map_ok (\<lambda>a. (id_value i, a)) (column_to_arrow X c)) t) (\<lambda>cols.
     unwrap_opt (record_batch_try_from_iter cols))"

section \<open>Facts about columns and tables\<close>


lemma sint_u256: "sint (v :: u256) = (if uint v < 2 ^ 255 then uint v else uint v - 2 ^ 256)"
proof -
  define M :: int where "M = 2 ^ 255"
  have b: "0 \<le> uint v" "uint v < 2 * M" "0 \<le> M"
    using uint_bounded[of v] by (simp_all add: M_def)
  have s: "sint v = (uint v + M) mod (2 * M) - M"
    by (simp add: sint_uint signed_take_bit_eq_take_bit_shift take_bit_eq_mod M_def)
  show ?thesis
  proof (cases "uint v < M")
    case True
    then have "(uint v + M) mod (2 * M) = uint v + M"
      using b by (intro mod_pos_pos_trivial) auto
    then show ?thesis using True s by (simp add: M_def)
  next
    case False
    have "(uint v + M) mod (2 * M) = (uint v + M - 2 * M) mod (2 * M)"
      by (simp only: minus_mod_self2)
    also have "\<dots> = uint v - M"
      using False b by (subst mod_pos_pos_trivial) auto
    finally show ?thesis using False s by (simp add: M_def)
  qed
qed

lemma u256_half: "uint (u256_max div 2) = 2 ^ 255 - 1"
  by (simp add: u256_max_def uint_div)

lemma u256_negative_iff: "v > u256_max div 2 \<longleftrightarrow> sint v < 0"
proof -
  have "sint v < 0 \<longleftrightarrow> 2 ^ 255 \<le> uint v"
    using uint_bounded[of v] by (auto simp: sint_u256)
  then show ?thesis unfolding word_less_def u256_half by linarith
qed

lemma u256_minus_uint: "0 < uint (v :: u256) \<Longrightarrow> uint (- v) = 2 ^ 256 - uint v"
  using uint_bounded[of v] by (simp add: uint_word_ariths zmod_zminus1_eq_if)

lemma u256_abs:
  "uint (if v > u256_max div 2 then u256_max - v + 1 else v) = \<bar>sint v\<bar>"
proof (cases "v > u256_max div 2")
  case True
  then have v: "2 ^ 255 \<le> uint v" unfolding word_less_def u256_half by linarith
  have "u256_max - v + 1 = - v" by (simp add: u256_max_def)
  moreover have "uint (- v) = \<bar>sint v\<bar>"
    using v uint_bounded[of v] by (simp add: sint_u256 u256_minus_uint)
  ultimately show ?thesis using True by (simp only: if_True)
next
  case False
  then have "uint v < 2 ^ 255" unfolding word_less_def u256_half by linarith
  then show ?thesis using False by (simp add: sint_u256)
qed

lemma signed_max_sint: "sint (signed_max a b) = max (sint a) (sint b)"
  by (simp add: signed_max_def max_def)

lemma foldl_signed_max_ge:
  "sint x \<le> sint (foldl signed_max x xs) \<and> (\<forall>y \<in> set xs. sint y \<le> sint (foldl signed_max x xs))"
proof (induction xs arbitrary: x)
  case (Cons z zs)
  then show ?case using Cons.IH[of "signed_max x z"] by (auto simp: signed_max_sint)
qed simp

lemma foldl_signed_max_mem: "foldl signed_max x xs \<in> insert x (set xs)"
proof (induction xs arbitrary: x)
  case (Cons z zs)
  then show ?case using Cons.IH[of "signed_max x z"] by (auto simp: signed_max_def split: if_splits)
qed simp

lemma iter_max_None: "iter_max xs = None \<longleftrightarrow> xs = []"
  by (cases xs) auto

lemma iter_max_Some: "iter_max xs = Some m \<Longrightarrow> m \<in> set xs \<and> (\<forall>x \<in> set xs. sint x \<le> sint m)"
  by (cases xs) (use foldl_signed_max_mem foldl_signed_max_ge in \<open>auto\<close>)

lemma index_map_collect_snoc:
  "index_map_collect (kvs @ [kv]) = AList.update (fst kv) (snd kv) (index_map_collect kvs)"
  by (simp add: index_map_collect_def index_map_insert_def)

lemma index_map_collect_distinct [simp]: "distinct (map fst (index_map_collect kvs))"
  by (induction kvs rule: rev_induct)
    (simp_all add: index_map_collect_snoc distinct_update, simp add: index_map_collect_def)

lemma index_map_collect_set: "set (index_map_collect kvs) \<subseteq> set kvs"
proof (induction kvs rule: rev_induct)
  case (snoc kv kvs)
  have "set (AList.update k v m) \<subseteq> insert (k, v) (set m)" for k v and m :: "('a \<times> 'b) list"
    by (induction m) auto
  then show ?case using snoc by (fastforce simp: index_map_collect_snoc)
qed (simp add: index_map_collect_def)

lemma update_new: "k \<notin> fst ` set m \<Longrightarrow> AList.update k v m = m @ [(k, v)]"
  by (induction m) auto

lemma index_map_collect_id: "distinct (map fst kvs) \<Longrightarrow> index_map_collect kvs = kvs"
proof (induction kvs rule: rev_induct)
  case (snoc kv kvs)
  then show ?case by (simp add: index_map_collect_snoc update_new)
qed (simp add: index_map_collect_def)

lemma index_map_collect_Nil: "index_map_collect kvs = [] \<longleftrightarrow> kvs = []"
proof (induction kvs rule: rev_induct)
  case (snoc kv kvs)
  then show ?case by (simp add: index_map_collect_snoc)
qed (simp add: index_map_collect_def)

lemma collect_map_of: "map_of (index_map_collect kvs) = map_of (rev kvs)"
proof (induction kvs rule: rev_induct)
  case (snoc kv kvs)
  then show ?case by (cases kv) (auto simp: index_map_collect_snoc update_conv')
qed (simp add: index_map_collect_def)


lemma u256_to_scalar_signed:
  "u256_to_scalar S v =
     (if \<bar>sint v\<bar> > uint (sc_max_signed S) then Err OutOfScalarBounds
      else if sint v < 0 then Ok (sc_neg S (sc_from_limbs S (word_of_int \<bar>sint v\<bar>)))
      else Ok (sc_from_limbs S (word_of_int \<bar>sint v\<bar>)))"
proof -
  define a where "a = (if v > u256_max div 2 then u256_max - v + 1 else v)"
  have u: "uint a = \<bar>sint v\<bar>" unfolding a_def by (rule u256_abs)
  then have w: "word_of_int \<bar>sint v\<bar> = a" by (metis word_of_int_uint)
  have "u256_to_scalar S v =
      (if a > sc_max_signed S then Err OutOfScalarBounds
       else Ok (if sint v < 0 then sc_neg S (sc_from_limbs S a) else sc_from_limbs S a))"
    unfolding u256_to_scalar_def Let_def a_def u256_negative_iff ..
  then show ?thesis unfolding w by (simp add: word_less_def u)
qed

lemma try_from_iter_Ok:
  "try_from_iter uc cols = Ok t \<longleftrightarrow>
     cols \<noteq> [] \<and> (\<forall>(i, c) \<in> set cols. col_len c = col_len (snd (hd cols)))
     \<and> t = index_map_collect (map (\<lambda>(i, c). (upper_ident uc i, c)) cols)"
proof (cases cols)
  case Nil
  then show ?thesis by (simp add: try_from_iter_def)
next
  case (Cons ic rest)
  have step: "collect_res (\<lambda>(i, c). if col_len c \<noteq> n then Err ColumnLengthMismatch
        else Ok (upper_ident uc i, c)) xs = Ok ys \<longleftrightarrow>
      (\<forall>(i, c) \<in> set xs. col_len c = n) \<and> ys = map (\<lambda>(i, c). (upper_ident uc i, c)) xs" for n xs ys
    by (induction xs arbitrary: ys) (auto simp: res_Ok_iff Let_def split: if_splits)
  obtain i c where "cols = (i, c) # rest" using Cons by (cases ic) simp
  then show ?thesis
    unfolding try_from_iter_def Let_def by (auto simp: map_ok_Ok_iff step simp del: collect_res.simps)
qed

lemma try_from_iter_wf:
  assumes "try_from_iter uc cols = Ok t"
  shows "table_wf uc t"
proof -
  let ?m = "map (\<lambda>(i, c). (upper_ident uc i, c)) cols"
  from assms have ne: "cols \<noteq> []" and len: "\<forall>(i, c) \<in> set cols. col_len c = col_len (snd (hd cols))"
    and t: "t = index_map_collect ?m"
    unfolding try_from_iter_Ok by auto
  then have "t \<noteq> []" by (simp add: index_map_collect_Nil)
  moreover have mem: "id_value i \<in> range uc \<and> col_len c = col_len (snd (hd cols))"
    if "(i, c) \<in> set t" for i c
  proof -
    have "(i, c) \<in> set ?m" using that t index_map_collect_set by blast
    then show ?thesis using len by (auto simp: upper_ident_def)
  qed
  ultimately show ?thesis
    using mem[of "fst (hd t)" "snd (hd t)"] t by (auto simp: table_wf_def)
qed

lemma map_of_mset:
  "distinct (map fst m) \<Longrightarrow> map_of m k = Some v \<Longrightarrow> mset m = add_mset (k, v) (mset (AList.delete k m))"
  by (induction m) (auto simp: delete_id)

lemma shift_remove_entry_eq:
  "shift_remove_entry m k = (map_option (Pair k) (map_of m k), AList.delete k m)"
proof (cases "map_of m k")
  case None
  then have "AList.delete k m = m" by (simp add: map_of_eq_None_iff)
  then show ?thesis using None by (simp add: shift_remove_entry_def)
qed (simp add: shift_remove_entry_def)

lemma take_in_order_mset:
  "distinct (map fst m) \<Longrightarrow> take_in_order m ks = (es, rest) \<Longrightarrow> mset m = mset es + mset rest"
proof (induction ks arbitrary: m es)
  case (Cons k ks)
  obtain es' where t: "take_in_order (AList.delete k m) ks = (es', rest)"
    and es: "es = (case map_of m k of None \<Rightarrow> es' | Some v \<Rightarrow> (k, v) # es')"
    using Cons.prems(2) by (auto simp: shift_remove_entry_eq Let_def split: prod.splits option.splits)
  have ih: "mset (AList.delete k m) = mset es' + mset rest"
    by (rule Cons.IH[OF _ t]) (simp add: Cons.prems(1) distinct_delete)
  show ?case
  proof (cases "map_of m k")
    case None
    then have "AList.delete k m = m" by (simp add: map_of_eq_None_iff)
    then show ?thesis using ih es None by simp
  next
    case (Some v)
    then show ?thesis using ih es map_of_mset[OF Cons.prems(1) Some] by simp
  qed
qed simp

text \<open>The entries of a map named by a list of keys, in the order of the list.\<close>

definition in_order :: "('k \<times> 'v) list \<Rightarrow> 'k list \<Rightarrow> ('k \<times> 'v) list" where
  "in_order m ks = concat (map (\<lambda>k. case map_of m k of None \<Rightarrow> [] | Some v \<Rightarrow> [(k, v)]) ks)"

lemma in_order_delete: "k \<notin> set ks \<Longrightarrow> in_order (AList.delete k m) ks = in_order m ks"
  by (induction ks) (auto simp: in_order_def delete_conv')

lemma filter_delete: "filter (\<lambda>x. fst x \<notin> set ks) (AList.delete k m) = filter (\<lambda>x. fst x \<notin> set (k # ks)) m"
  by (induction m) auto

lemma take_in_order_eq:
  "distinct ks \<Longrightarrow> take_in_order m ks = (in_order m ks, filter (\<lambda>x. fst x \<notin> set ks) m)"
proof (induction ks arbitrary: m)
  case (Cons k ks)
  then have "take_in_order (AList.delete k m) ks = (in_order m ks, filter (\<lambda>x. fst x \<notin> set (k # ks)) m)"
    using Cons.IH[of "AList.delete k m"] in_order_delete[of k ks m] filter_delete[of ks k m] by simp
  then show ?case
    by (cases "map_of m k") (simp_all add: shift_remove_entry_eq in_order_def)
qed (simp add: in_order_def)

lemma with_column_order_append:
  assumes "distinct (map fst t)" "take_in_order t order = (es, rest)"
  shows "with_column_order t order = es @ rest"
proof -
  have "mset t = mset (es @ rest)" using take_in_order_mset[OF assms] by simp
  then have "distinct (map fst (es @ rest))"
    using assms(1) by (metis mset_eq_imp_distinct_iff mset_map)
  then show ?thesis using assms(2) by (simp add: with_column_order_def index_map_collect_id)
qed

lemma with_column_order_mset:
  assumes "distinct (map fst t)"
  shows "mset (with_column_order t order) = mset t"
proof -
  obtain es rest where "take_in_order t order = (es, rest)" by fastforce
  with assms show ?thesis
    using with_column_order_append take_in_order_mset by fastforce
qed


lemma i256_bits:
  "word_of_nat (from_be_bytes 0 (rev (rev (to_be_bytes 32 (unat v))))) = v" for v :: "256 word"
proof -
  have "unat v < 256 ^ 32" using unsigned_less[of v] by simp
  then show ?thesis by (simp add: from_to_be_bytes)
qed

lemma u256_i256_roundtrip [simp]: "arrow_i256_to_u256 (u256_to_arrow_i256 v) = v"
  unfolding arrow_i256_to_u256_def u256_to_arrow_i256_def i256_bits ..

lemma no_nulls_Some [simp]: "no_nulls (map Some xs) = Ok xs"
  unfolding no_nulls_def by (induction xs) auto

lemma posql_time_unit_inverse [simp]: "posql_time_unit (arrow_time_unit_of u) = u"
  by (cases u) auto

lemma arrow_len: "column_to_arrow X c = Ok a \<Longrightarrow> arrow_values_len (aa_values a) = col_len c"
  by (cases c) (auto simp: plain_array_def split: if_splits)

section \<open>Properties\<close>

text \<open>
  A 256-bit decimal is committed to as the signed number its bits denote: the conversion
  to a scalar fails exactly when the absolute value of the two's complement reading exceeds
  the field's largest signed value, and otherwise gives the scalar of the absolute value,
  negated for a negative number.
\<close>

theorem u256_to_scalar_twos_complement:
  "u256_to_scalar S v =
     (if \<bar>sint v\<bar> > uint (sc_max_signed S) then Err OutOfScalarBounds
      else if sint v < 0 then Ok (sc_neg S (sc_from_limbs S (word_of_int \<bar>sint v\<bar>)))
      else Ok (sc_from_limbs S (word_of_int \<bar>sint v\<bar>)))"
  by (rule u256_to_scalar_signed)

text \<open>
  C33. Every \<open>OnChainTable\<close> the constructor returns has at least one column, pairwise
  different identifiers that are results of the upper-casing, and columns of one length;
  asking for its number of rows cannot panic and gives that length for every column.
\<close>

theorem on_chain_table_wf:
  assumes "try_from_iter uc cols = Ok t"
  shows "table_wf uc t \<and> (\<exists>n. table_num_rows t = Ok n \<and> (\<forall>(i, c) \<in> set t. col_len c = n))"
proof -
  have wf: "table_wf uc t" by (rule try_from_iter_wf) (rule assms)
  then obtain i c rest where t: "t = (i, c) # rest" by (cases t) (auto simp: table_wf_def)
  then have "table_num_rows t = Ok (col_len c)" by (simp add: table_num_rows_def)
  moreover have "\<forall>(i, c') \<in> set t. col_len c' = col_len c"
    using wf t unfolding table_wf_def by fastforce
  ultimately show ?thesis using wf by blast
qed

theorem on_chain_table_wf_witness:
  "table_wf to_ascii_uppercase
     [(ident_new ''A'', BigInt [1, 2]), (ident_new ''B'', VarChar [''x'', ''y''])]"
proof -
  have "try_from_iter to_ascii_uppercase
      [(ident_new ''a'', BigInt [1, 2]), (ident_new ''b'', VarChar [''x'', ''y''])] =
      Ok [(ident_new ''A'', BigInt [1, 2]), (ident_new ''B'', VarChar [''x'', ''y''])]"
    by code_simp
  from on_chain_table_wf[OF this] show ?thesis by blast
qed

text \<open>
  Reordering the columns of a table keeps every identifier-column pair, puts the columns
  named by the order first in that order, ignores names the table does not have, and leaves
  the remaining columns behind them in their existing order.
\<close>

theorem with_column_order_correct:
  assumes "distinct (map fst t)" "distinct order"
  shows "with_column_order t order = in_order t order @ filter (\<lambda>x. fst x \<notin> set order) t
    \<and> mset (with_column_order t order) = mset t"
  using assms with_column_order_append[OF _ take_in_order_eq] with_column_order_mset by blast

theorem with_column_order_correct_witness:
  "with_column_order
     [(ident_new ''A'', BigInt [1]), (ident_new ''B'', BigInt [2]), (ident_new ''C'', BigInt [3])]
     [ident_new ''C'', ident_new ''X'', ident_new ''A''] =
   [(ident_new ''C'', BigInt [3]), (ident_new ''A'', BigInt [1]), (ident_new ''B'', BigInt [2])]"
proof -
  let ?t = "[(ident_new ''A'', BigInt [1]), (ident_new ''B'', BigInt [2]), (ident_new ''C'', BigInt [3])]"
  have "distinct (map fst ?t)" "distinct [ident_new ''C'', ident_new ''X'', ident_new ''A'']"
    by (simp_all add: ident_new_def)
  from with_column_order_correct[OF this] show ?thesis
    by (simp add: in_order_def ident_new_def)
qed

text \<open>
  A column written to an arrow array is read back unchanged, given a time zone parser
  that inverts the printer and a precision constructor that accepts the precision; the one
  exception is the unsigned 8-bit type, whose array the reader rejects as unsupported.
\<close>

theorem column_arrow_roundtrip:
  assumes "\<And>z. ax_timezone_try_from X (ax_timezone_to_string X z) = Some z"
    and "\<And>p s xs. c = Decimal75 p s xs \<Longrightarrow> p \<le> 75 \<and> ax_precision_new X p = Some p"
    and "column_to_arrow X c = Ok a"
  shows "column_from_arrow X a =
    (case c of UnsignedTinyInt _ \<Rightarrow> Err (UnsupportedType DTUInt8) | _ \<Rightarrow> Ok c)"
  using assms
  by (cases c) (auto simp: column_from_arrow_def plain_array_def or_mismatch_def
      downcast_boolean_def downcast_int8_def downcast_int16_def downcast_int32_def
      downcast_int64_def downcast_decimal128_def downcast_decimal256_def downcast_string_def
      downcast_binary_def downcast_timestamp_def comp_def split: if_splits option.splits)

definition demo_arrow_ext :: arrow_ext where
  "demo_arrow_ext =
     \<lparr>ax_precision_new = (\<lambda>p. if p = 0 \<or> p > 75 then None else Some p),
      ax_decimal_ok = (\<lambda>p s. True),
      ax_timezone_try_from = (\<lambda>s. Some (word_of_nat (from_be_bytes 0 s))),
      ax_timezone_to_string = (\<lambda>z. to_be_bytes 4 (unat z))\<rparr>"

lemma demo_timezone:
  "ax_timezone_try_from demo_arrow_ext (ax_timezone_to_string demo_arrow_ext z) = Some z"
proof -
  have "unat z < 256 ^ 4" using unsigned_less[of z] by simp
  then show ?thesis by (simp add: demo_arrow_ext_def from_to_be_bytes del: to_be_bytes.simps)
qed

theorem column_arrow_roundtrip_witness:
  "column_from_arrow demo_arrow_ext (plain_array (DTDecimal256 39 2)
     (Decimal256Array [u256_to_arrow_i256 5])) = Ok (Decimal75 39 2 [5])"
  using column_arrow_roundtrip[of demo_arrow_ext "Decimal75 39 2 [5]", OF demo_timezone]
  by (simp add: demo_arrow_ext_def)

text \<open>
  The maximal block number of a table is \<open>None\<close> unless it has a non-empty 64-bit column
  named BLOCK_NUMBER, and is then an element of that column no element exceeds in the
  signed order.
\<close>

theorem max_block_number_correct:
  "case max_block_number t of
     Some m \<Rightarrow> (\<exists>vs. get_column t (ident_new ''BLOCK_NUMBER'') = Some (BigInt vs) \<and> m \<in> set vs
       \<and> list_all (\<lambda>v. sint v \<le> sint m) vs)
   | None \<Rightarrow> (\<nexists>v vs. get_column t (ident_new ''BLOCK_NUMBER'') = Some (BigInt (v # vs)))"
proof (cases "max_block_number t")
  case None
  then show ?thesis by (auto simp: max_block_number_def)
next
  case (Some m)
  then obtain vs where vs: "get_column t (ident_new ''BLOCK_NUMBER'') = Some (BigInt vs)" "iter_max vs = Some m"
    by (auto simp: max_block_number_def split: option.splits on_chain_column.splits)
  then show ?thesis using iter_max_Some[OF vs(2)] Some by (simp add: list_all_iff)
qed

end
