(* ===== verification/Commitment_Sql.thy ===== *)
theory Commitment_Sql
  imports Commitment_Map On_Chain_Table
begin

text \<open>
  The crate \<open>commitment-sql\<close>: validation of table definitions (\<open>column_options.rs\<close>,
  \<open>metadata_prefix.rs\<close>, \<open>column_type_conversion.rs\<close>, \<open>validated_create_table.rs\<close>), the
  empty commitments of a new table (\<open>create_table.rs\<close>), the acceptance of snapshot
  commitments (\<open>create_table_from_snapshot.rs\<close>) and the extension of commitments by inserted
  rows together with the row number column (\<open>insert.rs\<close>, \<open>row_number_column.rs\<close>).

  The syntax tree of sqlparser is the part of it the code looks at. Table commitments and
  their arithmetic are proof-of-sql's: they enter through \<open>commitment_api\<close>, one per scheme.
\<close>

section \<open>Table definitions\<close>

datatype timezone_info = TzNone | TzWith | TzWithout | TzTz

datatype exact_number_info = NumNone | NumPrecision u64 | NumPrecisionAndScale u64 u64

text \<open>
  The sqlparser data types the conversion distinguishes; \<open>SqlOtherType\<close> is any of the types it
  lists as unsupported, by name.
\<close>

datatype sql_data_type =
    SqlBoolean | SqlTinyInt "u64 option" | SqlSmallInt "u64 option" | SqlInt "u64 option"
  | SqlInteger "u64 option" | SqlBigInt "u64 option" | SqlVarchar "bytes option"
  | SqlDecimal exact_number_info | SqlTimestamp "u64 option" timezone_info
  | SqlBinary "u64 option" | SqlOtherType bytes

datatype column_option = NotNull | Comment bytes | OtherOption bytes

record column_def =
  cdef_name :: ident
  cdef_data_type :: sql_data_type
  cdef_collation :: "bytes option"
  cdef_options :: "(ident option \<times> column_option) list"

datatype sql_expr =
    ExprIdentifier ident | ExprSingleQuotedString bytes | ExprUnQuotedString bytes | ExprOther bytes

record sql_option =
  so_name :: ident
  so_value :: sql_expr

record create_table_builder =
  ctb_name :: "ident list"
  ctb_columns :: "column_def list"
  ctb_with_options :: "sql_option list"
  ctb_rest :: bytes

section \<open>Column options\<close>

datatype invalid_column_options = RequiredOption column_option | UnsupportedOption column_option

definition REQUIRED_OPTIONS :: "column_option list" where
  "REQUIRED_OPTIONS = [NotNull]"

fun column_option_is_supported :: "column_option \<Rightarrow> bool" where
  "column_option_is_supported NotNull = True"
| "column_option_is_supported (Comment _) = True"
| "column_option_is_supported (OtherOption _) = False"

definition options_contain_required_option :: "column_option \<Rightarrow> column_option list \<Rightarrow> bool" where
  "options_contain_required_option required options = list_ex (\<lambda>x. x = required) options"

definition validate_column_options :: "column_option list \<Rightarrow> (unit, invalid_column_options) result" where
  "validate_column_options options =
     (case List.find (\<lambda>r. \<not> options_contain_required_option r options) REQUIRED_OPTIONS of
        Some missing \<Rightarrow> Err (RequiredOption missing)
      | None \<Rightarrow>
          (case List.find (\<lambda>x. \<not> column_option_is_supported x) options of
             Some unsupported \<Rightarrow> Err (UnsupportedOption unsupported)
           | None \<Rightarrow> Ok ()))"

section \<open>The reserved prefix\<close>

definition METADATA_PREFIX :: bytes where
  "METADATA_PREFIX = ''META''"

datatype reserved_metadata_prefix = ReservedMetadataPrefix

definition validate_idents_avoid_prefix :: "ident list \<Rightarrow> (unit, reserved_metadata_prefix) result" where
  "validate_idents_avoid_prefix idents =
     ensure (list_all (\<lambda>i. \<not> starts_with METADATA_PREFIX (to_ascii_uppercase (id_value i))) idents)
       ReservedMetadataPrefix"

definition validate_table_avoids_prefix ::
    "create_table_builder \<Rightarrow> (unit, reserved_metadata_prefix) result" where
  "validate_table_avoids_prefix table =
     bind_res (validate_idents_avoid_prefix (ctb_name table)) (\<lambda>_.
     validate_idents_avoid_prefix (map cdef_name (ctb_columns table)))"

section \<open>Column types\<close>

datatype unsupported_column_type =
    UnconstrainedDecimal | DecimalPrecision u64 | DecimalScale u64
  | DataTypeParameter sql_data_type | DataTypeUnsupported sql_data_type

text \<open>\<open>u8::try_from\<close> and \<open>i8::try_from\<close> of a \<open>u64\<close>; \<open>Precision::new\<close> is proof-of-sql's.\<close>

definition u8_try_from :: "u64 \<Rightarrow> u8 option" where
  "u8_try_from v = (if unat v \<le> 255 then Some (ucast v) else None)"

definition i8_try_from :: "u64 \<Rightarrow> i8 option" where
  "i8_try_from v = (if unat v \<le> 127 then Some (ucast v) else None)"

definition number_info_to_precision_and_scale ::
    "(u8 \<Rightarrow> u8 option) \<Rightarrow> exact_number_info \<Rightarrow> (u8 \<times> i8, unsupported_column_type) result" where
  "number_info_to_precision_and_scale precision_new info =
     bind_res (case info of
         NumNone \<Rightarrow> Err UnconstrainedDecimal
       | NumPrecision p \<Rightarrow> Ok (p, 0)
       | NumPrecisionAndScale p s \<Rightarrow> Ok (p, s)) (\<lambda>(precision, scale).
     bind_res (bind_res (ok_or (u8_try_from precision) (DecimalPrecision precision)) (\<lambda>p.
         ok_or (precision_new p) (DecimalPrecision precision))) (\<lambda>p.
     bind_res (ok_or (i8_try_from scale) (DecimalScale scale)) (\<lambda>s.
     Ok (p, s))))"

fun sql_type_to_column_type ::
    "(u8 \<Rightarrow> u8 option) \<Rightarrow> sql_data_type \<Rightarrow> (column_type, unsupported_column_type) result" where
  "sql_type_to_column_type pn SqlBoolean = Ok CTBoolean"
| "sql_type_to_column_type pn (SqlTinyInt None) = Ok CTTinyInt"
| "sql_type_to_column_type pn (SqlSmallInt None) = Ok CTSmallInt"
| "sql_type_to_column_type pn (SqlInt None) = Ok CTInt"
| "sql_type_to_column_type pn (SqlInteger None) = Ok CTInt"
| "sql_type_to_column_type pn (SqlBigInt None) = Ok CTBigInt"
| "sql_type_to_column_type pn (SqlVarchar None) = Ok CTVarChar"
| "sql_type_to_column_type pn (SqlDecimal info) =
     map_ok (\<lambda>(p, s). CTDecimal75 p s) (number_info_to_precision_and_scale pn info)"
| "sql_type_to_column_type pn (SqlTimestamp None TzNone) = Ok (CTTimestampTZ Millisecond timezone_utc)"
| "sql_type_to_column_type pn (SqlBinary None) = Ok CTVarBinary"
| "sql_type_to_column_type pn (SqlOtherType n) = Err (DataTypeUnsupported (SqlOtherType n))"
| "sql_type_to_column_type pn t = Err (DataTypeParameter t)"

section \<open>Validated table definitions\<close>

datatype invalid_create_table =
    ICTNoColumns | ICTUnsupportedColumnType unsupported_column_type | ICTNumTableIdentifiers nat
  | ICTDuplicateIdentifiers | ICTReservedMetadataPrefix | ICTColumnOptions invalid_column_options

record validated_create_table =
  vct_table :: create_table_builder
  vct_table_identifier :: "ident option \<times> ident"
  vct_schema :: "(ident \<times> column_type) list"

fun try_for_each :: "('a \<Rightarrow> (unit, 'e) result) \<Rightarrow> 'a list \<Rightarrow> (unit, 'e) result" where
  "try_for_each f [] = Ok ()"
| "try_for_each f (x # xs) = bind_res (f x) (\<lambda>_. try_for_each f xs)"

definition validate ::
    "(u8 \<Rightarrow> u8 option) \<Rightarrow> create_table_builder \<Rightarrow> (validated_create_table, invalid_create_table) result" where
  "validate pn table =
     bind_res (map_err (\<lambda>_. ICTReservedMetadataPrefix) (validate_table_avoids_prefix table)) (\<lambda>_.
     bind_res (map_err ICTColumnOptions
       (try_for_each (\<lambda>c. validate_column_options (map snd (cdef_options c))) (ctb_columns table))) (\<lambda>_.
     bind_res (case ctb_name table of
         [schema_id, table_id] \<Rightarrow> Ok (Some schema_id, table_id)
       | ids \<Rightarrow> Err (ICTNumTableIdentifiers (length ids))) (\<lambda>table_identifier.
     bind_res (collect_res (\<lambda>c. map_ok (\<lambda>t. (cdef_name c, t))
         (map_err ICTUnsupportedColumnType (sql_type_to_column_type pn (cdef_data_type c))))
         (ctb_columns table)) (\<lambda>cols.
     let schema = index_map_collect cols in
     if schema = [] then Err ICTNoColumns
     else if length schema < length (ctb_columns table) then Err ICTDuplicateIdentifiers
     else Ok \<lparr>vct_table = table, vct_table_identifier = table_identifier, vct_schema = schema\<rparr>))))"

definition into_empty_table :: "(bytes \<Rightarrow> bytes) \<Rightarrow> validated_create_table \<Rightarrow> (on_chain_table, 'e) result" where
  "into_empty_table uc v =
     bind_res (collect_res (\<lambda>(i, ct). map_ok (\<lambda>c. (i, c)) (empty_with_type ct)) (vct_schema v)) (\<lambda>cols.
     expect_res (try_from_iter uc cols))"

section \<open>Row numbers\<close>

definition ROW_NUMBER_COLUMN_NAME :: bytes where
  "ROW_NUMBER_COLUMN_NAME = METADATA_PREFIX @ ''_'' @ ''ROW_NUMBER''"

definition row_number_column_def :: column_def where
  "row_number_column_def =
     \<lparr>cdef_name = ident_new ROW_NUMBER_COLUMN_NAME, cdef_data_type = SqlBigInt None,
      cdef_collation = None, cdef_options = [(None, NotNull)]\<rparr>"

definition create_table_with_row_number_column :: "create_table_builder \<Rightarrow> create_table_builder" where
  "create_table_with_row_number_column table =
     table\<lparr>ctb_columns := ctb_columns table @ [row_number_column_def]\<rparr>"

text \<open>\<open>a..b\<close> on \<open>i64\<close>: the signed numbers from \<open>a\<close> below \<open>b\<close>.\<close>

definition i64_range :: "i64 \<Rightarrow> i64 \<Rightarrow> i64 list" where
  "i64_range a b = map word_of_int [sint a .. sint b - 1]"

definition on_chain_table_with_row_number_column ::
    "(bytes \<Rightarrow> bytes) \<Rightarrow> on_chain_table \<Rightarrow> nat \<Rightarrow> (on_chain_table, 'e) result" where
  "on_chain_table_with_row_number_column uc table row_number_offset =
     bind_res (table_num_rows table) (\<lambda>rows.
     let row_number_column = BigInt (i64_range (word_of_nat row_number_offset)
           (word_of_nat row_number_offset + word_of_nat rows))
     in expect_res (try_from_iter uc (table @ [(ident_new ROW_NUMBER_COLUMN_NAME, row_number_column)])))"

section \<open>Table commitments\<close>

text \<open>
  What the code uses of \<open>TableCommitment<C>\<close>: the end of its row range, the order of its
  columns, the commitment to columns at an offset, appending rows, and addition. \<open>'u\<close> is the
  public setup of the scheme, \<open>'s\<close> its scalar.
\<close>

datatype 'c append_outcome = Appended 'c | AppendMismatch | AppendDuplicateIdents | AppendMixedLength

record ('c, 'u, 's) commitment_api =
  ca_scalar :: "'s scalar_ops"
  ca_range_end :: "'c \<Rightarrow> nat"
  ca_column_order :: "'c \<Rightarrow> ident list"
  ca_try_from_columns_with_offset ::
    "(ident \<times> committable_column) list \<Rightarrow> nat \<Rightarrow> 'u \<Rightarrow> 'c option"
  ca_try_append_rows :: "'c \<Rightarrow> (ident \<times> committable_column) list \<Rightarrow> 'u \<Rightarrow> 'c append_outcome"
  ca_try_add :: "'c \<Rightarrow> 'c \<Rightarrow> 'c option"

definition on_chain_table_to_table_commitment ::
    "('c, 'u, 's) commitment_api \<Rightarrow> on_chain_table \<Rightarrow> nat \<Rightarrow> 'u \<Rightarrow> ('c, out_of_scalar_bounds) result" where
  "on_chain_table_to_table_commitment A table offset setup =
     bind_res (collect_res (\<lambda>x. x) (iter_committable (ca_scalar A) table)) (\<lambda>committable_table.
     unwrap_opt (ca_try_from_columns_with_offset A committable_table offset setup))"

record create_table_and_commitment_metadata =
  ctm_table_with_meta_columns :: create_table_builder
  ctm_meta_tables :: "create_table_builder list"
  ctm_meta_table_inserts :: "(table_identifier \<times> on_chain_table) list"

definition process_create_table ::
    "(bytes \<Rightarrow> bytes) \<Rightarrow> (u8 \<Rightarrow> u8 option) \<Rightarrow> ('h, 'uh, 'sh) commitment_api \<Rightarrow> ('d, 'ud, 'sd) commitment_api
     \<Rightarrow> create_table_builder \<Rightarrow> ('uh, 'ud) per_commitment_scheme \<Rightarrow> commitment_scheme_flags
     \<Rightarrow> (create_table_and_commitment_metadata \<times> ('h, 'd) opt_per_commitment_scheme, invalid_create_table) result" where
  "process_create_table uc pn H D table setups schemes =
     bind_res (validate pn table) (\<lambda>validated.
     bind_res (into_empty_table uc validated) (\<lambda>empty_table.
     bind_res (collect_res (\<lambda>setup. expect_res (transpose_result
         (any_map (on_chain_table_to_table_commitment H empty_table 0)
            (on_chain_table_to_table_commitment D empty_table 0) setup)))
         (per_into_flat_iter (per_select setups schemes))) (\<lambda>empty_commitments.
     let table_with_meta_columns = create_table_with_row_number_column table in
     Ok (\<lparr>ctm_table_with_meta_columns = table_with_meta_columns, ctm_meta_tables = [],
          ctm_meta_table_inserts = []\<rparr>, per_from_iter empty_commitments))))"

section \<open>Snapshots\<close>

datatype process_create_table_from_snapshot_error =
  PSInvalidCreateTable invalid_create_table | PSInappropriateSnapshotCommitments

definition option_zip :: "'a option \<times> 'b option \<Rightarrow> ('a \<times> 'b) option" where
  "option_zip p = (case p of (Some a, Some b) \<Rightarrow> Some (a, b) | _ \<Rightarrow> None)"

definition try_add_table_commitments ::
    "('c, 'u, 's) commitment_api \<Rightarrow> 'c \<times> 'c
     \<Rightarrow> ('c, process_create_table_from_snapshot_error) result" where
  "try_add_table_commitments A p = ok_or (ca_try_add A (fst p) (snd p)) PSInappropriateSnapshotCommitments"

definition process_create_table_from_snapshot ::
    "(bytes \<Rightarrow> bytes) \<Rightarrow> (u8 \<Rightarrow> u8 option) \<Rightarrow> ('h, 'uh, 'sh) commitment_api \<Rightarrow> ('d, 'ud, 'sd) commitment_api
     \<Rightarrow> create_table_builder \<Rightarrow> ('uh, 'ud) per_commitment_scheme \<Rightarrow> ('h, 'd) opt_per_commitment_scheme
     \<Rightarrow> (create_table_and_commitment_metadata \<times> ('h, 'd) opt_per_commitment_scheme,
         process_create_table_from_snapshot_error) result" where
  "process_create_table_from_snapshot uc pn H D table setups snapshot_commitments =
     (let schemes = per_to_flags snapshot_commitments in
     bind_res (map_err PSInvalidCreateTable (process_create_table uc pn H D table setups schemes))
       (\<lambda>(metadata, empty_commitments).
     bind_res (collect_res (\<lambda>x. transpose_result
         (any_map (try_add_table_commitments H) (try_add_table_commitments D) x))
         (per_into_flat_iter (per_map option_zip option_zip (per_zip empty_commitments snapshot_commitments))))
       (\<lambda>validated.
     Ok (metadata, per_from_iter validated))))"

section \<open>Inserts\<close>

datatype append_on_chain_table_error = AOTColumnCommitmentsMismatch | AOTOutOfScalarBounds

datatype process_insert_error =
    PIAppendOnChainTable append_on_chain_table_error | PITableCommitmentRangeMismatch
  | PITableCommitmentColumnOrderMismatch | PINoCommitments

definition get_column_order :: "('c, 'u, 's) commitment_api \<Rightarrow> 'c \<Rightarrow> 'c \<times> ident list" where
  "get_column_order A c = (c, ca_column_order A c)"

definition get_table_commitment_range_end :: "('c, 'u, 's) commitment_api \<Rightarrow> 'c \<Rightarrow> 'c \<times> nat" where
  "get_table_commitment_range_end A c = (c, ca_range_end A c)"

definition append_on_chain_table_to_table_commitment ::
    "('c, 'u, 's) commitment_api \<Rightarrow> on_chain_table \<Rightarrow> 'c \<times> 'u \<Rightarrow> ('c, append_on_chain_table_error) result" where
  "append_on_chain_table_to_table_commitment A table input =
     bind_res (map_err (\<lambda>_. AOTOutOfScalarBounds)
       (collect_res (\<lambda>x. x) (iter_committable (ca_scalar A) table))) (\<lambda>committable_table.
     case ca_try_append_rows A (fst input) committable_table (snd input) of
       Appended c \<Rightarrow> Ok c
     | AppendMismatch \<Rightarrow> Err AOTColumnCommitmentsMismatch
     | AppendDuplicateIdents \<Rightarrow> Panic
     | AppendMixedLength \<Rightarrow> Panic)"

text \<open>\<open>Itertools::all_equal_value\<close>: \<open>Inr\<close> the common value, \<open>Inl\<close> whether there were values.\<close>

definition all_equal_value :: "'a list \<Rightarrow> bool + 'a" where
  "all_equal_value xs =
     (case xs of [] \<Rightarrow> Inl False | x # _ \<Rightarrow> if list_all (\<lambda>y. y = x) xs then Inr x else Inl True)"

record insert_and_commitment_metadata =
  icm_insert_with_meta_columns :: on_chain_table
  icm_meta_table_inserts :: "(table_identifier \<times> on_chain_table) list"

definition process_insert ::
    "(bytes \<Rightarrow> bytes) \<Rightarrow> ('h, 'uh, 'sh) commitment_api \<Rightarrow> ('d, 'ud, 'sd) commitment_api
     \<Rightarrow> table_identifier \<Rightarrow> on_chain_table \<Rightarrow> ('h, 'd) opt_per_commitment_scheme
     \<Rightarrow> ('uh, 'ud) per_commitment_scheme
     \<Rightarrow> (insert_and_commitment_metadata \<times> ('h, 'd) opt_per_commitment_scheme, process_insert_error) result" where
  "process_insert uc H D table_identifier insert_data previous_commitments setups =
     (let with_counts = map (\<lambda>x. any_unzip (any_map (get_table_commitment_range_end H)
            (get_table_commitment_range_end D) x)) (per_into_flat_iter previous_commitments);
          row_counts = map (any_unwrap \<circ> snd) with_counts;
          previous_commitments = per_from_iter (map fst with_counts) in
     bind_res (case all_equal_value row_counts of
         Inr n \<Rightarrow> Ok n
       | Inl unequal \<Rightarrow> Err (if unequal then PITableCommitmentRangeMismatch else PINoCommitments)) (\<lambda>row_count.
     let with_orders = map (\<lambda>x. any_unzip (any_map (get_column_order H) (get_column_order D) x))
           (per_into_flat_iter previous_commitments);
         column_orders = map (any_unwrap \<circ> snd) with_orders;
         previous_commitments = per_from_iter (map fst with_orders) in
     bind_res (case all_equal_value column_orders of
         Inr column_order \<Rightarrow> Ok column_order
       | Inl unequal \<Rightarrow> Err (if unequal then PITableCommitmentColumnOrderMismatch else PINoCommitments))
       (\<lambda>column_order.
     let insert_data = with_column_order insert_data column_order;
         commitments_and_setups = per_into_flat_iter (per_map option_zip option_zip
           (per_zip previous_commitments (per_map Some Some setups))) in
     bind_res (map_err PIAppendOnChainTable (collect_res (\<lambda>x. transpose_result
         (any_map (append_on_chain_table_to_table_commitment H insert_data)
            (append_on_chain_table_to_table_commitment D insert_data) x)) commitments_and_setups)) (\<lambda>commitments.
     bind_res (on_chain_table_with_row_number_column uc insert_data row_count) (\<lambda>insert_with_meta_columns.
     Ok (\<lparr>icm_insert_with_meta_columns = insert_with_meta_columns, icm_meta_table_inserts = []\<rparr>,
       per_from_iter commitments))))))"

section \<open>What the commitment library promises\<close>

text \<open>
  Committing to one or more columns with different identifiers and one length succeeds and covers the
  rows behind the offset; appending such columns either extends the range by their rows,
  keeping the column order, or reports a mismatch.
\<close>

definition columns_ok :: "(ident \<times> committable_column) list \<Rightarrow> nat \<Rightarrow> bool" where
  "columns_ok cols n \<longleftrightarrow> cols \<noteq> [] \<and> distinct (map fst cols) \<and> list_all (\<lambda>(i, c). cc_len c = n) cols"

definition commitment_api_laws :: "('c, 'u, 's) commitment_api \<Rightarrow> bool" where
  "commitment_api_laws A \<longleftrightarrow>
     (\<forall>cols n offset u. columns_ok cols n \<longrightarrow>
        (\<exists>c. ca_try_from_columns_with_offset A cols offset u = Some c
           \<and> ca_range_end A c = offset + n \<and> ca_column_order A c = map fst cols)) \<and>
     (\<forall>c cols n u. columns_ok cols n \<longrightarrow>
        (case ca_try_append_rows A c cols u of
           Appended c' \<Rightarrow> ca_range_end A c' = ca_range_end A c + n \<and> ca_column_order A c' = ca_column_order A c
         | AppendMismatch \<Rightarrow> True
         | _ \<Rightarrow> False))"

text \<open>All commitments of a table end at the same row and have the same column order.\<close>

definition commitments_agree ::
    "('h, 'uh, 'sh) commitment_api \<Rightarrow> ('d, 'ud, 'sd) commitment_api
     \<Rightarrow> ('h, 'd) opt_per_commitment_scheme \<Rightarrow> nat \<Rightarrow> ident list \<Rightarrow> bool" where
  "commitments_agree H D p n order \<longleftrightarrow>
     (case pc_hyper_kzg p of None \<Rightarrow> True | Some h \<Rightarrow> ca_range_end H h = n \<and> ca_column_order H h = order) \<and>
     (case pc_dynamic_dory p of None \<Rightarrow> True | Some d \<Rightarrow> ca_range_end D d = n \<and> ca_column_order D d = order)"

section \<open>Facts about row numbers and columns\<close>

lemma sint_word_of_nat_i64: "n < 2 ^ 63 \<Longrightarrow> sint (word_of_nat n :: i64) = int n"
  by (simp add: sint_uint unsigned_of_nat take_bit_nat_eq_self signed_take_bit_int_eq_self)

lemma i64_range_nat:
  assumes "n + r < 2 ^ 63"
  shows "i64_range (word_of_nat n) (word_of_nat n + word_of_nat r) = map word_of_nat [n..<n + r]"
proof -
  have "sint (word_of_nat n :: i64) = int n"
    using assms by (intro sint_word_of_nat_i64) simp
  moreover have "sint (word_of_nat n + word_of_nat r :: i64) = int (n + r)"
    using sint_word_of_nat_i64[OF assms] by simp
  moreover have "[int n .. int (n + r) - 1] = map int [n..<n + r]"
    by (rule nth_equalityI) (auto simp: nth_upto)
  ultimately show ?thesis by (simp add: i64_range_def)
qed

lemma try_to_committable_len:
  "try_to_committable_column S c = Ok cc \<Longrightarrow> cc_len cc = col_len c"
  by (cases c) (auto simp: map_ok_Ok_iff dest: collect_res_Ok_length)

lemma iter_committable_Ok:
  assumes "collect_res (\<lambda>x. x) (iter_committable S t) = Ok cols"
  shows "map fst cols = map fst t \<and> map (cc_len \<circ> snd) cols = map (col_len \<circ> snd) t"
  using assms unfolding iter_committable_def
proof (induction t arbitrary: cols)
  case (Cons x t)
  then show ?case by (cases x) (auto simp: res_Ok_iff dest: try_to_committable_len)
qed simp

lemma iter_committable_columns_ok:
  assumes "collect_res (\<lambda>x. x) (iter_committable S t) = Ok cols"
    and "distinct (map fst t)" "list_all (\<lambda>(i, c). col_len c = n) t" "t \<noteq> []"
  shows "columns_ok cols n"
proof -
  note e = iter_committable_Ok[OF assms(1)]
  have "list_all (\<lambda>x. x = n) (map (cc_len \<circ> snd) cols)"
    unfolding conjunct2[OF e] using assms(3) by (auto simp: list_all_iff)
  then have "list_all (\<lambda>(i, c). cc_len c = n) cols"
    by (simp add: list_all_iff case_prod_beta)
  moreover have "cols \<noteq> []" using e assms(4) by auto
  ultimately show ?thesis using e assms(2) by (simp add: columns_ok_def)
qed

lemma iter_committable_not_Panic: "collect_res (\<lambda>x. x) (iter_committable S t) \<noteq> Panic"
proof -
  have dec: "collect_res (\<lambda>v. map_ok f (u256_to_scalar S v)) vs \<noteq> Panic" for f :: "'a \<Rightarrow> 'b" and vs
    by (induction vs) (auto simp: u256_to_scalar_def Let_def bind_res_def map_ok_def split: result.splits)
  have "try_to_committable_column S c \<noteq> Panic" for c
    using dec by (cases c) (auto simp: map_ok_def split: result.splits)
  then show ?thesis
    by (induction t) (auto simp: iter_committable_def bind_res_def map_ok_def split: result.splits)
qed

lemma append_commitment_cases:
  assumes "commitment_api_laws A" "distinct (map fst t)" "list_all (\<lambda>(i, c). col_len c = n) t" "t \<noteq> []"
  shows "case append_on_chain_table_to_table_commitment A t (c, u) of
      Ok c' \<Rightarrow> ca_range_end A c' = ca_range_end A c + n \<and> ca_column_order A c' = ca_column_order A c
    | Err e \<Rightarrow> True
    | Panic \<Rightarrow> False"
proof (cases "collect_res (\<lambda>x. x) (iter_committable (ca_scalar A) t)")
  case (Ok cols)
  then have "columns_ok cols n" by (rule iter_committable_columns_ok) (use assms in auto)
  then have "case ca_try_append_rows A c cols u of
      Appended c' \<Rightarrow> ca_range_end A c' = ca_range_end A c + n \<and> ca_column_order A c' = ca_column_order A c
    | AppendMismatch \<Rightarrow> True | _ \<Rightarrow> False"
    using assms(1) unfolding commitment_api_laws_def by blast
  then show ?thesis
    using Ok by (auto simp: append_on_chain_table_to_table_commitment_def split: append_outcome.splits)
next
  case (Err e)
  then show ?thesis by (simp add: append_on_chain_table_to_table_commitment_def)
next
  case Panic
  then show ?thesis using iter_committable_not_Panic by blast
qed

lemma with_column_order_facts:
  assumes "distinct (map fst t)" "list_all (\<lambda>(i, c). col_len c = n) t" "t \<noteq> []"
  shows "distinct (map fst (with_column_order t order))"
    "list_all (\<lambda>(i, c). col_len c = n) (with_column_order t order)"
    "with_column_order t order \<noteq> []" "set (with_column_order t order) = set t"
proof -
  note m = with_column_order_mset[OF assms(1), of order]
  show s: "set (with_column_order t order) = set t" using m by (rule mset_eq_setD)
  show "distinct (map fst (with_column_order t order))"
    using assms(1) m by (metis mset_eq_imp_distinct_iff mset_map)
  show "list_all (\<lambda>(i, c). col_len c = n) (with_column_order t order)"
    using assms(2) s by (simp add: list_all_iff)
  show "with_column_order t order \<noteq> []" using assms(3) s by fastforce
qed

lemma row_number_column_eq:
  assumes "distinct (map fst t)" "list_all (\<lambda>(i, c). col_len c = r) t" "t \<noteq> []"
    and "\<forall>(i, c) \<in> set t. uc (id_value i) = id_value i"
    and "uc ROW_NUMBER_COLUMN_NAME = ROW_NUMBER_COLUMN_NAME" "n + r < 2 ^ 63"
  shows "on_chain_table_with_row_number_column uc t n =
    Ok (AList.update (ident_new ROW_NUMBER_COLUMN_NAME) (BigInt (map word_of_nat [n..<n + r])) t)"
proof -
  let ?col = "BigInt (map word_of_nat [n..<n + r])"
  let ?cols = "t @ [(ident_new ROW_NUMBER_COLUMN_NAME, ?col)]"
  have rows: "table_num_rows t = Ok r"
    using assms(2,3) by (cases t) (auto simp: table_num_rows_def)
  have up: "map (\<lambda>(i, c). (upper_ident uc i, c)) ?cols = ?cols"
    using assms(4,5) by (auto simp: upper_ident_def ident_new_def intro!: map_idI)
  have hd: "col_len (snd (hd ?cols)) = r" using assms(2,3) by (cases t) auto
  have "try_from_iter uc ?cols = Ok (index_map_collect ?cols)"
    unfolding try_from_iter_Ok up hd using assms(2) by (auto simp: list_all_iff)
  moreover have "index_map_collect ?cols = AList.update (ident_new ROW_NUMBER_COLUMN_NAME) ?col t"
    using index_map_collect_id[OF assms(1)] by (simp add: index_map_collect_snoc)
  ultimately show ?thesis
    by (simp add: on_chain_table_with_row_number_column_def rows i64_range_nat[OF assms(6)])
qed

section \<open>Facts about inserts\<close>

definition append_scheme ::
    "('c, 'u, 's) commitment_api \<Rightarrow> on_chain_table \<Rightarrow> 'c option \<Rightarrow> 'u
     \<Rightarrow> ('c option, append_on_chain_table_error) result" where
  "append_scheme A t c u =
     (case c of None \<Rightarrow> Ok None | Some c \<Rightarrow> map_ok Some (append_on_chain_table_to_table_commitment A t (c, u)))"

text \<open>\<open>process_insert\<close> on commitments that agree: append per scheme, then number the rows.\<close>

lemma process_insert_agree:
  assumes "p \<noteq> per_default" "commitments_agree H D p n order"
  shows "process_insert uc H D t ins p setups =
    (let ins' = with_column_order ins order in
     bind_res (map_err PIAppendOnChainTable (append_scheme H ins' (pc_hyper_kzg p) (pc_hyper_kzg setups))) (\<lambda>h.
     bind_res (map_err PIAppendOnChainTable (append_scheme D ins' (pc_dynamic_dory p) (pc_dynamic_dory setups))) (\<lambda>d.
     bind_res (on_chain_table_with_row_number_column uc ins' n) (\<lambda>t'.
     Ok (\<lparr>icm_insert_with_meta_columns = t', icm_meta_table_inserts = []\<rparr>,
       \<lparr>pc_hyper_kzg = h, pc_dynamic_dory = d\<rparr>)))))"
proof (cases p)
  case (fields h d)
  let ?ins = "with_column_order ins order"
  show ?thesis
  proof (cases h)
    case None
    then obtain d' where d: "d = Some d'" using assms(1) fields by (cases d) (auto simp: per_default_def)
    show ?thesis
      using assms(2) unfolding fields None d
      by (cases "append_on_chain_table_to_table_commitment D ?ins (d', pc_dynamic_dory setups)")
        (simp_all add: process_insert_def per_into_flat_iter_eq commitments_agree_def all_equal_value_def
          get_table_commitment_range_end_def get_column_order_def per_map_def per_zip_def option_zip_def
          append_scheme_def)
  next
    case (Some h')
    show ?thesis
      using assms(2) unfolding fields Some
      by (cases d; cases "append_on_chain_table_to_table_commitment H ?ins (h', pc_hyper_kzg setups)";
          cases "append_on_chain_table_to_table_commitment D ?ins (the d, pc_dynamic_dory setups)")
        (simp_all add: process_insert_def per_into_flat_iter_eq commitments_agree_def all_equal_value_def
          get_table_commitment_range_end_def get_column_order_def per_map_def per_zip_def option_zip_def
          append_scheme_def)
  qed
qed

lemma process_insert_no_commitments:
  "process_insert uc H D t ins per_default setups = Err PINoCommitments"
  by (simp add: process_insert_def per_into_flat_iter_eq per_default_def all_equal_value_def)

lemma process_insert_range_mismatch:
  "ca_range_end H h \<noteq> ca_range_end D d \<Longrightarrow>
   process_insert uc H D t ins \<lparr>pc_hyper_kzg = Some h, pc_dynamic_dory = Some d\<rparr> setups =
     Err PITableCommitmentRangeMismatch"
  by (simp add: process_insert_def per_into_flat_iter_eq all_equal_value_def
      get_table_commitment_range_end_def)

lemma append_scheme_cases:
  assumes "commitment_api_laws A" "distinct (map fst t)" "list_all (\<lambda>(i, c). col_len c = r) t" "t \<noteq> []"
  shows "case append_scheme A t c u of
      Ok c' \<Rightarrow> (c' = None \<longleftrightarrow> c = None) \<and> (\<forall>x y. c = Some x \<longrightarrow> c' = Some y \<longrightarrow>
        ca_range_end A y = ca_range_end A x + r \<and> ca_column_order A y = ca_column_order A x)
    | Err e \<Rightarrow> True
    | Panic \<Rightarrow> False"
proof (cases c)
  case (Some x)
  then show ?thesis
    using append_commitment_cases[OF assms, of x u]
    by (auto simp: append_scheme_def map_ok_def split: result.splits)
qed (simp add: append_scheme_def)

definition insert_ok :: "(bytes \<Rightarrow> bytes) \<Rightarrow> on_chain_table \<Rightarrow> nat \<Rightarrow> bool" where
  "insert_ok uc t r \<longleftrightarrow> table_wf uc t \<and> table_num_rows t = (Ok r :: (nat, unit) result)"

lemma insert_okD:
  assumes "unicode_upper uc" "insert_ok uc t r"
  shows "distinct (map fst t)" "list_all (\<lambda>(i, c). col_len c = r) t" "t \<noteq> []"
    "\<forall>(i, c) \<in> set t. uc (id_value i) = id_value i"
  using assms
  by (cases t; auto simp: insert_ok_def table_wf_def table_num_rows_def unicode_upper_def list_all_iff)+

lemma row_number_name_upper: "unicode_upper uc \<Longrightarrow> uc ROW_NUMBER_COLUMN_NAME = ROW_NUMBER_COLUMN_NAME"
proof -
  have "ascii ROW_NUMBER_COLUMN_NAME" "to_ascii_uppercase ROW_NUMBER_COLUMN_NAME = ROW_NUMBER_COLUMN_NAME"
    by code_simp+
  then show "unicode_upper uc \<Longrightarrow> uc ROW_NUMBER_COLUMN_NAME = ROW_NUMBER_COLUMN_NAME"
    by (auto simp: unicode_upper_def)
qed

lemma process_insert_cases:
  assumes laws: "commitment_api_laws H" "commitment_api_laws D"
    and uc: "unicode_upper uc" and ins: "insert_ok uc ins r" and b: "n + r < 2 ^ 63"
    and p: "p \<noteq> per_default" "commitments_agree H D p n order"
  shows "case process_insert uc H D t ins p setups of
      Ok (m, q) \<Rightarrow> per_to_flags q = per_to_flags p \<and> commitments_agree H D q (n + r) order
        \<and> icm_insert_with_meta_columns m =
            AList.update (ident_new ROW_NUMBER_COLUMN_NAME) (BigInt (map word_of_nat [n..<n + r]))
              (with_column_order ins order)
    | Err e \<Rightarrow> \<exists>x. e = PIAppendOnChainTable x
    | Panic \<Rightarrow> False"
proof -
  note i = insert_okD[OF uc ins]
  let ?t = "with_column_order ins order"
  note w = with_column_order_facts[OF i(1-3), of order]
  have rn: "on_chain_table_with_row_number_column uc ?t n =
      (Ok :: on_chain_table \<Rightarrow> (on_chain_table, process_insert_error) result) (AList.update (ident_new ROW_NUMBER_COLUMN_NAME) (BigInt (map word_of_nat [n..<n + r])) ?t)"
    by (rule row_number_column_eq)
      (use w i(4) row_number_name_upper[OF uc] b in \<open>simp_all\<close>)
  note ch = append_scheme_cases[OF laws(1) w(1-3), of "pc_hyper_kzg p" "pc_hyper_kzg setups"]
  note cd = append_scheme_cases[OF laws(2) w(1-3), of "pc_dynamic_dory p" "pc_dynamic_dory setups"]
  show ?thesis
    unfolding process_insert_agree[OF p] Let_def
    using ch cd p(2) rn
    by (cases "append_scheme H ?t (pc_hyper_kzg p) (pc_hyper_kzg setups)";
        cases "append_scheme D ?t (pc_dynamic_dory p) (pc_dynamic_dory setups)")
      (auto simp: per_to_flags_def commitments_agree_def split: option.splits)
qed

section \<open>Facts about table definitions\<close>

lemma number_info_Ok:
  "number_info_to_precision_and_scale pn info = Ok (p, s) \<longleftrightarrow>
     (\<exists>pr sc. (info = NumPrecision pr \<and> sc = 0 \<or> info = NumPrecisionAndScale pr sc)
        \<and> unat pr \<le> 255 \<and> pn (ucast pr) = Some p \<and> unat sc \<le> 127 \<and> s = ucast sc)"
  by (cases info) (auto simp: number_info_to_precision_and_scale_def res_Ok_iff u8_try_from_def i8_try_from_def)

lemma sql_type_not_scalar: "sql_type_to_column_type pn t \<noteq> Ok CTScalar"
  by (cases "(pn, t)" rule: sql_type_to_column_type.cases) (auto simp: map_ok_Ok_iff)

lemma empty_with_type_Ok: "ct \<noteq> CTScalar \<Longrightarrow> \<exists>c. empty_with_type ct = Ok c \<and> col_len c = 0"
  by (cases ct) auto

lemma try_for_each_Ok: "try_for_each f xs = Ok u \<longleftrightarrow> (\<forall>x \<in> set xs. f x = Ok ())"
  by (induction xs) (auto simp: res_Ok_iff)

lemma find_None_iff: "List.find P xs = None \<longleftrightarrow> (\<forall>x \<in> set xs. \<not> P x)"
  by (induction xs) auto

lemma validate_column_options_Ok:
  "validate_column_options opts = Ok u \<longleftrightarrow> NotNull \<in> set opts \<and> list_all column_option_is_supported opts"
proof -
  have "List.find (\<lambda>x. \<not> column_option_is_supported x) opts = None \<longleftrightarrow> list_all column_option_is_supported opts"
    by (simp add: find_None_iff list_all_iff)
  then show ?thesis
    by (auto simp: validate_column_options_def REQUIRED_OPTIONS_def options_contain_required_option_def
        list_ex_iff split: option.splits if_splits)
qed

lemma index_map_collect_length: "length (index_map_collect kvs) \<le> length kvs"
proof (induction kvs rule: rev_induct)
  case (snoc kv kvs)
  have "length (AList.update k v m) \<le> Suc (length m)" for k v and m :: "('a \<times> 'b) list"
    by (induction m) auto
  then show ?case using snoc by (simp add: index_map_collect_snoc) (meson le_trans Suc_le_mono)
qed (simp add: index_map_collect_def)

lemma index_map_collect_full:
  "length (index_map_collect kvs) = length kvs \<Longrightarrow> distinct (map fst kvs)"
proof (induction kvs rule: rev_induct)
  case (snoc kv kvs)
  let ?m = "index_map_collect kvs"
  have keys: "fst ` set ?m = fst ` set kvs"
    by (metis collect_map_of dom_map_of_conv_image_fst set_rev)
  have len: "length (AList.update k v m) = (if k \<in> fst ` set m then length m else Suc (length m))"
    for k v and m :: "('a \<times> 'b) list"
    by (induction m) auto
  have "fst kv \<notin> fst ` set ?m"
    using snoc.prems index_map_collect_length[of kvs] by (auto simp: index_map_collect_snoc len split: if_splits)
  moreover from this have "length ?m = length kvs"
    using snoc.prems by (simp add: index_map_collect_snoc len)
  ultimately show ?case using snoc.IH keys by auto
qed simp

lemma validate_Ok:
  assumes "validate pn table = Ok v"
  shows "list_all (\<lambda>i. \<not> starts_with METADATA_PREFIX (to_ascii_uppercase (id_value i)))
      (ctb_name table @ map cdef_name (ctb_columns table))"
    "list_all (\<lambda>c. NotNull \<in> snd ` set (cdef_options c)
        \<and> list_all column_option_is_supported (map snd (cdef_options c))) (ctb_columns table)"
    "length (ctb_name table) = 2"
    "ctb_columns table \<noteq> []" "distinct (map cdef_name (ctb_columns table))"
    "list_all2 (\<lambda>c x. fst x = cdef_name c \<and> sql_type_to_column_type pn (cdef_data_type c) = Ok (snd x))
        (ctb_columns table) (vct_schema v)"
proof -
  from assms obtain cols where
    pre: "validate_table_avoids_prefix table = Ok ()" and
    opt: "try_for_each (\<lambda>c. validate_column_options (map snd (cdef_options c))) (ctb_columns table) = Ok ()" and
    cols: "collect_res (\<lambda>c. map_ok (\<lambda>t. (cdef_name c, t))
         (map_err ICTUnsupportedColumnType (sql_type_to_column_type pn (cdef_data_type c))))
         (ctb_columns table) = Ok cols" and
    ne: "index_map_collect cols \<noteq> []" and
    full: "\<not> length (index_map_collect cols) < length (ctb_columns table)" and
    v: "vct_schema v = index_map_collect cols" and
    name: "length (ctb_name table) = 2"
    by (auto simp: validate_def Let_def res_Ok_iff split: if_splits list.splits)
  show "list_all (\<lambda>i. \<not> starts_with METADATA_PREFIX (to_ascii_uppercase (id_value i)))
      (ctb_name table @ map cdef_name (ctb_columns table))"
    using pre by (auto simp: validate_table_avoids_prefix_def validate_idents_avoid_prefix_def res_Ok_iff)
  show "list_all (\<lambda>c. NotNull \<in> snd ` set (cdef_options c)
        \<and> list_all column_option_is_supported (map snd (cdef_options c))) (ctb_columns table)"
    using opt by (simp add: try_for_each_Ok validate_column_options_Ok list_all_iff)
  have c2: "list_all2 (\<lambda>c x. fst x = cdef_name c \<and> sql_type_to_column_type pn (cdef_data_type c) = Ok (snd x))
      (ctb_columns table) cols"
    using cols unfolding collect_res_Ok_iff by (rule list_all2_mono) (auto simp: res_Ok_iff)
  then have len: "length cols = length (ctb_columns table)" by (simp add: list_all2_lengthD)
  then have "length (index_map_collect cols) = length cols"
    using full index_map_collect_length[of cols] by simp
  then have d: "distinct (map fst cols)" by (rule index_map_collect_full)
  have "map fst cols = map cdef_name (ctb_columns table)"
    using c2 by (induction rule: list_all2_induct) auto
  then show "distinct (map cdef_name (ctb_columns table))" using d by simp
  show "list_all2 (\<lambda>c x. fst x = cdef_name c \<and> sql_type_to_column_type pn (cdef_data_type c) = Ok (snd x))
        (ctb_columns table) (vct_schema v)"
    using c2 by (simp add: v index_map_collect_id[OF d])
  show "ctb_columns table \<noteq> []" using ne len by (auto simp: index_map_collect_Nil)
  show "length (ctb_name table) = 2" by (rule name)
qed

lemma index_map_collect_keys: "map fst (index_map_collect kvs) = index_set_collect (map fst kvs)"
proof (induction kvs rule: rev_induct)
  case (snoc kv kvs)
  then show ?case
    by (simp add: index_map_collect_snoc index_set_collect_def update_keys flip: snoc.IH)
qed (simp add: index_map_collect_def index_set_collect_def)

text \<open>The identifiers of the committed columns: the defined ones, upper-cased.\<close>

definition committed_columns :: "(bytes \<Rightarrow> bytes) \<Rightarrow> create_table_builder \<Rightarrow> ident list" where
  "committed_columns uc table = index_set_collect (map (upper_ident uc \<circ> cdef_name) (ctb_columns table))"

lemma into_empty_table_Ok:
  assumes "validate pn table = Ok v"
  obtains t where "into_empty_table uc v = (Ok t :: (on_chain_table, 'e) result)"
    "t \<noteq> []" "distinct (map fst t)" "list_all (\<lambda>(i, c). col_len c = 0) t"
    "map fst t = committed_columns uc table"
proof -
  note v = validate_Ok[OF assms]
  define mk where "mk = (\<lambda>x :: ident \<times> column_type.
    (fst x, (case empty_with_type (snd x) of Ok c \<Rightarrow> c | (_ :: (on_chain_column, 'e) result) \<Rightarrow> Boolean [])))"
  have ns: "snd x \<noteq> CTScalar" if "x \<in> set (vct_schema v)" for x
    using v(6) that sql_type_not_scalar by (fastforce simp: list_all2_conv_all_nth in_set_conv_nth)
  have step: "(case x of (i, ct) \<Rightarrow> map_ok (\<lambda>c. (i, c)) (empty_with_type ct)) =
      (Ok (mk x) :: (ident \<times> on_chain_column, 'e) result)" and len: "col_len (snd (mk x)) = 0"
    if "x \<in> set (vct_schema v)" for x
    using empty_with_type_Ok[OF ns[OF that], where 'a = 'e] by (auto simp: mk_def split: prod.split)
  have coll: "collect_res (\<lambda>(i, ct). map_ok (\<lambda>c. (i, c)) (empty_with_type ct)) (vct_schema v) =
      (Ok (map mk (vct_schema v)) :: ((ident \<times> on_chain_column) list, 'e) result)"
    by (rule collect_res_all_Ok) (rule step)
  define cols where "cols = map mk (vct_schema v)"
  have ne: "cols \<noteq> []" using v(4,6) by (auto simp: cols_def)
  have "col_len (snd x) = 0" if "x \<in> set cols" for x
  proof -
    from that obtain y where "y \<in> set (vct_schema v)" "x = mk y" unfolding cols_def set_map ..
    then show ?thesis using len by simp
  qed
  then have all0: "\<forall>(i, c) \<in> set cols. col_len c = 0" by fastforce
  have hd0: "col_len (snd (hd cols)) = 0"
    using all0 hd_in_set[OF ne] by (cases "hd cols") auto
  define t where "t = index_map_collect (map (\<lambda>(i, c). (upper_ident uc i, c)) cols)"
  have "try_from_iter uc cols = Ok t"
    unfolding try_from_iter_Ok t_def hd0 using ne all0 by simp
  then have t: "into_empty_table uc v = (Ok t :: (on_chain_table, 'e) result)"
    unfolding into_empty_table_def coll cols_def by simp
  have names: "map fst cols = map cdef_name (ctb_columns table)"
    using v(6) unfolding cols_def by (induction rule: list_all2_induct) (auto simp: mk_def)
  have "map fst (map (\<lambda>(i, c). (upper_ident uc i, c)) cols) = map (upper_ident uc) (map fst cols)"
    by (induction cols) auto
  then have "map fst t = committed_columns uc table"
    unfolding t_def index_map_collect_keys committed_columns_def names by simp
  moreover have "list_all (\<lambda>(i, c). col_len c = 0) t"
  proof -
    have "set t \<subseteq> set (map (\<lambda>(i, c). (upper_ident uc i, c)) cols)"
      unfolding t_def by (rule index_map_collect_set)
    then show ?thesis using all0 by (auto simp: list_all_iff)
  qed
  moreover have "t \<noteq> []" "distinct (map fst t)"
    using ne by (simp_all add: t_def index_map_collect_Nil)
  ultimately show thesis using that t by blast
qed

lemma empty_columns_committable:
  "list_all (\<lambda>(i, c). col_len c = 0) t \<Longrightarrow> \<exists>cols. collect_res (\<lambda>x. x) (iter_committable S t) = Ok cols"
proof (induction t)
  case (Cons x t)
  obtain i c where x: "x = (i, c)" by (cases x)
  have "\<exists>cc. try_to_committable_column S c = Ok cc"
    using Cons.prems x by (cases c) auto
  then show ?case using Cons x by (auto simp: iter_committable_def)
qed (simp add: iter_committable_def)

lemma empty_commitment:
  assumes "commitment_api_laws A" "t \<noteq> []" "distinct (map fst t)" "list_all (\<lambda>(i, c). col_len c = 0) t"
  obtains c where "on_chain_table_to_table_commitment A t 0 u = Ok c"
    "ca_range_end A c = 0" "ca_column_order A c = map fst t"
proof -
  obtain cols where cols: "collect_res (\<lambda>x. x) (iter_committable (ca_scalar A) t) = Ok cols"
    using empty_columns_committable[OF assms(4)] by blast
  have "columns_ok cols 0" by (rule iter_committable_columns_ok[OF cols assms(3,4,2)])
  then obtain c where "ca_try_from_columns_with_offset A cols 0 u = Some c" "ca_range_end A c = 0 + 0"
    "ca_column_order A c = map fst cols"
    using assms(1) unfolding commitment_api_laws_def by blast
  then show thesis
    using that[of c] iter_committable_Ok[OF cols] by (simp add: on_chain_table_to_table_commitment_def cols)
qed

lemma process_create_table_cases:
  assumes "commitment_api_laws H" "commitment_api_laws D" "validate pn table = Ok v"
  shows "\<exists>q. process_create_table uc pn H D table setups schemes =
      Ok (\<lparr>ctm_table_with_meta_columns = create_table_with_row_number_column table,
           ctm_meta_tables = [], ctm_meta_table_inserts = []\<rparr>, q)
    \<and> per_to_flags q = schemes \<and> commitments_agree H D q 0 (committed_columns uc table)"
proof -
  obtain t where t: "into_empty_table uc v = (Ok t :: (on_chain_table, invalid_create_table) result)"
    "t \<noteq> []" "distinct (map fst t)" "list_all (\<lambda>(i, c). col_len c = 0) t"
    "map fst t = committed_columns uc table"
    using into_empty_table_Ok[OF assms(3)] .
  obtain h where h: "on_chain_table_to_table_commitment H t 0 (pc_hyper_kzg setups) = Ok h"
    "ca_range_end H h = 0" "ca_column_order H h = map fst t"
    using empty_commitment[OF assms(1) t(2-4)] .
  obtain d where d: "on_chain_table_to_table_commitment D t 0 (pc_dynamic_dory setups) = Ok d"
    "ca_range_end D d = 0" "ca_column_order D d = map fst t"
    using empty_commitment[OF assms(2) t(2-4)] .
  show ?thesis
    using h d t
    by (cases "fl_hyper_kzg schemes"; cases "fl_dynamic_dory schemes"; cases schemes)
      (simp_all add: process_create_table_def assms(3) t(1) per_select_def per_into_flat_iter_eq Let_def
        per_to_flags_def commitments_agree_def per_default_def)
qed

lemma validate_not_Panic [simp]: "validate pn table \<noteq> Panic"
proof -
  have a: "validate_idents_avoid_prefix l \<noteq> Panic" for l
    by (simp add: validate_idents_avoid_prefix_def ensure_def)
  have "validate_column_options l \<noteq> Panic" for l
    by (simp add: validate_column_options_def split: option.split)
  then have b: "try_for_each (\<lambda>c. validate_column_options (map snd (cdef_options c))) l \<noteq> Panic" for l
    by (induction l) (auto simp: bind_res_def split: result.split)
  have "number_info_to_precision_and_scale pn i \<noteq> Panic" for i
    by (cases i) (auto simp: number_info_to_precision_and_scale_def ok_or_def split: option.split)
  then have c: "sql_type_to_column_type pn t \<noteq> Panic" for t
    by (cases "(pn, t)" rule: sql_type_to_column_type.cases) (auto simp: map_ok_def split: result.splits)
  have "collect_res (\<lambda>c. map_ok (\<lambda>t. (cdef_name c, t))
      (map_err ICTUnsupportedColumnType (sql_type_to_column_type pn (cdef_data_type c)))) l \<noteq> Panic" for l
    using c by (induction l) (auto simp: bind_res_def map_ok_def map_err_def split: result.splits)
  then show ?thesis
    using a b by (auto simp: validate_def validate_table_avoids_prefix_def bind_res_def map_err_def Let_def
        split: result.splits list.splits if_splits)
qed

section \<open>Sequences of inserts\<close>

fun insert_all ::
    "(bytes \<Rightarrow> bytes) \<Rightarrow> ('h, 'uh, 'sh) commitment_api \<Rightarrow> ('d, 'ud, 'sd) commitment_api
     \<Rightarrow> table_identifier \<Rightarrow> ('uh, 'ud) per_commitment_scheme \<Rightarrow> on_chain_table list
     \<Rightarrow> ('h, 'd) opt_per_commitment_scheme
     \<Rightarrow> (on_chain_table list \<times> ('h, 'd) opt_per_commitment_scheme, process_insert_error) result" where
  "insert_all uc H D t setups [] p = Ok ([], p)"
| "insert_all uc H D t setups (ins # rest) p =
     bind_res (process_insert uc H D t ins p setups) (\<lambda>(m, q).
     map_ok (\<lambda>(outs, q'). (icm_insert_with_meta_columns m # outs, q')) (insert_all uc H D t setups rest q))"

definition row_numbers :: "on_chain_table \<Rightarrow> i64 list" where
  "row_numbers t = (case get_column t (ident_new ROW_NUMBER_COLUMN_NAME) of Some (BigInt vs) \<Rightarrow> vs | _ \<Rightarrow> [])"

lemma row_numbers_update: "row_numbers (AList.update (ident_new ROW_NUMBER_COLUMN_NAME) (BigInt vs) t) = vs"
  by (simp add: row_numbers_def get_column_def update_conv)

lemma insert_all_agree:
  assumes laws: "commitment_api_laws H" "commitment_api_laws D" and uc: "unicode_upper uc"
  shows "\<lbrakk>list_all2 (insert_ok uc) inss rs; n + sum_list rs < 2 ^ 63; p \<noteq> per_default;
    commitments_agree H D p n order; insert_all uc H D t setups inss p = Ok (outs, q)\<rbrakk> \<Longrightarrow>
    concat (map row_numbers outs) = map word_of_nat [n..<n + sum_list rs]
    \<and> per_to_flags q = per_to_flags p \<and> commitments_agree H D q (n + sum_list rs) order"
proof (induction inss arbitrary: n p rs outs)
  case Nil
  then show ?case by simp
next
  case (Cons ins inss)
  obtain r rs' where rs: "rs = r # rs'" "insert_ok uc ins r" "list_all2 (insert_ok uc) inss rs'"
    using Cons.prems(1) by (auto simp: list_all2_Cons1)
  obtain m q1 outs' where step: "process_insert uc H D t ins p setups = Ok (m, q1)"
    and rest: "insert_all uc H D t setups inss q1 = Ok (outs', q)"
    and outs: "outs = icm_insert_with_meta_columns m # outs'"
    using Cons.prems(5) by (auto simp: res_Ok_iff)
  have b: "n + r < 2 ^ 63" "n + r + sum_list rs' < 2 ^ 63" using Cons.prems(2) rs(1) by simp_all
  have c: "per_to_flags q1 = per_to_flags p" "commitments_agree H D q1 (n + r) order"
    and rn: "row_numbers (icm_insert_with_meta_columns m) = map word_of_nat [n..<n + r]"
    using process_insert_cases[OF laws uc rs(2) b(1) Cons.prems(3,4), of t setups]
    by (auto simp: step row_numbers_update)
  have "q1 \<noteq> per_default" using c(1) Cons.prems(3) per_to_flags_none by metis
  from Cons.IH[OF rs(3) b(2) this c(2) rest] show ?case
    using c(1) rn outs rs(1) upt_add_eq_append[of n "n + r" "sum_list rs'"] by (simp add: add.assoc)
qed

section \<open>Properties\<close>

text \<open>
  C21. An insert into a table whose commitments agree on row count and column order never
  panics: it either fails because a value is out of bounds or the columns do not match, or it
  extends exactly the commitments that were there, all of them by the inserted rows, keeps
  their agreement, and returns the data in the commitments' column order with the row numbers
  continuing at the committed row count.
\<close>

theorem process_insert_correct:
  assumes "commitment_api_laws H" "commitment_api_laws D"
    and "unicode_upper uc" "insert_ok uc ins r" "n + r < 2 ^ 63"
    and "p \<noteq> per_default" "commitments_agree H D p n order"
  shows "case process_insert uc H D t ins p setups of
      Ok (m, q) \<Rightarrow> per_to_flags q = per_to_flags p \<and> commitments_agree H D q (n + r) order
        \<and> icm_insert_with_meta_columns m =
            AList.update (ident_new ROW_NUMBER_COLUMN_NAME) (BigInt (map word_of_nat [n..<n + r]))
              (with_column_order ins order)
    | Err e \<Rightarrow> e = PIAppendOnChainTable AOTColumnCommitmentsMismatch
        \<or> e = PIAppendOnChainTable AOTOutOfScalarBounds
    | Panic \<Rightarrow> False"
proof -
  have "x = AOTColumnCommitmentsMismatch \<or> x = AOTOutOfScalarBounds" for x
    by (cases x) auto
  then show ?thesis
    using process_insert_cases[OF assms, of t setups] by (auto split: result.splits)
qed

definition demo_scalar :: "u256 scalar_ops" where
  "demo_scalar = \<lparr>sc_max_signed = 1000, sc_from_limbs = id, sc_to_limbs = id, sc_neg = uminus,
     sc_from_string = (\<lambda>s. word_of_nat (length s)), sc_from_byte_slice_via_hash = (\<lambda>s. word_of_nat (length s))\<rparr>"

definition demo_api :: "(nat \<times> ident list, unit, u256) commitment_api" where
  "demo_api = \<lparr>ca_scalar = demo_scalar, ca_range_end = fst, ca_column_order = snd,
     ca_try_from_columns_with_offset = (\<lambda>cols offset u.
       case cols of [] \<Rightarrow> None | (i, c) # _ \<Rightarrow> Some (offset + cc_len c, map fst cols)),
     ca_try_append_rows = (\<lambda>c cols u. if map fst cols = snd c
       then (case cols of [] \<Rightarrow> AppendMismatch | (i, cc) # _ \<Rightarrow> Appended (fst c + cc_len cc, snd c))
       else AppendMismatch),
     ca_try_add = (\<lambda>a b. if snd a = snd b then Some (fst a + fst b, snd a) else None)\<rparr>"

lemma demo_api_laws: "commitment_api_laws demo_api"
  unfolding commitment_api_laws_def
  by (auto simp: demo_api_def columns_ok_def split: list.split prod.split)

definition demo_insert :: "on_chain_table" where
  "demo_insert = [(ident_new ''B'', VarChar [''x'', ''y'']), (ident_new ''A'', BigInt [7, 8])]"

lemma demo_insert_ok: "insert_ok to_ascii_uppercase demo_insert 2"
proof -
  have "''A'' = to_ascii_uppercase ''a''" "''B'' = to_ascii_uppercase ''b''" by code_simp+
  then have "''A'' \<in> range to_ascii_uppercase" "''B'' \<in> range to_ascii_uppercase" by blast+
  then show ?thesis
    by (simp add: insert_ok_def demo_insert_def table_wf_def table_num_rows_def ident_new_def)
qed

definition demo_order :: "ident list" where
  "demo_order = [ident_new ''A'', ident_new ''B'']"

theorem process_insert_correct_witness:
  "case process_insert to_ascii_uppercase demo_api demo_api \<lparr>ti_name = ''T'', ti_namespace = ''N''\<rparr>
      demo_insert \<lparr>pc_hyper_kzg = Some (5, demo_order), pc_dynamic_dory = None\<rparr>
      \<lparr>pc_hyper_kzg = (), pc_dynamic_dory = ()\<rparr> of
     Ok (m, q) \<Rightarrow> commitments_agree demo_api demo_api q 7 demo_order
       \<and> row_numbers (icm_insert_with_meta_columns m) = [5, 6]
   | _ \<Rightarrow> False"
proof -
  let ?p = "\<lparr>pc_hyper_kzg = Some (5, demo_order), pc_dynamic_dory = None :: (nat \<times> ident list) option\<rparr>"
  let ?u = "\<lparr>pc_hyper_kzg = (), pc_dynamic_dory = ()\<rparr>"
  have p: "?p \<noteq> per_default" "commitments_agree demo_api demo_api ?p 5 demo_order"
    by (simp_all add: per_default_def commitments_agree_def demo_api_def)
  have ok: "is_ok (process_insert to_ascii_uppercase demo_api demo_api
      \<lparr>ti_name = ''T'', ti_namespace = ''N''\<rparr> demo_insert ?p ?u)" by code_simp
  show ?thesis
    using process_insert_correct[OF demo_api_laws demo_api_laws unicode_upper_ascii demo_insert_ok _ p,
        of "\<lparr>ti_name = ''T'', ti_namespace = ''N''\<rparr>" ?u] ok
    by (auto simp: row_numbers_update is_ok_iff)
qed

text \<open>
  C16. Row numbers are consecutive over the life of a table: the row numbers that a sequence of
  successful inserts adds are exactly \<open>n, n+1, ...\<close> from the committed row count on, without
  gaps or repetitions, and the commitments end at the sum of the rows and still agree.
\<close>

theorem row_numbers_consecutive:
  assumes "commitment_api_laws H" "commitment_api_laws D" "unicode_upper uc"
    and "list_all2 (insert_ok uc) inss rs" "n + sum_list rs < 2 ^ 63"
    and "p \<noteq> per_default" "commitments_agree H D p n order"
    and "insert_all uc H D t setups inss p = Ok (outs, q)"
  shows "concat (map row_numbers outs) = map word_of_nat [n..<n + sum_list rs]
    \<and> per_to_flags q = per_to_flags p \<and> commitments_agree H D q (n + sum_list rs) order"
  by (rule insert_all_agree[OF assms(1-3)]) (rule assms)+

theorem row_numbers_consecutive_witness:
  "\<exists>outs q. insert_all to_ascii_uppercase demo_api demo_api \<lparr>ti_name = ''T'', ti_namespace = ''N''\<rparr>
      \<lparr>pc_hyper_kzg = (), pc_dynamic_dory = ()\<rparr> [demo_insert, demo_insert]
      \<lparr>pc_hyper_kzg = Some (0, demo_order), pc_dynamic_dory = Some (0, demo_order)\<rparr> = Ok (outs, q)
    \<and> concat (map row_numbers outs) = [0, 1, 2, 3]"
proof -
  let ?p = "\<lparr>pc_hyper_kzg = Some (0, demo_order), pc_dynamic_dory = Some (0, demo_order)\<rparr>"
  have p: "?p \<noteq> per_default" "commitments_agree demo_api demo_api ?p 0 demo_order"
    by (simp_all add: per_default_def commitments_agree_def demo_api_def)
  have "is_ok (insert_all to_ascii_uppercase demo_api demo_api \<lparr>ti_name = ''T'', ti_namespace = ''N''\<rparr>
      \<lparr>pc_hyper_kzg = (), pc_dynamic_dory = ()\<rparr> [demo_insert, demo_insert] ?p)" by code_simp
  then obtain outs q where run: "insert_all to_ascii_uppercase demo_api demo_api
      \<lparr>ti_name = ''T'', ti_namespace = ''N''\<rparr> \<lparr>pc_hyper_kzg = (), pc_dynamic_dory = ()\<rparr>
      [demo_insert, demo_insert] ?p = Ok (outs, q)"
    by (auto simp: is_ok_iff simp del: insert_all.simps)
  have "list_all2 (insert_ok to_ascii_uppercase) [demo_insert, demo_insert] [2, 2]"
    by (simp add: demo_insert_ok)
  from row_numbers_consecutive[OF demo_api_laws demo_api_laws unicode_upper_ascii this _ p run]
  have "concat (map row_numbers outs) = [0, 1, 2, 3]" by (simp add: upt_rec)
  with run show ?thesis by blast
qed

text \<open>
  C29. Creating a table fails exactly with the error of the validation of its definition and
  never panics; otherwise it returns the definition with the row number column added and
  empty commitments for exactly the schemes asked for, which start at row 0 and agree on the
  upper-cased column names.
\<close>

theorem process_create_table_correct:
  assumes "commitment_api_laws H" "commitment_api_laws D"
  shows "case process_create_table uc pn H D table setups schemes of
      Ok (m, q) \<Rightarrow> is_ok (validate pn table)
        \<and> ctm_table_with_meta_columns m = table\<lparr>ctb_columns := ctb_columns table @ [row_number_column_def]\<rparr>
        \<and> per_to_flags q = schemes \<and> commitments_agree H D q 0 (committed_columns uc table)
    | Err e \<Rightarrow> validate pn table = Err e
    | Panic \<Rightarrow> False"
proof (cases "validate pn table")
  case (Ok v)
  then show ?thesis
    using process_create_table_cases[OF assms Ok, of uc setups schemes]
    by (auto simp: create_table_with_row_number_column_def)
next
  case (Err e)
  then show ?thesis by (simp add: process_create_table_def)
qed simp

definition demo_table :: create_table_builder where
  "demo_table = \<lparr>ctb_name = [ident_new ''n'', ident_new ''t''],
     ctb_columns = [\<lparr>cdef_name = ident_new ''a'', cdef_data_type = SqlBigInt None, cdef_collation = None,
         cdef_options = [(None, NotNull)]\<rparr>],
     ctb_with_options = [], ctb_rest = []\<rparr>"

theorem process_create_table_correct_witness:
  "case process_create_table to_ascii_uppercase Some demo_api demo_api demo_table
      \<lparr>pc_hyper_kzg = (), pc_dynamic_dory = ()\<rparr> flags_all of
     Ok (m, q) \<Rightarrow> per_to_flags q = flags_all
   | _ \<Rightarrow> False"
proof -
  have "is_ok (validate Some demo_table)" by code_simp
  then show ?thesis
    using process_create_table_correct[OF demo_api_laws demo_api_laws, where uc = to_ascii_uppercase
        and pn = Some and table = demo_table and setups = "\<lparr>pc_hyper_kzg = (), pc_dynamic_dory = ()\<rparr>"
        and schemes = flags_all]
    by (auto split: result.splits)
qed

text \<open>
  What validation guarantees of an accepted table definition: two name parts, at least one
  column, pairwise different column names, no name with the reserved prefix in any case, every
  column NOT NULL with supported options only, and a schema that gives every column in order
  its converted type.
\<close>

theorem validated_create_table_sound:
  assumes "validate pn table = Ok v"
  shows "length (ctb_name table) = 2 \<and> ctb_columns table \<noteq> []
    \<and> distinct (map cdef_name (ctb_columns table))
    \<and> list_all (\<lambda>i. \<not> starts_with METADATA_PREFIX (to_ascii_uppercase (id_value i)))
        (ctb_name table @ map cdef_name (ctb_columns table))
    \<and> list_all (\<lambda>c. NotNull \<in> snd ` set (cdef_options c)
        \<and> list_all column_option_is_supported (map snd (cdef_options c))) (ctb_columns table)
    \<and> list_all2 (\<lambda>c x. fst x = cdef_name c \<and> sql_type_to_column_type pn (cdef_data_type c) = Ok (snd x))
        (ctb_columns table) (vct_schema v)"
  using validate_Ok[OF assms] by simp

theorem validated_create_table_sound_witness:
  "\<exists>v. validate Some demo_table = Ok v \<and> length (vct_schema v) = 1"
proof -
  have "is_ok (validate Some demo_table)" by code_simp
  then obtain v where v: "validate Some demo_table = Ok v" by (auto simp: is_ok_iff)
  have "length (vct_schema v) = 1"
    using validated_create_table_sound[OF v] by (auto simp: demo_table_def dest: list_all2_lengthD)
  with v show ?thesis by blast
qed

text \<open>
  A SQL decimal type is accepted exactly when it has a precision that fits in a byte and
  that the precision constructor accepts and a scale of at most 127 (0 when none is given); the
  column type then has that precision and scale. Decimals without precision are refused.
\<close>

theorem decimal_type_conversion:
  "sql_type_to_column_type pn (SqlDecimal info) = Ok ct \<longleftrightarrow>
     (\<exists>pr sc p. (info = NumPrecision pr \<and> sc = 0 \<or> info = NumPrecisionAndScale pr sc)
        \<and> unat pr \<le> 255 \<and> pn (ucast pr) = Some p \<and> unat sc \<le> 127 \<and> ct = CTDecimal75 p (ucast sc))"
  by (auto simp: map_ok_Ok_iff number_info_Ok)

text \<open>
  Creating a table from a snapshot never panics: it fails with the validation error of the
  definition, or because for some scheme the snapshot's commitment cannot be added to the empty
  commitment of the defined columns; otherwise it keeps exactly the snapshot's schemes.
\<close>

theorem process_create_table_from_snapshot_correct:
  assumes "commitment_api_laws H" "commitment_api_laws D"
  shows "case process_create_table_from_snapshot uc pn H D table setups snap of
      Ok (m, q) \<Rightarrow> is_ok (validate pn table) \<and> per_to_flags q = per_to_flags snap
        \<and> ctm_table_with_meta_columns m = create_table_with_row_number_column table
    | Err (PSInvalidCreateTable e) \<Rightarrow> validate pn table = Err e
    | Err PSInappropriateSnapshotCommitments \<Rightarrow> is_ok (validate pn table) \<and> snap \<noteq> per_default
    | Panic \<Rightarrow> False"
proof (cases "validate pn table")
  case (Ok v)
  obtain q where q: "process_create_table uc pn H D table setups (per_to_flags snap) =
      Ok (\<lparr>ctm_table_with_meta_columns = create_table_with_row_number_column table,
           ctm_meta_tables = [], ctm_meta_table_inserts = []\<rparr>, q)"
    and f: "per_to_flags q = per_to_flags snap"
    using process_create_table_cases[OF assms Ok] by blast
  show ?thesis
  proof (cases snap)
    case (fields h d)
    obtain h' d' where q': "q = \<lparr>pc_hyper_kzg = h', pc_dynamic_dory = d'\<rparr>" by (cases q)
    have "(h' = None) = (h = None)" "(d' = None) = (d = None)"
      using f fields q' by (auto simp: per_to_flags_def)
    then show ?thesis
      using Ok unfolding process_create_table_from_snapshot_def Let_def q
      by (cases h; cases d; cases "ca_try_add H (the h') (the h)"; cases "ca_try_add D (the d') (the d)")
        (auto simp: fields q' per_zip_def per_map_def option_zip_def per_into_flat_iter_eq per_to_flags_def
          per_default_def try_add_table_commitments_def)
  qed
next
  case (Err e)
  then show ?thesis by (simp add: process_create_table_from_snapshot_def process_create_table_def)
qed simp

theorem process_create_table_from_snapshot_correct_witness:
  "case process_create_table_from_snapshot to_ascii_uppercase Some demo_api demo_api demo_table
      \<lparr>pc_hyper_kzg = (), pc_dynamic_dory = ()\<rparr>
      \<lparr>pc_hyper_kzg = None, pc_dynamic_dory = Some (9, [ident_new ''A''])\<rparr> of
     Ok (m, q) \<Rightarrow> per_to_flags q = \<lparr>fl_hyper_kzg = False, fl_dynamic_dory = True\<rparr>
   | _ \<Rightarrow> False"
proof -
  let ?run = "process_create_table_from_snapshot to_ascii_uppercase Some demo_api demo_api demo_table
      \<lparr>pc_hyper_kzg = (), pc_dynamic_dory = ()\<rparr>
      \<lparr>pc_hyper_kzg = None, pc_dynamic_dory = Some (9, [ident_new ''A''])\<rparr>"
  have "is_ok ?run" by code_simp
  then show ?thesis
    using process_create_table_from_snapshot_correct[OF demo_api_laws demo_api_laws,
        where uc = to_ascii_uppercase and pn = Some and table = demo_table
        and setups = "\<lparr>pc_hyper_kzg = (), pc_dynamic_dory = ()\<rparr>"
        and snap = "\<lparr>pc_hyper_kzg = None, pc_dynamic_dory = Some (9, [ident_new ''A''])\<rparr>"]
    by (auto simp: is_ok_iff per_to_flags_def)
qed

text \<open>
  Duplicate identifiers are detected case-sensitively, while the empty table upper-cases them:
  a definition with the columns \<open>a\<close> and \<open>A\<close> is accepted, but its commitments cover one column.
\<close>

definition case_variant_table :: create_table_builder where
  "case_variant_table = \<lparr>ctb_name = [ident_new ''n'', ident_new ''t''],
     ctb_columns = [\<lparr>cdef_name = ident_new ''a'', cdef_data_type = SqlBigInt None, cdef_collation = None,
         cdef_options = [(None, NotNull)]\<rparr>,
       \<lparr>cdef_name = ident_new ''A'', cdef_data_type = SqlVarchar None, cdef_collation = None,
         cdef_options = [(None, NotNull)]\<rparr>],
     ctb_with_options = [], ctb_rest = []\<rparr>"

lemma case_variant_columns_collapse:
  "is_ok (validate Some case_variant_table)
   \<and> committed_columns to_ascii_uppercase case_variant_table = [ident_new ''A'']"
  by code_simp

end
