(* ===== verification/Pallet_Commitments.thy ===== *)
theory Pallet_Commitments
  imports Pallet_Attestation Commitment_Sql
begin

text \<open>
  The native interface (\<open>sxt-core/src/native.rs\<close>, \<open>native/src/sxt.rs\<close>) and
  \<open>pallets/commitments\<close>: the commitments of every table in storage, created with the table and
  extended with every insert.

  \<open>sxt_ext\<close> collects the code of other crates: case mapping, the precision constructor, the
  commitment library with its codecs and public setups, the postcard format of tables, and
  arrow's stream reader.
\<close>

section \<open>External code\<close>

datatype stream_outcome = StreamInvalid | StreamEmpty | StreamBatchError | StreamBatch record_batch

record ('h, 'uh, 'sh, 'd, 'ud, 'sd) sxt_ext =
  ex_uc :: "bytes \<Rightarrow> bytes"
  ex_precision_new :: "u8 \<Rightarrow> u8 option"
  ex_api_h :: "('h, 'uh, 'sh) commitment_api"
  ex_api_d :: "('d, 'ud, 'sd) commitment_api"
  ex_codec_h :: "'h table_commitment_codec"
  ex_codec_d :: "'d table_commitment_codec"
  ex_baked_setups :: "('uh, 'ud) per_commitment_scheme"
  ex_io_setups :: "('uh, 'ud) per_commitment_scheme option"
  ex_table_encode :: "on_chain_table \<Rightarrow> bytes option"
  ex_table_decode :: "bytes \<Rightarrow> (ident \<times> on_chain_column) list option"
  ex_arrow :: arrow_ext
  ex_stream_read :: "bytes \<Rightarrow> stream_outcome"

section \<open>Native interface\<close>

datatype native_error =
    NEDeserializationError | NEEmptyRecordBatchError | NEBatchReadError | NERecordBatchUnsupportedType
  | NERecordBatchContainsNulls | NERecordBatchInvalidTimezone
  | NERecordBatchUnexpectedSchemaDataMismatch | NERecordBatchDuplicateIdentifiers | NESerializationError

datatype native_commitment_error =
    NCCommitmentDeserialization | NCTableDeserialization | NCOutOfScalarBounds
  | NCColumnCommitmentsMismatch | NCTableCommitmentRangeMismatch
  | NCTableCommitmentColumnOrderMismatch | NCNoCommitments | NCCommitmentSerialization
  | NCTableSerialization

datatype on_chain_table_to_bytes_error = OTBSerialize | OTBExceedsMaxSize

fun native_error_from_column_error :: "arrow_to_on_chain_column_error \<Rightarrow> native_error" where
  "native_error_from_column_error (UnsupportedType _) = NERecordBatchUnsupportedType"
| "native_error_from_column_error UnsupportedNull = NERecordBatchContainsNulls"
| "native_error_from_column_error InvalidTimestamp = NERecordBatchInvalidTimezone"
| "native_error_from_column_error UnexpectedSchemaDataMismatch = NERecordBatchUnexpectedSchemaDataMismatch"

fun native_error_from_table_error :: "arrow_to_on_chain_table_error \<Rightarrow> native_error" where
  "native_error_from_table_error (ColumnError e) = native_error_from_column_error e"
| "native_error_from_table_error DuplicateIdentifier = NERecordBatchDuplicateIdentifiers"

fun native_error_from_append_error :: "append_on_chain_table_error \<Rightarrow> native_commitment_error" where
  "native_error_from_append_error AOTColumnCommitmentsMismatch = NCColumnCommitmentsMismatch"
| "native_error_from_append_error AOTOutOfScalarBounds = NCOutOfScalarBounds"

fun native_error_from_insert_error :: "process_insert_error \<Rightarrow> native_commitment_error" where
  "native_error_from_insert_error (PIAppendOnChainTable e) = native_error_from_append_error e"
| "native_error_from_insert_error PITableCommitmentRangeMismatch = NCTableCommitmentRangeMismatch"
| "native_error_from_insert_error PITableCommitmentColumnOrderMismatch = NCTableCommitmentColumnOrderMismatch"
| "native_error_from_insert_error PINoCommitments = NCNoCommitments"

definition on_chain_table_to_bytes ::
    "('h, 'uh, 'sh, 'd, 'ud, 'sd) sxt_ext \<Rightarrow> on_chain_table \<Rightarrow> (bytes, on_chain_table_to_bytes_error) result" where
  "on_chain_table_to_bytes E t =
     bind_res (ok_or (ex_table_encode E t) OTBSerialize) (\<lambda>bytes.
     bounded_try_from DATA_MAX_LEN bytes OTBExceedsMaxSize)"

text \<open>Deserialization goes through \<open>OnChainTable::try_from_iter\<close>.\<close>

definition on_chain_table_from_bytes ::
    "('h, 'uh, 'sh, 'd, 'ud, 'sd) sxt_ext \<Rightarrow> bytes \<Rightarrow> (on_chain_table, unit) result" where
  "on_chain_table_from_bytes E bs =
     bind_res (ok_or (ex_table_decode E bs) ()) (\<lambda>cols.
     map_err (\<lambda>_. ()) (try_from_iter (ex_uc E) cols))"

text \<open>The three versions of the host function have the same body; the second ignores its statement.\<close>

definition record_batch_to_onchain ::
    "('h, 'uh, 'sh, 'd, 'ud, 'sd) sxt_ext \<Rightarrow> row_data \<Rightarrow> (bytes, native_error) result" where
  "record_batch_to_onchain E row_data =
     bind_res (case ex_stream_read E row_data of
         StreamInvalid \<Rightarrow> Err NEDeserializationError
       | StreamEmpty \<Rightarrow> Err NEEmptyRecordBatchError
       | StreamBatchError \<Rightarrow> Err NEBatchReadError
       | StreamBatch batch \<Rightarrow> Ok batch) (\<lambda>batch.
     bind_res (map_err native_error_from_table_error
       (table_from_record_batch (ex_uc E) (ex_arrow E) batch)) (\<lambda>on_chain_table.
     map_err (\<lambda>_. NESerializationError) (on_chain_table_to_bytes E on_chain_table)))"

definition native_process_insert ::
    "('h, 'uh, 'sh, 'd, 'ud, 'sd) sxt_ext \<Rightarrow> table_identifier \<Rightarrow> bytes
     \<Rightarrow> table_commitment_bytes_per_scheme
     \<Rightarrow> (bytes \<times> table_commitment_bytes_per_scheme, native_commitment_error) result" where
  "native_process_insert E table_identifier insert_data_bytes previous_commitments_bytes =
     bind_res (map_err (\<lambda>_. NCTableDeserialization) (on_chain_table_from_bytes E insert_data_bytes)) (\<lambda>insert_data.
     bind_res (map_err (\<lambda>_. NCCommitmentDeserialization)
       (commitments_from_bytes (ex_codec_h E) (ex_codec_d E) previous_commitments_bytes)) (\<lambda>previous_commitments.
     bind_res (unwrap_opt (ex_io_setups E)) (\<lambda>setups.
     bind_res (map_err native_error_from_insert_error (process_insert (ex_uc E) (ex_api_h E) (ex_api_d E)
       table_identifier insert_data previous_commitments setups)) (\<lambda>(m, new_commitments).
     bind_res (map_err (\<lambda>_. NCTableSerialization)
       (on_chain_table_to_bytes E (icm_insert_with_meta_columns m))) (\<lambda>table_bytes.
     bind_res (map_err (\<lambda>_. NCCommitmentSerialization)
       (commitments_to_bytes (ex_codec_h E) (ex_codec_d E) new_commitments)) (\<lambda>data.
     Ok (table_bytes, data)))))))"

section \<open>Error conversions of the pallet\<close>

fun commitments_error_from_to_bytes :: "table_commitment_to_bytes_error \<Rightarrow> commitments_error" where
  "commitments_error_from_to_bytes (TooManyColumns _) = CommitmentWithTooManyColumns"
| "commitments_error_from_to_bytes BincodeEncode = SerializeCommitment"

fun commitments_error_from_column_options :: "invalid_column_options \<Rightarrow> commitments_error" where
  "commitments_error_from_column_options (RequiredOption _) = ColumnWithoutNotNull"
| "commitments_error_from_column_options (UnsupportedOption _) = ColumnWithUnsupportedOption"

fun commitments_error_from_column_type :: "unsupported_column_type \<Rightarrow> commitments_error" where
  "commitments_error_from_column_type UnconstrainedDecimal = DecimalColumnWithoutPrecision"
| "commitments_error_from_column_type (DecimalPrecision _) = DecimalColumnWithInvalidPrecision"
| "commitments_error_from_column_type (DecimalScale _) = DecimalColumnWithInvalidScale"
| "commitments_error_from_column_type (DataTypeParameter _) = SupportedColumnWithUnsupportedParameter"
| "commitments_error_from_column_type (DataTypeUnsupported _) = ColumnWithUnsupportedDataType"

fun commitments_error_from_invalid_create_table :: "invalid_create_table \<Rightarrow> commitments_error" where
  "commitments_error_from_invalid_create_table ICTNoColumns = CreateTableWithNoColumns"
| "commitments_error_from_invalid_create_table (ICTUnsupportedColumnType e) = commitments_error_from_column_type e"
| "commitments_error_from_invalid_create_table (ICTNumTableIdentifiers _) = CreateTableWithInvalidTableIdentifierCount"
| "commitments_error_from_invalid_create_table ICTDuplicateIdentifiers = CreateTableWithDuplicateIdentifiers"
| "commitments_error_from_invalid_create_table ICTReservedMetadataPrefix = CreateTableWithReservedMetadataPrefix"
| "commitments_error_from_invalid_create_table (ICTColumnOptions e) = commitments_error_from_column_options e"

fun commitments_error_from_snapshot :: "process_create_table_from_snapshot_error \<Rightarrow> commitments_error" where
  "commitments_error_from_snapshot (PSInvalidCreateTable e) = commitments_error_from_invalid_create_table e"
| "commitments_error_from_snapshot PSInappropriateSnapshotCommitments = InappropriateSnapshotCommitments"

fun commitments_error_from_native :: "native_commitment_error \<Rightarrow> commitments_error" where
  "commitments_error_from_native NCCommitmentDeserialization = NativeDeserializeCommitment"
| "commitments_error_from_native NCTableDeserialization = NativeDeserializeInsertData"
| "commitments_error_from_native NCOutOfScalarBounds = InsertDataOutOfBounds"
| "commitments_error_from_native NCColumnCommitmentsMismatch = InsertDataDoesntMatchExistingCommitments"
| "commitments_error_from_native NCTableCommitmentRangeMismatch = ExistingCommitmentsRangeMismatch"
| "commitments_error_from_native NCTableCommitmentColumnOrderMismatch = ExistingCommitmentsColumnOrderMismatch"
| "commitments_error_from_native NCNoCommitments = NoExistingCommitments"
| "commitments_error_from_native NCCommitmentSerialization = NativeSerializeCommitment"
| "commitments_error_from_native NCTableSerialization = NativeSerializeInsertData"

section \<open>The pallet\<close>

record commitments_state = attestation_state +
  CommitmentStorageMap :: commitment_storage
  DefaultCommitmentSchemes :: "commitment_scheme_flags option"

definition commitments_genesis_default :: commitment_scheme_flags where
  "commitments_genesis_default = \<lparr>fl_hyper_kzg = True, fl_dynamic_dory = True\<rparr>"

definition commitments_genesis_build ::
    "commitment_scheme_flags \<Rightarrow> 'a commitments_state_scheme \<Rightarrow> 'a commitments_state_scheme" where
  "commitments_genesis_build default_commitment_schemes s =
     s\<lparr>DefaultCommitmentSchemes := Some default_commitment_schemes\<rparr>"

type_synonym ('s, 'a) commitments_result = "('s \<times> 'a, commitments_error) result"

definition handler_create_commitments ::
    "table_identifier \<Rightarrow> table_commitment_bytes_per_scheme \<Rightarrow> 'a commitments_state_scheme
     \<Rightarrow> ('a commitments_state_scheme, table_identifier key_exists_error) result" where
  "handler_create_commitments table commitments s =
     map_ok (\<lambda>m. s\<lparr>CommitmentStorageMap := m\<rparr>)
       (create_commitments storage_map_handler (CommitmentStorageMap s) table commitments)"

definition process_create_table_and_initiate_commitments_with_scheme ::
    "('h, 'uh, 'sh, 'd, 'ud, 'sd) sxt_ext \<Rightarrow> create_table_builder \<Rightarrow> commitment_scheme_flags
     \<Rightarrow> 'a commitments_state_scheme
     \<Rightarrow> ('a commitments_state_scheme, create_table_and_commitment_metadata) commitments_result" where
  "process_create_table_and_initiate_commitments_with_scheme E create_table scheme s =
     bind_res (map_err commitments_error_from_invalid_create_table
       (process_create_table (ex_uc E) (ex_precision_new E) (ex_api_h E) (ex_api_d E) create_table
          (ex_baked_setups E) scheme)) (\<lambda>(metadata, empty_commitments).
     bind_res (expect_res (table_identifier_from_object_name (ex_uc E)
       (map id_value (ctb_name (ctm_table_with_meta_columns metadata))))) (\<lambda>table_identifier.
     bind_res (map_err commitments_error_from_to_bytes
       (commitments_to_bytes (ex_codec_h E) (ex_codec_d E) empty_commitments)) (\<lambda>empty_commitments_bytes.
     bind_res (map_err (\<lambda>_. TableAlreadyExists)
       (handler_create_commitments table_identifier empty_commitments_bytes s)) (\<lambda>s.
     Ok (s, metadata)))))"

definition process_create_table_and_initiate_commitments ::
    "('h, 'uh, 'sh, 'd, 'ud, 'sd) sxt_ext \<Rightarrow> create_table_builder \<Rightarrow> 'a commitments_state_scheme
     \<Rightarrow> ('a commitments_state_scheme, create_table_and_commitment_metadata) commitments_result" where
  "process_create_table_and_initiate_commitments E create_table s =
     bind_res (unwrap_opt (DefaultCommitmentSchemes s)) (\<lambda>schemes.
     process_create_table_and_initiate_commitments_with_scheme E create_table schemes s)"

definition process_create_table_and_initiate_commitments_with_dynamic_dory ::
    "('h, 'uh, 'sh, 'd, 'ud, 'sd) sxt_ext \<Rightarrow> create_table_builder \<Rightarrow> 'a commitments_state_scheme
     \<Rightarrow> ('a commitments_state_scheme, create_table_and_commitment_metadata) commitments_result" where
  "process_create_table_and_initiate_commitments_with_dynamic_dory E create_table s =
     process_create_table_and_initiate_commitments_with_scheme E create_table
       \<lparr>fl_hyper_kzg = False, fl_dynamic_dory = True\<rparr> s"

definition process_create_table_from_snapshot_and_initiate_commitments ::
    "('h, 'uh, 'sh, 'd, 'ud, 'sd) sxt_ext \<Rightarrow> create_table_builder \<Rightarrow> table_commitment_bytes_per_scheme
     \<Rightarrow> 'a commitments_state_scheme
     \<Rightarrow> ('a commitments_state_scheme, create_table_and_commitment_metadata) commitments_result" where
  "process_create_table_from_snapshot_and_initiate_commitments E create_table snapshot_commitment_bytes s =
     bind_res (map_err (\<lambda>_. DeserializeCommitment)
       (commitments_from_bytes (ex_codec_h E) (ex_codec_d E) snapshot_commitment_bytes)) (\<lambda>snapshot_commitments.
     bind_res (map_err commitments_error_from_snapshot
       (process_create_table_from_snapshot (ex_uc E) (ex_precision_new E) (ex_api_h E) (ex_api_d E)
          create_table (ex_baked_setups E) snapshot_commitments)) (\<lambda>(metadata, snapshot_commitments).
     bind_res (map_err commitments_error_from_to_bytes
       (commitments_to_bytes (ex_codec_h E) (ex_codec_d E) snapshot_commitments)) (\<lambda>snapshot_commitment_bytes.
     bind_res (expect_res (table_identifier_from_object_name (ex_uc E)
       (map id_value (ctb_name (ctm_table_with_meta_columns metadata))))) (\<lambda>table_identifier.
     bind_res (map_err (\<lambda>_. TableAlreadyExists)
       (handler_create_commitments table_identifier snapshot_commitment_bytes s)) (\<lambda>s.
     Ok (s, metadata))))))"

definition initiate_precomputed_commitments ::
    "table_identifier \<Rightarrow> table_commitment_bytes_per_scheme \<Rightarrow> 'a commitments_state_scheme
     \<Rightarrow> ('a commitments_state_scheme, table_identifier key_exists_error) result" where
  "initiate_precomputed_commitments table commitments s = handler_create_commitments table commitments s"

definition process_insert_and_update_commitments ::
    "('h, 'uh, 'sh, 'd, 'ud, 'sd) sxt_ext \<Rightarrow> table_identifier \<Rightarrow> on_chain_table
     \<Rightarrow> 'a commitments_state_scheme
     \<Rightarrow> ('a commitments_state_scheme, insert_and_commitment_metadata) commitments_result" where
  "process_insert_and_update_commitments E table insert_data s =
     (let previous_commitments = get_commitments storage_map_handler (CommitmentStorageMap s) table in
     bind_res (map_err (\<lambda>_. SerializeInsertData) (on_chain_table_to_bytes E insert_data)) (\<lambda>table_bytes.
     bind_res (map_err commitments_error_from_native
       (native_process_insert E table table_bytes previous_commitments))
       (\<lambda>(insert_with_meta_columns_bytes, commitments_bytes).
     bind_res (expect_res (update_commitments storage_map_handler (CommitmentStorageMap s) table commitments_bytes))
       (\<lambda>m. let s = s\<lparr>CommitmentStorageMap := m\<rparr> in
     bind_res (map_err (\<lambda>_. DeserializeInsertData)
       (on_chain_table_from_bytes E insert_with_meta_columns_bytes)) (\<lambda>insert_with_meta_columns.
     Ok (s, \<lparr>icm_insert_with_meta_columns = insert_with_meta_columns, icm_meta_table_inserts = []\<rparr>))))))"

fun collect_option :: "('a \<Rightarrow> 'b option) \<Rightarrow> 'a list \<Rightarrow> 'b list option" where
  "collect_option f [] = Some []"
| "collect_option f (x # xs) =
     (case f x of None \<Rightarrow> None | Some y \<Rightarrow> map_option (\<lambda>ys. y # ys) (collect_option f xs))"

definition table_commitments ::
    "'a commitments_state_scheme \<Rightarrow> table_identifier list \<Rightarrow> commitment_scheme \<Rightarrow> bytes list option" where
  "table_commitments s table_identifiers commitment_scheme =
     collect_option (\<lambda>t. sm_get (CommitmentStorageMap s) (t, commitment_scheme)) table_identifiers"

fun find_map :: "('a \<Rightarrow> 'b option) \<Rightarrow> 'a list \<Rightarrow> 'b option" where
  "find_map f [] = None"
| "find_map f (x # xs) = (case f x of Some y \<Rightarrow> Some y | None \<Rightarrow> find_map f xs)"

definition table_commitments_any_scheme ::
    "'a commitments_state_scheme \<Rightarrow> table_identifier list
     \<Rightarrow> (bytes list, bytes list) any_commitment_scheme option" where
  "table_commitments_any_scheme s table_identifiers =
     find_map (\<lambda>scheme. map_option (into_any_concrete scheme) (table_commitments s table_identifiers scheme))
       (flags_into_iter flags_all)"

section \<open>What the external code promises\<close>

definition ext_laws :: "('h, 'uh, 'sh, 'd, 'ud, 'sd) sxt_ext \<Rightarrow> bool" where
  "ext_laws E \<longleftrightarrow> unicode_upper (ex_uc E)
     \<and> commitment_api_laws (ex_api_h E) \<and> commitment_api_laws (ex_api_d E)
     \<and> codec_roundtrips (ex_codec_h E) \<and> codec_roundtrips (ex_codec_d E)
     \<and> codec_fits (ex_codec_h E) \<and> codec_fits (ex_codec_d E)
     \<and> (\<forall>t b. ex_table_encode E t = Some b \<longrightarrow> ex_table_decode E b = Some t)
     \<and> ex_io_setups E \<noteq> None"

text \<open>The commitments stored for a table decode, and agree on row count and column order.\<close>

definition stored_agree ::
    "('h, 'uh, 'sh, 'd, 'ud, 'sd) sxt_ext \<Rightarrow> 'a commitments_state_scheme \<Rightarrow> table_identifier
     \<Rightarrow> nat \<Rightarrow> ident list \<Rightarrow> bool" where
  "stored_agree E s table n order \<longleftrightarrow>
     (\<exists>p. commitments_from_bytes (ex_codec_h E) (ex_codec_d E)
         (get_commitments storage_map_handler (CommitmentStorageMap s) table) = Ok p
        \<and> p \<noteq> per_default \<and> commitments_agree (ex_api_h E) (ex_api_d E) p n order)"

abbreviation stored :: "'a commitments_state_scheme \<Rightarrow> table_identifier \<Rightarrow> table_commitment_bytes_per_scheme" where
  "stored s \<equiv> get_commitments storage_map_handler (CommitmentStorageMap s)"

definition table_normal :: "(bytes \<Rightarrow> bytes) \<Rightarrow> on_chain_table \<Rightarrow> bool" where
  "table_normal uc t \<longleftrightarrow> t \<noteq> [] \<and> distinct (map fst t)
     \<and> (\<forall>(i, c) \<in> set t. uc (id_value i) = id_value i \<and> col_len c = col_len (snd (hd t)))"

lemma try_from_iter_normal:
  assumes "table_normal uc t"
  shows "try_from_iter uc t = Ok t"
proof -
  have "map (\<lambda>(i, c). (upper_ident uc i, c)) t = t"
    using assms by (auto simp: table_normal_def upper_ident_def intro!: map_idI)
  then show ?thesis
    unfolding try_from_iter_Ok using assms
    by (auto simp: table_normal_def index_map_collect_id)
qed

lemma table_bytes_roundtrip:
  assumes "ext_laws E" "table_normal (ex_uc E) t" "on_chain_table_to_bytes E t = Ok b"
  shows "on_chain_table_from_bytes E b = Ok t"
proof -
  have "ex_table_decode E b = Some t"
    using assms(1,3) by (auto simp: ext_laws_def on_chain_table_to_bytes_def res_Ok_iff bounded_try_from_Ok_iff)
  then show ?thesis
    using try_from_iter_normal[OF assms(2)] by (simp add: on_chain_table_from_bytes_def)
qed

lemma on_chain_table_to_bytes_not_Panic: "on_chain_table_to_bytes E t \<noteq> Panic"
  by (auto simp: on_chain_table_to_bytes_def ok_or_def bounded_try_from_def split: option.splits)

lemma insert_ok_normal:
  assumes "unicode_upper uc" "insert_ok uc t r"
  shows "table_normal uc t"
  using insert_okD[OF assms] by (cases t) (auto simp: table_normal_def list_all_iff)

lemma row_number_table_normal:
  assumes "unicode_upper uc" "insert_ok uc ins r"
  shows "table_normal uc (AList.update (ident_new ROW_NUMBER_COLUMN_NAME)
    (BigInt (map word_of_nat [n..<n + r])) (with_column_order ins order))" (is "table_normal uc ?t")
proof -
  note i = insert_okD[OF assms]
  note w = with_column_order_facts[OF i(1-3), of order]
  have sub: "set (AList.update k v m) \<subseteq> insert (k, v) (set m)" for k v and m :: on_chain_table
    by (induction m) auto
  have len: "col_len c = r \<and> uc (id_value j) = id_value j" if "(j, c) \<in> set ?t" for j c
  proof -
    have "(j, c) \<in> insert (ident_new ROW_NUMBER_COLUMN_NAME, BigInt (map word_of_nat [n..<n + r])) (set ins)"
      using that sub w(4) by blast
    then show ?thesis
      using i(2,4) row_number_name_upper[OF assms(1)] by (auto simp: list_all_iff ident_new_def)
  qed
  have ne: "?t \<noteq> []" by simp
  have "col_len (snd (hd ?t)) = r" using hd_in_set[OF ne] len by (metis prod.collapse)
  then show ?thesis
    using ne len w(1) by (auto simp: table_normal_def distinct_update)
qed

lemma native_process_insert_cases:
  assumes E: "ext_laws E" and ins: "insert_ok (ex_uc E) ins r" and b: "n + r < 2 ^ 63"
    and tb: "on_chain_table_to_bytes E ins = Ok tb"
    and p: "commitments_from_bytes (ex_codec_h E) (ex_codec_d E) prev = Ok p" "p \<noteq> per_default"
      "commitments_agree (ex_api_h E) (ex_api_d E) p n order"
  shows "case native_process_insert E table tb prev of
      Ok (ob, data) \<Rightarrow> per_to_flags data = per_to_flags prev
        \<and> (\<exists>q. commitments_from_bytes (ex_codec_h E) (ex_codec_d E) data = Ok q \<and> q \<noteq> per_default
            \<and> commitments_agree (ex_api_h E) (ex_api_d E) q (n + r) order)
        \<and> on_chain_table_from_bytes E ob =
            Ok (AList.update (ident_new ROW_NUMBER_COLUMN_NAME) (BigInt (map word_of_nat [n..<n + r]))
              (with_column_order ins order))
    | Err e \<Rightarrow> True
    | Panic \<Rightarrow> False"
proof -
  have uc: "unicode_upper (ex_uc E)" and laws: "commitment_api_laws (ex_api_h E)" "commitment_api_laws (ex_api_d E)"
    and codec: "codec_roundtrips (ex_codec_h E)" "codec_roundtrips (ex_codec_d E)"
    and fits: "codec_fits (ex_codec_h E)" "codec_fits (ex_codec_d E)"
    using E by (simp_all add: ext_laws_def)
  obtain u where u: "ex_io_setups E = Some u" using E by (auto simp: ext_laws_def)
  have dec: "on_chain_table_from_bytes E tb = Ok ins"
    by (rule table_bytes_roundtrip[OF E insert_ok_normal[OF uc ins] tb])
  note run = process_insert_cases[OF laws uc ins b p(2,3), of table u]
  show ?thesis
  proof (cases "process_insert (ex_uc E) (ex_api_h E) (ex_api_d E) table ins p u")
    case (Ok x)
    obtain m q where x: "x = (m, q)" by (cases x)
    have q: "per_to_flags q = per_to_flags p" "commitments_agree (ex_api_h E) (ex_api_d E) q (n + r) order"
      and m: "icm_insert_with_meta_columns m = AList.update (ident_new ROW_NUMBER_COLUMN_NAME)
        (BigInt (map word_of_nat [n..<n + r])) (with_column_order ins order)"
      using run by (auto simp: Ok x)
    have qd: "q \<noteq> per_default" using q(1) p(2) per_to_flags_none by metis
    have rt: "on_chain_table_to_bytes E (icm_insert_with_meta_columns m) = Ok ob \<Longrightarrow>
        on_chain_table_from_bytes E ob = Ok (icm_insert_with_meta_columns m)" for ob
      by (rule table_bytes_roundtrip[OF E]) (simp_all add: m row_number_table_normal[OF uc ins])
    have cb: "commitments_to_bytes (ex_codec_h E) (ex_codec_d E) q = Ok data \<Longrightarrow>
        commitments_from_bytes (ex_codec_h E) (ex_codec_d E) data = Ok q \<and> per_to_flags data = per_to_flags prev" for data
      using commitments_from_to_bytes[OF codec] commitments_to_bytes_flags q(1)
        commitments_from_bytes_flags[OF p(1)] by metis
    show ?thesis
      using on_chain_table_to_bytes_not_Panic[of E "icm_insert_with_meta_columns m"]
        commitments_to_bytes_not_Panic[OF fits, of q]
      by (cases "on_chain_table_to_bytes E (icm_insert_with_meta_columns m)";
          cases "commitments_to_bytes (ex_codec_h E) (ex_codec_d E) q")
        (use rt cb qd q(2) in \<open>auto simp: native_process_insert_def dec p(1) u Ok x simp flip: m\<close>)
  next
    case (Err e)
    then show ?thesis by (simp add: native_process_insert_def dec p(1) u)
  next
    case Panic
    then show ?thesis using run by simp
  qed
qed

lemma update_stored:
  assumes "per_to_flags data = per_to_flags (stored s table)"
  obtains m where "update_commitments storage_map_handler (CommitmentStorageMap s) table data = Ok m"
    "stored (s\<lparr>CommitmentStorageMap := m\<rparr>) = (stored s)(table := data)"
  using sh.update_refines[OF assms] by (metis commitments_state.select_convs(1) commitments_state.update_convs(1) commitments_state.surjective)

lemma stored_get:
  "pc_hyper_kzg (stored s t) = sm_get (CommitmentStorageMap s) (t, HyperKzg)"
  "pc_dynamic_dory (stored s t) = sm_get (CommitmentStorageMap s) (t, DynamicDory)"
  by (cases "sm_get (CommitmentStorageMap s) (t, HyperKzg)"; cases "sm_get (CommitmentStorageMap s) (t, DynamicDory)";
      simp add: get_commitments_def storage_map_handler_def List.map_filter_def per_from_iter_def per_default_def)+

lemma stored_eqI:
  "(\<And>sch. sm_get (CommitmentStorageMap s) (t, sch) = sm_get (CommitmentStorageMap s') (t', sch)) \<Longrightarrow> stored s t = stored s' t'"
  by (rule per_commitment_scheme.equality) (simp_all add: stored_get)

lemma stored_none:
  "(\<And>sch. sm_get (CommitmentStorageMap s) (t, sch) = None) \<Longrightarrow> stored s t = per_default"
  by (rule per_commitment_scheme.equality) (simp_all add: stored_get per_default_def)

lemma create_stored:
  assumes "stored s table = per_default"
  obtains s' where "handler_create_commitments table p s = Ok s'" "stored s' = (stored s)(table := p)"
proof -
  obtain m where m: "create_commitments storage_map_handler (CommitmentStorageMap s) table p = Ok m"
    "get_commitments storage_map_handler m = (stored s)(table := p)"
    using sh.create_refines[OF assms] .
  then show thesis
    using that[of "s\<lparr>CommitmentStorageMap := m\<rparr>"] by (simp add: handler_create_commitments_def)
qed

lemma create_stored_exists:
  "stored s table \<noteq> per_default \<Longrightarrow> handler_create_commitments table p s = Err \<lparr>ke_key = table\<rparr>"
  by (simp add: handler_create_commitments_def sh.create_exists)

lemma table_identifier_from_two:
  assumes "length ids = 2"
  shows "case table_identifier_from_object_name uc ids of
      Ok t \<Rightarrow> ids = [hd ids, last ids] \<and> t = \<lparr>ti_name = uc (last ids), ti_namespace = uc (hd ids)\<rparr>
        \<and> list_all (\<lambda>i. length (uc i) \<le> IDENT_LENGTH) ids
    | Err e \<Rightarrow> list_ex (\<lambda>i. length (uc i) > IDENT_LENGTH) ids
    | Panic \<Rightarrow> False"
proof -
  obtain a b where ids: "ids = [a, b]"
    using assms by (metis (no_types, opaque_lifting) One_nat_def Suc_1 length_0_conv length_Suc_conv)
  show ?thesis
    by (cases "length (uc a) \<le> 64"; cases "length (uc b) \<le> 64")
      (auto simp: ids table_identifier_from_object_name_def byte_string_try_from_def bounded_try_from_def)
qed

lemma create_with_scheme_cases:
  assumes "ext_laws E"
  shows "case process_create_table_and_initiate_commitments_with_scheme E ct scheme s of
      Ok (s', m) \<Rightarrow> is_ok (validate (ex_precision_new E) ct)
        \<and> (\<exists>table. table_identifier_from_object_name (ex_uc E) (map id_value (ctb_name ct)) = Ok table
            \<and> stored s table = per_default \<and> per_to_flags (stored s' table) = scheme
            \<and> (\<forall>t. t = table \<or> stored s' t = stored s t)
            \<and> (scheme = flags_default \<or> stored_agree E s' table 0 (committed_columns (ex_uc E) ct)))
    | Err e \<Rightarrow> \<not> is_ok (validate (ex_precision_new E) ct) \<or> e \<in> {CommitmentWithTooManyColumns, SerializeCommitment, TableAlreadyExists}
    | Panic \<Rightarrow> is_ok (validate (ex_precision_new E) ct)
        \<and> list_ex (\<lambda>i. length (ex_uc E (id_value i)) > IDENT_LENGTH) (ctb_name ct)"
proof (cases "validate (ex_precision_new E) ct")
  case (Ok v)
  have laws: "commitment_api_laws (ex_api_h E)" "commitment_api_laws (ex_api_d E)"
    and codec: "codec_roundtrips (ex_codec_h E)" "codec_roundtrips (ex_codec_d E)"
    and fits: "codec_fits (ex_codec_h E)" "codec_fits (ex_codec_d E)"
    using assms by (simp_all add: ext_laws_def)
  obtain q where q: "process_create_table (ex_uc E) (ex_precision_new E) (ex_api_h E) (ex_api_d E) ct
        (ex_baked_setups E) scheme =
      Ok (\<lparr>ctm_table_with_meta_columns = create_table_with_row_number_column ct,
           ctm_meta_tables = [], ctm_meta_table_inserts = []\<rparr>, q)"
    and qf: "per_to_flags q = scheme"
    and qa: "commitments_agree (ex_api_h E) (ex_api_d E) q 0 (committed_columns (ex_uc E) ct)"
    using process_create_table_cases[OF laws Ok] by blast
  let ?names = "map id_value (ctb_name ct)"
  have name: "map id_value (ctb_name (create_table_with_row_number_column ct)) = ?names"
    by (simp add: create_table_with_row_number_column_def)
  have two: "length ?names = 2" using validate_Ok(3)[OF Ok] by simp
  note id = table_identifier_from_two[OF two, of "ex_uc E"]
  show ?thesis
  proof (cases "table_identifier_from_object_name (ex_uc E) ?names")
    case table: (Ok table)
    show ?thesis
    proof (cases "commitments_to_bytes (ex_codec_h E) (ex_codec_d E) q")
      case bs: (Ok bs)
      have bf: "per_to_flags bs = scheme" using commitments_to_bytes_flags[OF bs] qf by simp
      have ag: "scheme = flags_default \<or> (\<exists>p. commitments_from_bytes (ex_codec_h E) (ex_codec_d E) bs = Ok p
          \<and> p \<noteq> per_default \<and> commitments_agree (ex_api_h E) (ex_api_d E) p 0 (committed_columns (ex_uc E) ct))"
        using commitments_from_to_bytes[OF codec bs] qa qf by (metis per_to_flags_none)
      show ?thesis
      proof (cases "stored s table = per_default")
        case True
        then obtain s' where s': "handler_create_commitments table bs s = Ok s'" "stored s' = (stored s)(table := bs)"
          using create_stored by metis
        then have ag': "scheme = flags_default \<or> stored_agree E s' table 0 (committed_columns (ex_uc E) ct)"
          using ag by (auto simp: stored_agree_def)
        show ?thesis
          using s' True bf ag' Ok table bs
          by (simp add: process_create_table_and_initiate_commitments_with_scheme_def q name table)
      next
        case False
        then show ?thesis
          by (simp add: process_create_table_and_initiate_commitments_with_scheme_def q name table bs create_stored_exists)
      qed
    next
      case (Err e)
      then show ?thesis
        by (cases e) (simp_all add: process_create_table_and_initiate_commitments_with_scheme_def q name table)
    next
      case Panic
      then show ?thesis using commitments_to_bytes_not_Panic[OF fits] by blast
    qed
  next
    case (Err e)
    then show ?thesis
      using id Ok by (simp add: process_create_table_and_initiate_commitments_with_scheme_def q name list_ex_iff)
  next
    case Panic
    then show ?thesis using id by simp
  qed
next
  case (Err e)
  then show ?thesis
    by (simp add: process_create_table_and_initiate_commitments_with_scheme_def process_create_table_def)
qed simp

text \<open>Creating commitments changes the commitment storage and nothing else.\<close>

lemma handler_create_frame:
  "handler_create_commitments table p s = Ok s' \<Longrightarrow> \<exists>m. s' = s\<lparr>CommitmentStorageMap := m\<rparr>"
  by (auto simp: handler_create_commitments_def res_Ok_iff)

lemma create_with_scheme_frame:
  "process_create_table_and_initiate_commitments_with_scheme E ct scheme s = Ok (s', md) \<Longrightarrow>
   \<exists>m. s' = s\<lparr>CommitmentStorageMap := m\<rparr>"
  by (auto simp: process_create_table_and_initiate_commitments_with_scheme_def res_Ok_iff dest: handler_create_frame)

lemma create_from_snapshot_frame:
  "process_create_table_from_snapshot_and_initiate_commitments E ct bytes s = Ok (s', md) \<Longrightarrow>
   \<exists>m. s' = s\<lparr>CommitmentStorageMap := m\<rparr>"
  by (auto simp: process_create_table_from_snapshot_and_initiate_commitments_def res_Ok_iff dest: handler_create_frame)

section \<open>Properties\<close>

lemma insert_and_update_cases:
  assumes "ext_laws E" "insert_ok (ex_uc E) ins r" "n + r < 2 ^ 63" "stored_agree E s table n order"
  shows "case process_insert_and_update_commitments E table ins s of
      Ok (s', m) \<Rightarrow> stored_agree E s' table (n + r) order
        \<and> per_to_flags (stored s' table) = per_to_flags (stored s table)
        \<and> (\<forall>t. t = table \<or> stored s' t = stored s t)
        \<and> row_numbers (icm_insert_with_meta_columns m) = map word_of_nat [n..<n + r]
    | Err e \<Rightarrow> True
    | Panic \<Rightarrow> False"
proof -
  obtain p where p: "commitments_from_bytes (ex_codec_h E) (ex_codec_d E) (stored s table) = Ok p"
    "p \<noteq> per_default" "commitments_agree (ex_api_h E) (ex_api_d E) p n order"
    using assms(4) by (auto simp: stored_agree_def)
  show ?thesis
  proof (cases "on_chain_table_to_bytes E ins")
    case (Ok tb)
    note run = native_process_insert_cases[OF assms(1-3) Ok p, of table]
    show ?thesis
    proof (cases "native_process_insert E table tb (stored s table)")
      case (Ok x)
      obtain ob data where x: "x = (ob, data)" by (cases x)
      from run obtain q where flags: "per_to_flags data = per_to_flags (stored s table)"
        and q: "commitments_from_bytes (ex_codec_h E) (ex_codec_d E) data = Ok q" "q \<noteq> per_default"
          "commitments_agree (ex_api_h E) (ex_api_d E) q (n + r) order"
        and out: "on_chain_table_from_bytes E ob = Ok (AList.update (ident_new ROW_NUMBER_COLUMN_NAME)
          (BigInt (map word_of_nat [n..<n + r])) (with_column_order ins order))"
        by (auto simp: Ok x)
      obtain m where m: "update_commitments storage_map_handler (CommitmentStorageMap s) table data = Ok m"
        "stored (s\<lparr>CommitmentStorageMap := m\<rparr>) = (stored s)(table := data)"
        using update_stored[OF flags] .
      then show ?thesis
        using \<open>on_chain_table_to_bytes E ins = Ok tb\<close> Ok x out q flags
        by (auto simp: process_insert_and_update_commitments_def stored_agree_def row_numbers_update)
    next
      case (Err e)
      then show ?thesis
        using \<open>on_chain_table_to_bytes E ins = Ok tb\<close> by (simp add: process_insert_and_update_commitments_def)
    next
      case Panic
      then show ?thesis using run by simp
    qed
  next
    case (Err e)
    then show ?thesis by (simp add: process_insert_and_update_commitments_def)
  next
    case Panic
    then show ?thesis using on_chain_table_to_bytes_not_Panic by blast
  qed
qed


definition demo_insert_out :: on_chain_table where
  "demo_insert_out = [(ident_new ''A'', BigInt [7, 8]), (ident_new ''B'', VarChar [''x'', ''y'']),
     (ident_new ROW_NUMBER_COLUMN_NAME, BigInt [0, 1])]"

definition demo_created_order :: "ident list" where
  "demo_created_order = committed_columns to_ascii_uppercase demo_table"

definition demo_commitment_codec :: "(nat \<times> ident list) table_commitment_codec" where
  "demo_commitment_codec = \<lparr>cc_num_columns = (\<lambda>c. length (snd c)),
     cc_encode = (\<lambda>c. if c = (0, demo_order) then Some ''a'' else if c = (2, demo_order) then Some ''b''
       else if c = (0, demo_created_order) then Some ''c'' else None),
     cc_decode = (\<lambda>b. if b = ''a'' then Some (0, demo_order) else if b = ''b'' then Some (2, demo_order)
       else if b = ''c'' then Some (0, demo_created_order) else None)\<rparr>"

definition demo_ext :: "(nat \<times> ident list, unit, u256, nat \<times> ident list, unit, u256) sxt_ext" where
  "demo_ext = \<lparr>ex_uc = to_ascii_uppercase, ex_precision_new = Some, ex_api_h = demo_api, ex_api_d = demo_api,
     ex_codec_h = demo_commitment_codec, ex_codec_d = demo_commitment_codec,
     ex_baked_setups = \<lparr>pc_hyper_kzg = (), pc_dynamic_dory = ()\<rparr>,
     ex_io_setups = Some \<lparr>pc_hyper_kzg = (), pc_dynamic_dory = ()\<rparr>,
     ex_table_encode = (\<lambda>t. if t = demo_insert then Some ''i'' else if t = demo_insert_out then Some ''o'' else None),
     ex_table_decode = (\<lambda>b. if b = ''i'' then Some demo_insert else if b = ''o'' then Some demo_insert_out else None),
     ex_arrow = demo_arrow_ext, ex_stream_read = (\<lambda>_. StreamEmpty)\<rparr>"

lemma demo_ext_laws: "ext_laws demo_ext"
  by (auto simp: ext_laws_def demo_ext_def unicode_upper_ascii demo_api_laws demo_commitment_codec_def
      codec_roundtrips_def codec_fits_def TABLE_COMMITMENT_MAX_LENGTH_def)

definition demo_table_id :: table_identifier where
  "demo_table_id = \<lparr>ti_name = ''T'', ti_namespace = ''N''\<rparr>"

definition demo_commitments_state :: commitments_state where
  "demo_commitments_state =
     \<lparr>block_number = 1, events = [], Permissions = [], Keys = [], AttestationKeys = [], Attestations = [],
      LastForwardedBlock = None, CommitmentStorageMap = [((demo_table_id, DynamicDory), ''a'')],
      DefaultCommitmentSchemes = Some flags_all\<rparr>"

lemma demo_stored: "stored demo_commitments_state demo_table_id = \<lparr>pc_hyper_kzg = None, pc_dynamic_dory = Some ''a''\<rparr>"
  by code_simp

lemma demo_bytes:
  "on_chain_table_to_bytes demo_ext demo_insert = Ok ''i''" "on_chain_table_to_bytes demo_ext demo_insert_out = Ok ''o''"
  "on_chain_table_from_bytes demo_ext ''i'' = Ok demo_insert" "on_chain_table_from_bytes demo_ext ''o'' = Ok demo_insert_out"
  "commitments_from_bytes (ex_codec_h demo_ext) (ex_codec_d demo_ext) \<lparr>pc_hyper_kzg = None, pc_dynamic_dory = Some ''a''\<rparr>
     = Ok \<lparr>pc_hyper_kzg = None, pc_dynamic_dory = Some (0, demo_order)\<rparr>"
  "commitments_to_bytes (ex_codec_h demo_ext) (ex_codec_d demo_ext) \<lparr>pc_hyper_kzg = None, pc_dynamic_dory = Some (2, demo_order)\<rparr>
     = Ok \<lparr>pc_hyper_kzg = None, pc_dynamic_dory = Some ''b''\<rparr>"
  "ex_io_setups demo_ext = Some \<lparr>pc_hyper_kzg = (), pc_dynamic_dory = ()\<rparr>"
proof -
  show a: "on_chain_table_to_bytes demo_ext demo_insert = Ok ''i''"
    by (simp add: on_chain_table_to_bytes_def demo_ext_def bounded_try_from_def DATA_MAX_LEN_def)
  have "demo_insert_out \<noteq> demo_insert" by (simp add: demo_insert_out_def demo_insert_def)
  then show b: "on_chain_table_to_bytes demo_ext demo_insert_out = Ok ''o''"
    by (simp add: on_chain_table_to_bytes_def demo_ext_def bounded_try_from_def DATA_MAX_LEN_def)
  have "table_normal (ex_uc demo_ext) demo_insert" "table_normal (ex_uc demo_ext) demo_insert_out" by code_simp+
  then show "on_chain_table_from_bytes demo_ext ''i'' = Ok demo_insert" "on_chain_table_from_bytes demo_ext ''o'' = Ok demo_insert_out"
    using a b table_bytes_roundtrip[OF demo_ext_laws] by blast+
  show "commitments_from_bytes (ex_codec_h demo_ext) (ex_codec_d demo_ext) \<lparr>pc_hyper_kzg = None, pc_dynamic_dory = Some ''a''\<rparr>
     = Ok \<lparr>pc_hyper_kzg = None, pc_dynamic_dory = Some (0, demo_order)\<rparr>"
    by (simp add: demo_ext_def commitments_from_bytes_def per_into_flat_iter_eq table_commitment_from_bytes_def
          demo_commitment_codec_def per_default_def)
  show "commitments_to_bytes (ex_codec_h demo_ext) (ex_codec_d demo_ext) \<lparr>pc_hyper_kzg = None, pc_dynamic_dory = Some (2, demo_order)\<rparr>
     = Ok \<lparr>pc_hyper_kzg = None, pc_dynamic_dory = Some ''b''\<rparr>"
    by (simp add: commitments_to_bytes_Ok table_commitment_to_bytes_Ok demo_ext_def demo_commitment_codec_def
        MAX_COLS_PER_TABLE_def TABLE_COMMITMENT_MAX_LENGTH_def demo_order_def)
qed (simp add: demo_ext_def)

lemma demo_process_insert:
  "process_insert (ex_uc demo_ext) (ex_api_h demo_ext) (ex_api_d demo_ext) demo_table_id demo_insert
      \<lparr>pc_hyper_kzg = None, pc_dynamic_dory = Some (0, demo_order)\<rparr> \<lparr>pc_hyper_kzg = (), pc_dynamic_dory = ()\<rparr>
   = Ok (\<lparr>icm_insert_with_meta_columns = demo_insert_out, icm_meta_table_inserts = []\<rparr>,
       \<lparr>pc_hyper_kzg = None, pc_dynamic_dory = Some (2, demo_order)\<rparr>)"
  by code_simp

lemma demo_update:
  "is_ok (update_commitments storage_map_handler (CommitmentStorageMap demo_commitments_state) demo_table_id
     \<lparr>pc_hyper_kzg = None, pc_dynamic_dory = Some ''b''\<rparr>)"
  by code_simp



lemma demo_process_create_table:
  "process_create_table (ex_uc demo_ext) (ex_precision_new demo_ext) (ex_api_h demo_ext) (ex_api_d demo_ext) demo_table
      (ex_baked_setups demo_ext) flags_all
   = Ok (\<lparr>ctm_table_with_meta_columns = create_table_with_row_number_column demo_table,
           ctm_meta_tables = [], ctm_meta_table_inserts = []\<rparr>,
       \<lparr>pc_hyper_kzg = Some (0, demo_created_order), pc_dynamic_dory = Some (0, demo_created_order)\<rparr>)"
  by code_simp

lemma demo_create_bytes:
  "commitments_to_bytes (ex_codec_h demo_ext) (ex_codec_d demo_ext)
     \<lparr>pc_hyper_kzg = Some (0, demo_created_order), pc_dynamic_dory = Some (0, demo_created_order)\<rparr>
   = Ok \<lparr>pc_hyper_kzg = Some ''c'', pc_dynamic_dory = Some ''c''\<rparr>"
proof -
  have "demo_created_order \<noteq> demo_order" "length demo_created_order = 1" by code_simp+
  then show ?thesis
    by (simp add: commitments_to_bytes_Ok table_commitment_to_bytes_Ok demo_ext_def demo_commitment_codec_def
        MAX_COLS_PER_TABLE_def TABLE_COMMITMENT_MAX_LENGTH_def)
qed

lemma demo_create_table_id:
  "table_identifier_from_object_name (ex_uc demo_ext)
     (map id_value (ctb_name (create_table_with_row_number_column demo_table))) = Ok demo_table_id"
  by code_simp

definition demo_empty_state :: commitments_state where
  "demo_empty_state = demo_commitments_state\<lparr>CommitmentStorageMap := []\<rparr>"


text \<open>
  The commitments returned for a query are all of one scheme, and the scheme is the first
  one, Hyper-KZG before Dynamic Dory, for which every table of the query has a commitment;
  without such a scheme there is no answer.
\<close>

theorem any_scheme_query_correct:
  "table_commitments_any_scheme s ts =
     (if list_all (\<lambda>t. pc_hyper_kzg (stored s t) \<noteq> None) ts
      then Some (AnyHyperKzg (map (\<lambda>t. the (pc_hyper_kzg (stored s t))) ts))
      else if list_all (\<lambda>t. pc_dynamic_dory (stored s t) \<noteq> None) ts
      then Some (AnyDynamicDory (map (\<lambda>t. the (pc_dynamic_dory (stored s t))) ts))
      else None)"
proof -
  have collect: "collect_option f ts = (if list_all (\<lambda>t. f t \<noteq> None) ts then Some (map (\<lambda>t. the (f t)) ts) else None)"
    for f :: "table_identifier \<Rightarrow> bytes option"
    by (induction ts) (auto split: option.split)
  show ?thesis
    by (simp add: table_commitments_any_scheme_def table_commitments_def collect stored_get
        flags_into_iter_def flags_all_def)
qed

text \<open>
  The panic of table creation is reachable: a definition whose table name has 65 bytes passes
  validation, and turning the name into a table identifier fails where success is expected.
\<close>

definition long_name_table :: create_table_builder where
  "long_name_table = demo_table\<lparr>ctb_name := [ident_new ''n'', ident_new (replicate 65 CHR ''t'')]\<rparr>"

lemma long_table_name_panics:
  "is_ok (validate (ex_precision_new demo_ext) long_name_table)
   \<and> process_create_table_and_initiate_commitments_with_scheme demo_ext long_name_table flags_all s = Panic"
proof -
  have ok: "is_ok (validate (ex_precision_new demo_ext) long_name_table)" by code_simp
  then obtain v where v: "validate (ex_precision_new demo_ext) long_name_table = Ok v" by (auto simp: is_ok_iff)
  have laws: "commitment_api_laws (ex_api_h demo_ext)" "commitment_api_laws (ex_api_d demo_ext)"
    using demo_ext_laws by (simp_all add: ext_laws_def)
  obtain q where q: "process_create_table (ex_uc demo_ext) (ex_precision_new demo_ext) (ex_api_h demo_ext) (ex_api_d demo_ext)
      long_name_table (ex_baked_setups demo_ext) flags_all
    = Ok (\<lparr>ctm_table_with_meta_columns = create_table_with_row_number_column long_name_table,
           ctm_meta_tables = [], ctm_meta_table_inserts = []\<rparr>, q)"
    using process_create_table_cases[OF laws v] by blast
  let ?ids = "map id_value (ctb_name (create_table_with_row_number_column long_name_table))"
  have "length ?ids = 2" "\<not> list_all (\<lambda>i. length (ex_uc demo_ext i) \<le> IDENT_LENGTH) ?ids"
    by (simp_all add: create_table_with_row_number_column_def long_name_table_def demo_table_def demo_ext_def
        to_ascii_uppercase_def ident_new_def)
  then have "expect_res (table_identifier_from_object_name (ex_uc demo_ext) ?ids) = (Panic :: (table_identifier, commitments_error) result)"
    using table_identifier_from_two[of ?ids "ex_uc demo_ext"]
    by (cases "table_identifier_from_object_name (ex_uc demo_ext) ?ids") auto
  then show ?thesis
    using ok q by (simp add: process_create_table_and_initiate_commitments_with_scheme_def)
qed

end
