(* ===== verification/Sql_Statements.thy ===== *)
theory Sql_Statements
  imports Pallet_Commitments
begin

text \<open>
  The helpers of \<open>sxt-core/src/tables.rs\<close> for SQL statements: converting between statements and
  syntax trees, the WITH clause with the UUIDs of a table and its columns, and the generation
  of UUIDs.

  \<open>sql_ext\<close> collects the code of other crates: sqlparser's parser, its printer and the printing
  of an option value, the lower-case mapping, and the two numbers that ChaCha20 yields when
  seeded with the Blake2 hash of a text.
\<close>

section \<open>External code\<close>

record sql_ext =
  sx_parse :: "bytes \<Rightarrow> create_table_builder option"
  sx_print :: "create_table_builder \<Rightarrow> bytes"
  sx_expr_to_string :: "sql_expr \<Rightarrow> bytes"
  sx_lc :: "bytes \<Rightarrow> bytes"
  sx_rng :: "bytes \<Rightarrow> u64 \<times> u64"

section \<open>String functions of the standard library\<close>

text \<open>The UTF-8 encodings of the characters that \<open>str::trim\<close> removes (Unicode's White_Space).\<close>

definition white_space :: "bytes list" where
  "white_space = [[CHR 0x09], [CHR 0x0A], [CHR 0x0B], [CHR 0x0C], [CHR 0x0D], [CHR 0x20],
     [CHR 0xC2, CHR 0x85], [CHR 0xC2, CHR 0xA0], [CHR 0xE1, CHR 0x9A, CHR 0x80],
     [CHR 0xE2, CHR 0x80, CHR 0x80], [CHR 0xE2, CHR 0x80, CHR 0x81], [CHR 0xE2, CHR 0x80, CHR 0x82],
     [CHR 0xE2, CHR 0x80, CHR 0x83], [CHR 0xE2, CHR 0x80, CHR 0x84], [CHR 0xE2, CHR 0x80, CHR 0x85],
     [CHR 0xE2, CHR 0x80, CHR 0x86], [CHR 0xE2, CHR 0x80, CHR 0x87], [CHR 0xE2, CHR 0x80, CHR 0x88],
     [CHR 0xE2, CHR 0x80, CHR 0x89], [CHR 0xE2, CHR 0x80, CHR 0x8A], [CHR 0xE2, CHR 0x80, CHR 0xA8],
     [CHR 0xE2, CHR 0x80, CHR 0xA9], [CHR 0xE2, CHR 0x80, CHR 0xAF], [CHR 0xE2, CHR 0x81, CHR 0x9F],
     [CHR 0xE3, CHR 0x80, CHR 0x80]]"

function trim_start_any :: "bytes list \<Rightarrow> bytes \<Rightarrow> bytes" where
  "trim_start_any ws s =
     (case List.find (\<lambda>w. w \<noteq> [] \<and> starts_with w s) ws of
        None \<Rightarrow> s
      | Some w \<Rightarrow> trim_start_any ws (drop (length w) s))"
  by pat_completeness auto
termination
proof (relation "measure (\<lambda>(ws, s). length s)", goal_cases)
  case (2 ws s w)
  then have "w \<noteq> []" "starts_with w s" by (auto simp: find_Some_iff)
  then obtain t where "s = w @ t" by (auto simp: starts_with_iff)
  with \<open>w \<noteq> []\<close> show ?case by simp
qed simp

declare trim_start_any.simps [simp del]

definition trim_start :: "bytes \<Rightarrow> bytes" where
  "trim_start s = trim_start_any white_space s"

definition trim_end :: "bytes \<Rightarrow> bytes" where
  "trim_end s = rev (trim_start_any (map rev white_space) (rev s))"

definition trim :: "bytes \<Rightarrow> bytes" where
  "trim s = trim_end (trim_start s)"

text \<open>\<open>str::find\<close> and \<open>str::rfind\<close>: the position of the first and of the last occurrence.\<close>

fun str_find :: "bytes \<Rightarrow> bytes \<Rightarrow> nat option" where
  "str_find p [] = (if p = [] then Some 0 else None)"
| "str_find p (c # s) = (if starts_with p (c # s) then Some 0 else map_option Suc (str_find p s))"

fun str_rfind :: "bytes \<Rightarrow> bytes \<Rightarrow> nat option" where
  "str_rfind p [] = (if p = [] then Some 0 else None)"
| "str_rfind p (c # s) =
     (case str_rfind p s of
        Some i \<Rightarrow> Some (Suc i)
      | None \<Rightarrow> if starts_with p (c # s) then Some 0 else None)"

text \<open>\<open>str::split\<close> at every occurrence of a character, \<open>str::splitn(2, c)\<close> at the first one.\<close>

fun split_char :: "char \<Rightarrow> bytes \<Rightarrow> bytes list" where
  "split_char c [] = [[]]"
| "split_char c (x # s) =
     (if x = c then [] # split_char c s
      else case split_char c s of [] \<Rightarrow> [[x]] | p # ps \<Rightarrow> (x # p) # ps)"

definition splitn2_char :: "char \<Rightarrow> bytes \<Rightarrow> bytes list" where
  "splitn2_char c s =
     (case dropWhile (\<lambda>x. x \<noteq> c) s of [] \<Rightarrow> [s] | _ # rest \<Rightarrow> [takeWhile (\<lambda>x. x \<noteq> c) s, rest])"

text \<open>\<open>Vec::dedup_by\<close>: an element is dropped when it is related to the last one kept.\<close>

fun dedup_by :: "('a \<Rightarrow> 'a \<Rightarrow> bool) \<Rightarrow> 'a list \<Rightarrow> 'a list" where
  "dedup_by same (x # y # zs) = (if same y x then dedup_by same (x # zs) else x # dedup_by same (y # zs))"
| "dedup_by same xs = xs"

section \<open>Statements and syntax trees\<close>

datatype create_statement_parse_error = StatementTooLarge | Utf8 | Sqlparser

definition sqlparser_to_create_statement ::
    "sql_ext \<Rightarrow> create_table_builder \<Rightarrow> (create_statement, create_statement_parse_error) result" where
  "sqlparser_to_create_statement X create_table =
     bounded_try_from CREATE_STMNT_LENGTH (sx_print X create_table) StatementTooLarge"

definition create_statement_to_sqlparser ::
    "sql_ext \<Rightarrow> create_statement \<Rightarrow> (create_table_builder, create_statement_parse_error) result" where
  "create_statement_to_sqlparser X create_statement =
     bind_res (from_utf8 create_statement Utf8) (\<lambda>raw_sql.
     ok_or (sx_parse X raw_sql) Sqlparser)"

text \<open>The text before the last \<open>WITH\<close>, and the clause from there on without final semicolons.\<close>

definition strip_with_clause :: "bytes \<Rightarrow> bytes \<times> bytes option" where
  "strip_with_clause sql =
     (case str_rfind ''WITH'' sql of
        Some idx \<Rightarrow>
          (let before_with = take idx sql; with_and_rest = drop idx sql;
               with_clause = trim (trim_end_char CHR '';'' with_and_rest)
           in (trim_end before_with, Some with_clause))
      | None \<Rightarrow> (trim_end (trim_end_char CHR '';'' sql), None))"

definition create_statement_to_sqlparser_remove_with ::
    "sql_ext \<Rightarrow> create_statement
     \<Rightarrow> (create_table_builder \<times> bytes option, create_statement_parse_error) result" where
  "create_statement_to_sqlparser_remove_with X create_statement =
     bind_res (from_utf8 create_statement Utf8) (\<lambda>raw_sql.
     (let (stripped_sql, with_options) = strip_with_clause raw_sql in
     bind_res (ok_or (sx_parse X stripped_sql) Sqlparser) (\<lambda>builder.
     Ok (builder, with_options))))"

section \<open>UUIDs in the WITH clause\<close>

datatype update_uuid_error = InvalidUuid | ParseError create_statement_parse_error

definition column_uuid_option :: "column_uuid \<Rightarrow> sql_option option" where
  "column_uuid_option entry =
     (if utf8_valid (cu_name entry) \<and> utf8_valid (cu_uuid entry)
      then Some \<lparr>so_name = ident_new (cu_name entry), so_value = ExprUnQuotedString (cu_uuid entry)\<rparr>
      else None)"

text \<open>The options of the updated statement: sorted by upper-cased name, the first of each name.\<close>

definition uuid_options ::
    "(bytes \<Rightarrow> bytes) \<Rightarrow> bytes \<Rightarrow> column_uuid list \<Rightarrow> sql_option list \<Rightarrow> sql_option list" where
  "uuid_options uc table_uuid column_uuids with_options =
     (let table_entry = \<lparr>so_name = ident_new ''TABLE_UUID'', so_value = ExprUnQuotedString table_uuid\<rparr>;
          entries = List.map_filter column_uuid_option column_uuids @ [table_entry] @ with_options;
          entries = sort_key (\<lambda>a. uc (id_value (so_name a))) entries
      in dedup_by (\<lambda>a b. uc (id_value (so_name a)) = uc (id_value (so_name b))) entries)"

definition update_uuid_in_create_table_statement ::
    "(bytes \<Rightarrow> bytes) \<Rightarrow> sql_ext \<Rightarrow> table_uuid \<Rightarrow> column_uuid list \<Rightarrow> create_statement
     \<Rightarrow> (create_statement, update_uuid_error) result" where
  "update_uuid_in_create_table_statement uc X uuid column_uuids statement =
     bind_res (map_err ParseError (create_statement_to_sqlparser X statement)) (\<lambda>table.
     bind_res (from_utf8 uuid InvalidUuid) (\<lambda>table_uuid_str.
     let entries = uuid_options uc table_uuid_str column_uuids (ctb_with_options table);
         table = table\<lparr>ctb_with_options := entries\<rparr>
     in map_err ParseError (sqlparser_to_create_statement X table)))"

definition extract_schema_uuid :: "bytes \<Rightarrow> bytes option" where
  "extract_schema_uuid sql =
     (case str_find ''WITH ('' sql of
        None \<Rightarrow> None
      | Some with_start \<Rightarrow>
          (let with_part = drop (with_start + 6) sql in
           case str_find '')'' with_part of
             None \<Rightarrow> None
           | Some end_index \<Rightarrow>
               find_map (\<lambda>option. case map trim (splitn2_char CHR ''='' option) of
                   [key, val] \<Rightarrow> if eq_ignore_ascii_case key ''SCHEMA_UUID'' then Some val else None
                 | _ \<Rightarrow> None)
                 (split_char CHR '','' (take end_index with_part))))"

text \<open>The slice panics when the two patterns overlap.\<close>

definition extract_column_name :: "bytes \<Rightarrow> (bytes option, 'e) result" where
  "extract_column_name input =
     (if starts_with ''column_'' input \<and> ends_with ''_uuid'' input
      then let start = length ''column_''; stop = length input - length ''_uuid''
           in if start \<le> stop then Ok (Some (drop start (take stop input))) else Panic
      else Ok None)"

fun filter_map_res :: "('a \<Rightarrow> ('b option, 'e) result) \<Rightarrow> 'a list \<Rightarrow> ('b list, 'e) result" where
  "filter_map_res f [] = Ok []"
| "filter_map_res f (x # xs) =
     bind_res (f x) (\<lambda>y. bind_res (filter_map_res f xs) (\<lambda>ys.
     Ok (case y of None \<Rightarrow> ys | Some v \<Rightarrow> v # ys)))"

definition table_uuid_try_from :: "bytes \<Rightarrow> 'e \<Rightarrow> (table_uuid, 'e) result" where
  "table_uuid_try_from bs e = bounded_try_from IDENT_LENGTH bs e"

definition uuids_from_sqlparser ::
    "sql_ext \<Rightarrow> create_table_builder \<Rightarrow> (table_uuid \<times> column_uuid list, 'e) result" where
  "uuids_from_sqlparser X create_table =
     (let options = ctb_with_options create_table in
     bind_res (filter_map_res (\<lambda>opt.
         bind_res (extract_column_name (id_value (so_name opt))) (\<lambda>n. case n of
           None \<Rightarrow> Ok None
         | Some nam \<Rightarrow>
             bind_res (expect_res (byte_string_try_from nam ())) (\<lambda>nam.
             bind_res (expect_res (table_uuid_try_from (sx_expr_to_string X (so_value opt)) ())) (\<lambda>uuid.
             Ok (Some \<lparr>cu_name = nam, cu_uuid = uuid\<rparr>))))) options) (\<lambda>cols.
     bind_res (expect_res (bounded_try_from MAX_COLS_PER_TABLE cols ())) (\<lambda>column_id_list.
     bind_res (foldl (\<lambda>acc opt. bind_res acc (\<lambda>table_uuid.
         if sx_lc X (id_value (so_name opt)) = ''table_uuid''
         then expect_res (table_uuid_try_from (sx_expr_to_string X (so_value opt)) ())
         else Ok table_uuid)) (Ok []) options) (\<lambda>table_uuid.
     Ok (table_uuid, column_id_list)))))"

definition uuids_from_create_statement ::
    "sql_ext \<Rightarrow> create_statement \<Rightarrow> ((table_uuid \<times> column_uuid list) option, 'e) result" where
  "uuids_from_create_statement X create_statement =
     (case create_statement_to_sqlparser X create_statement of
        Ok create_table \<Rightarrow> map_ok Some (uuids_from_sqlparser X create_table)
      | Err _ \<Rightarrow> Ok None
      | Panic \<Rightarrow> Panic)"

section \<open>Generated UUIDs\<close>

definition hex_digit :: "nat \<Rightarrow> char" where
  "hex_digit n = (if n < 10 then char_of (48 + n) else char_of (55 + n))"

text \<open>\<open>{:016X}\<close>: the sixteen upper-case hexadecimal digits of a 64-bit number.\<close>

definition hex16 :: "u64 \<Rightarrow> bytes" where
  "hex16 w = map (\<lambda>i. hex_digit (unat w div 16 ^ (15 - i) mod 16)) [0..<16]"

definition is_ascii_digit :: "char \<Rightarrow> bool" where
  "is_ascii_digit c \<longleftrightarrow> 48 \<le> byte c \<and> byte c \<le> 57"

definition generate_uuid :: "sql_ext \<Rightarrow> bytes \<Rightarrow> table_uuid option" where
  "generate_uuid X source =
     (let (r1, r2) = sx_rng X source;
          part1 = or (push_bit 60 12) r1;
          part2 = r2;
          hex = hex16 part1 @ hex16 part2;
          hex = (if is_ascii_digit (hd hex) then ''A'' @ tl hex else hex);
          hex = take 32 hex
      in case table_uuid_try_from hex () of Ok uuid \<Rightarrow> Some uuid | _ \<Rightarrow> None)"

definition generate_table_uuid :: "sql_ext \<Rightarrow> nat \<Rightarrow> bytes \<Rightarrow> bytes \<Rightarrow> table_uuid option" where
  "generate_table_uuid X block namespace nam = generate_uuid X (show_nat block @ namespace @ nam)"

definition generate_namespace_uuid :: "sql_ext \<Rightarrow> nat \<Rightarrow> bytes \<Rightarrow> table_uuid option" where
  "generate_namespace_uuid X block namespace = generate_uuid X (show_nat block @ namespace)"

definition generate_column_uuid_list :: "sql_ext \<Rightarrow> create_statement \<Rightarrow> column_uuid list dispatch_result" where
  "generate_column_uuid_list X create_statement =
     bind_res (map_err (\<lambda>_. OtherError ''Failed to parse CreateStatement'')
       (create_statement_to_sqlparser X create_statement)) (\<lambda>builder.
     bind_res (collect_res (\<lambda>col.
         bind_res (byte_string_try_from (id_value (cdef_name col)) (OtherError ''Invalid ByteString'')) (\<lambda>nam.
         bind_res (table_uuid_try_from (id_value (cdef_name col)) (OtherError ''Invalid TableUuid'')) (\<lambda>uuid.
         Ok \<lparr>cu_name = nam, cu_uuid = uuid\<rparr>))) (ctb_columns builder)) (\<lambda>uuids.
     bounded_try_from MAX_COLS_PER_TABLE uuids (OtherError ''Too many columns'')))"

section \<open>Facts about the helpers\<close>

abbreviation option_key :: "(bytes \<Rightarrow> bytes) \<Rightarrow> sql_option \<Rightarrow> bytes" where
  "option_key uc opt \<equiv> uc (id_value (so_name opt))"

lemma set_dedup_by: "set (dedup_by same xs) \<subseteq> set xs"
  by (induction same xs rule: dedup_by.induct) auto

lemma dedup_by_hd: "xs \<noteq> [] \<Longrightarrow> dedup_by same xs \<noteq> [] \<and> hd (dedup_by same xs) = hd xs"
  by (induction same xs rule: dedup_by.induct) auto

lemma dedup_by_sorted:
  fixes f :: "'a \<Rightarrow> 'b::linorder"
  assumes "sorted (map f xs)"
  shows "sorted_wrt (<) (map f (dedup_by (\<lambda>a b. f a = f b) xs))"
  using assms
proof (induction "\<lambda>a b. f a = f b" xs rule: dedup_by.induct)
  case (1 x y zs)
  show ?case
  proof (cases "f y = f x")
    case True
    then show ?thesis using 1 by simp
  next
    case False
    then have "f x < f z" if "z \<in> set (dedup_by (\<lambda>a b. f a = f b) (y # zs))" for z
    proof -
      have "z \<in> set (y # zs)" using that set_dedup_by by fast
      then have "f y \<le> f z" "f x \<le> f y" using 1(3) by auto
      then show ?thesis using False by auto
    qed
    then show ?thesis using False 1 by auto
  qed
qed auto

lemma find_dedup_by: "List.find (\<lambda>x. f x = k) (dedup_by (\<lambda>a b. f a = f b) xs) = List.find (\<lambda>x. f x = k) xs"
  by (induction "\<lambda>a b. f a = f b" xs rule: dedup_by.induct) auto

lemma find_filter: "List.find P xs = (case filter P xs of [] \<Rightarrow> None | x # _ \<Rightarrow> Some x)"
  by (induction xs) auto

lemma find_sort_key: "List.find (\<lambda>x. f x = k) (sort_key f xs) = List.find (\<lambda>x. f x = k) xs"
  by (simp add: find_filter sort_key_stable)

lemma uuid_options_facts:
  fixes uc
  defines "entries column_uuids uuid opts \<equiv> List.map_filter column_uuid_option column_uuids
    @ [\<lparr>so_name = ident_new ''TABLE_UUID'', so_value = ExprUnQuotedString uuid\<rparr>] @ opts"
  shows "sorted_wrt (<) (map (option_key uc) (uuid_options uc uuid cols opts))"
    and "List.find (\<lambda>x. option_key uc x = k) (uuid_options uc uuid cols opts) =
      List.find (\<lambda>x. option_key uc x = k) (entries cols uuid opts)"
    and "set (uuid_options uc uuid cols opts) \<subseteq> set (entries cols uuid opts)"
  using set_dedup_by[of _ "sort_key (option_key uc) (entries cols uuid opts)"]
  by (simp_all add: uuid_options_def entries_def dedup_by_sorted find_dedup_by find_sort_key Let_def)

lemma find_distinct_key:
  assumes "distinct (map f xs)" "x \<in> set xs"
  shows "List.find (\<lambda>y. f y = f x) xs = Some x"
  using assms by (induction xs) (auto simp: image_iff)

text \<open>
  Reading the column name out of \<open>column_<name>_uuid\<close> panics for exactly one input, the name
  \<open>column_uuid\<close>, in which the two patterns overlap.
\<close>

theorem extract_column_name_panics: "extract_column_name s = (Panic :: (bytes option, 'e) result) \<longleftrightarrow> s = ''column_uuid''"
proof
  assume "extract_column_name s = (Panic :: (bytes option, 'e) result)"
  then obtain t where t: "s = ''column_'' @ t" and e: "ends_with ''_uuid'' s" and len: "length t < 5"
    by (auto simp: extract_column_name_def starts_with_iff Let_def split: if_splits)
  from len consider "t = []" | a where "t = [a]" | a b where "t = [a, b]" | a b c where "t = [a, b, c]"
    | a b c d where "t = [a, b, c, d]"
    by (cases t; cases "tl t"; cases "tl (tl t)"; cases "tl (tl (tl t))"; cases "tl (tl (tl (tl t)))") auto
  then show "s = ''column_uuid''"
    using t e by cases (simp_all add: ends_with_def starts_with_def)
qed (simp add: extract_column_name_def starts_with_def ends_with_def)

definition hex_upper :: "char \<Rightarrow> bool" where
  "hex_upper c \<longleftrightarrow> c \<in> set ''0123456789ABCDEF''"

lemma hex_digit_upper: "n < 16 \<Longrightarrow> hex_upper (hex_digit n)"
proof -
  have "list_all (\<lambda>n. hex_upper (hex_digit n)) [0..<16]" by code_simp
  then show "n < 16 \<Longrightarrow> hex_upper (hex_digit n)"
    by (simp only: list_all_iff set_upt) (simp only: atLeastLessThan_iff Ball_def le0 simp_thms)
qed

lemma hex_digit_letter: "12 \<le> n \<Longrightarrow> n < 16 \<Longrightarrow> hex_digit n \<in> set ''CDEF''"
proof -
  have "list_all (\<lambda>n. hex_digit n \<in> set ''CDEF'') [12..<16]" by code_simp
  then show "12 \<le> n \<Longrightarrow> n < 16 \<Longrightarrow> hex_digit n \<in> set ''CDEF''"
    by (simp only: list_all_iff set_upt) (simp only: atLeastLessThan_iff Ball_def simp_thms)
qed

lemma hex16_digits: "length (hex16 w) = 16" "list_all hex_upper (hex16 w)"
  by (simp_all add: hex16_def list_all_iff hex_digit_upper del: set_upt)

lemma hd_hex16: "hd (hex16 w) = hex_digit (unat w div 2 ^ 60 mod 16)"
  by (simp add: hex16_def upt_conv_Cons)

lemma marked_digit: "12 \<le> unat (or (push_bit 60 12) r :: u64) div 2 ^ 60 mod 16"
proof -
  let ?y = "unat r div 2 ^ 60"
  have "unat (push_bit 60 12 :: u64) = 12 * 2 ^ 60" by simp
  then have "unat (or (push_bit 60 12) r :: u64) div 2 ^ 60 = drop_bit 60 (or (12 * 2 ^ 60) (unat r))"
    by (simp only: drop_bit_eq_div unsigned_or_eq)
  also have "\<dots> = or (drop_bit 60 (12 * 2 ^ 60)) (drop_bit 60 (unat r))" by (rule drop_bit_or)
  also have "\<dots> = or 12 ?y" by (simp only: drop_bit_eq_div) simp
  finally have d: "unat (or (push_bit 60 12) r :: u64) div 2 ^ 60 = or 12 ?y" .
  have "?y < 16"
    using unsigned_less[of r, where 'a = nat] by (simp add: less_mult_imp_div_less)
  moreover have "list_all (\<lambda>y. 12 \<le> or 12 y mod (16::nat)) [0..<16]" by code_simp
  ultimately have "12 \<le> or 12 ?y mod 16"
    by (simp only: list_all_iff set_upt) (simp only: atLeastLessThan_iff Ball_def le0 simp_thms)
  then show ?thesis by (simp only: d)
qed

lemma create_statement_to_sqlparser_cases:
  "create_statement_to_sqlparser X st =
     (if utf8_valid st then case sx_parse X st of None \<Rightarrow> Err Sqlparser | Some t \<Rightarrow> Ok t else Err Utf8)"
  by (simp add: create_statement_to_sqlparser_def from_utf8_def ok_or_def split: option.split)

lemma sqlparser_to_create_statement_cases:
  "sqlparser_to_create_statement X t =
     (if length (sx_print X t) \<le> CREATE_STMNT_LENGTH then Ok (sx_print X t) else Err StatementTooLarge)"
  by (simp add: sqlparser_to_create_statement_def bounded_try_from_def)

lemma update_uuid_in_create_table_statement_Ok:
  "update_uuid_in_create_table_statement uc X uuid cols statement = Ok st \<longleftrightarrow>
     (\<exists>table. create_statement_to_sqlparser X statement = Ok table \<and> utf8_valid uuid
        \<and> st = sx_print X (table\<lparr>ctb_with_options := uuid_options uc uuid cols (ctb_with_options table)\<rparr>)
        \<and> length st \<le> CREATE_STMNT_LENGTH)"
  by (auto simp: update_uuid_in_create_table_statement_def res_Ok_iff from_utf8_Ok_iff Let_def
      sqlparser_to_create_statement_cases split: if_splits)

text \<open>
  What the code relies on when it prints a statement and parses it again: the same table with
  the same options, where the value of an option may come back as a different expression with
  the same text.
\<close>

definition option_texts :: "sql_ext \<Rightarrow> sql_option list \<Rightarrow> (bytes \<times> bytes) list" where
  "option_texts X opts = map (\<lambda>o'. (id_value (so_name o'), sx_expr_to_string X (so_value o'))) opts"

definition reparses :: "sql_ext \<Rightarrow> create_table_builder \<Rightarrow> bool" where
  "reparses X t \<longleftrightarrow> utf8_valid (sx_print X t)
     \<and> (case sx_parse X (sx_print X t) of
          None \<Rightarrow> False
        | Some t' \<Rightarrow> ctb_name t' = ctb_name t \<and> ctb_columns t' = ctb_columns t
            \<and> option_texts X (ctb_with_options t') = option_texts X (ctb_with_options t))"

text \<open>The two loops of \<open>uuids_from_sqlparser\<close> depend on the texts of the options only.\<close>

fun text_column_uuid :: "bytes \<times> bytes \<Rightarrow> (column_uuid option, 'e) result" where
  "text_column_uuid (n, v) = bind_res (extract_column_name n) (\<lambda>m. case m of
       None \<Rightarrow> Ok None
     | Some nam \<Rightarrow>
         bind_res (expect_res (byte_string_try_from nam ())) (\<lambda>nam.
         bind_res (expect_res (table_uuid_try_from v ())) (\<lambda>uuid.
         Ok (Some \<lparr>cu_name = nam, cu_uuid = uuid\<rparr>))))"

definition last_table_uuid :: "(bytes \<Rightarrow> bytes) \<Rightarrow> (bytes \<times> bytes) list \<Rightarrow> (table_uuid, 'e) result" where
  "last_table_uuid lc texts = foldl (\<lambda>acc (n, v). bind_res acc (\<lambda>table_uuid.
     if lc n = ''table_uuid'' then expect_res (table_uuid_try_from v ()) else Ok table_uuid)) (Ok []) texts"

lemma filter_map_res_map: "filter_map_res f (map g xs) = filter_map_res (\<lambda>x. f (g x)) xs"
  by (induction xs) simp_all

lemma uuids_from_sqlparser_texts:
  "uuids_from_sqlparser X t = (let texts = option_texts X (ctb_with_options t) in
     bind_res (filter_map_res text_column_uuid texts) (\<lambda>cols.
     bind_res (expect_res (bounded_try_from MAX_COLS_PER_TABLE cols ())) (\<lambda>column_id_list.
     bind_res (last_table_uuid (sx_lc X) texts) (\<lambda>table_uuid.
     Ok (table_uuid, column_id_list)))))"
  by (simp add: uuids_from_sqlparser_def option_texts_def filter_map_res_map last_table_uuid_def
      foldl_map Let_def)

lemma filter_map_res_None:
  "(\<And>x. x \<in> set xs \<Longrightarrow> f x = Ok None) \<Longrightarrow> filter_map_res f xs = Ok []"
  by (induction xs) simp_all

lemma last_table_uuid_snoc:
  "last_table_uuid lc (texts @ [(n, v)]) = bind_res (last_table_uuid lc texts) (\<lambda>u.
     if lc n = ''table_uuid'' then expect_res (table_uuid_try_from v ()) else Ok u)"
  by (simp add: last_table_uuid_def)

lemma last_table_uuid_single:
  assumes "\<exists>x \<in> set texts. lc (fst x) = ''table_uuid''"
    and "\<And>n v. (n, v) \<in> set texts \<Longrightarrow> lc n = ''table_uuid'' \<Longrightarrow> v = uuid"
    and "length uuid \<le> IDENT_LENGTH"
  shows "(last_table_uuid lc texts :: (table_uuid, 'e) result) = Ok uuid"
proof -
  have "(last_table_uuid lc texts :: (table_uuid, 'e) result) = Ok uuid
      \<or> ((last_table_uuid lc texts :: (table_uuid, 'e) result) = Ok [] \<and> (\<forall>x \<in> set texts. lc (fst x) \<noteq> ''table_uuid''))"
    using assms(2,3)
  proof (induction texts rule: rev_induct)
    case Nil
    then show ?case by (simp add: last_table_uuid_def)
  next
    case (snoc x texts)
    obtain n v where x: "x = (n, v)" by (cases x)
    have v: "v = uuid" if "lc n = ''table_uuid''" using snoc.prems(1)[of n v] that by (simp add: x)
    have "(last_table_uuid lc texts :: (table_uuid, 'e) result) = Ok uuid
        \<or> ((last_table_uuid lc texts :: (table_uuid, 'e) result) = Ok [] \<and> (\<forall>x \<in> set texts. lc (fst x) \<noteq> ''table_uuid''))"
    proof (rule snoc.IH)
      show "v' = uuid" if "(n', v') \<in> set texts" "lc n' = ''table_uuid''" for n' v'
        using snoc.prems(1)[of n' v'] that by simp
    qed (rule snoc.prems(2))
    then show ?case
      using v snoc.prems(2)
      by (cases "lc n = ''table_uuid''") (auto simp: last_table_uuid_snoc x table_uuid_try_from_def bounded_try_from_def)
  qed
  then show ?thesis using assms(1) by auto
qed

section \<open>Properties\<close>

lemma generate_uuid_cases:
  "case generate_uuid X src of
     Some u \<Rightarrow> length u = 32 \<and> list_all hex_upper u \<and> hd u \<in> set ''CDEF''
   | None \<Rightarrow> False"
proof -
  obtain r1 r2 where r: "sx_rng X src = (r1, r2)" by (cases "sx_rng X src")
  let ?h = "hex16 (or (push_bit 60 12) r1)"
  have hd: "hd ?h \<in> set ''CDEF''"
    unfolding hd_hex16 using marked_digit[of r1] by (intro hex_digit_letter) auto
  then have "\<not> is_ascii_digit (hd ?h)" by (auto simp: is_ascii_digit_def)
  moreover have "?h \<noteq> []" using hex16_digits(1)[of "or (push_bit 60 12) r1"] by auto
  ultimately show ?thesis
    using hd hex16_digits by (auto simp: generate_uuid_def r table_uuid_try_from_def bounded_try_from_def)
qed

text \<open>
  Generating a UUID always succeeds and yields 32 upper-case hexadecimal digits of which
  the first is one of C, D, E and F: a UUID never starts with a digit, so it can stand in a
  statement as an identifier.
\<close>

theorem generate_uuid_shape:
  "case generate_uuid X src of
     Some u \<Rightarrow> length u = 32 \<and> list_all hex_upper u \<and> hd u \<in> set ''CDEF''
   | None \<Rightarrow> False"
  by (rule generate_uuid_cases)

text \<open>
  Updating the UUIDs of a statement: it fails exactly when the statement does not parse,
  the UUID is not UTF-8 or the result is too long. Otherwise the printed options are sorted by
  upper-cased name without duplicates, and each name has the value it has first in the column
  UUIDs, then the table UUID, then the previous options.
\<close>

theorem update_uuid_correct:
  "case update_uuid_in_create_table_statement uc X uuid cols statement of
     Ok st \<Rightarrow> (\<exists>table opts. create_statement_to_sqlparser X statement = Ok table
         \<and> st = sx_print X (table\<lparr>ctb_with_options := opts\<rparr>) \<and> length st \<le> CREATE_STMNT_LENGTH
         \<and> sorted_wrt (<) (map (option_key uc) opts)
         \<and> (\<forall>k. List.find (\<lambda>x. option_key uc x = k) opts =
              List.find (\<lambda>x. option_key uc x = k) (List.map_filter column_uuid_option cols
                @ [\<lparr>so_name = ident_new ''TABLE_UUID'', so_value = ExprUnQuotedString uuid\<rparr>]
                @ ctb_with_options table)))
   | Err InvalidUuid \<Rightarrow> is_ok (create_statement_to_sqlparser X statement) \<and> \<not> utf8_valid uuid
   | Err (ParseError e) \<Rightarrow> create_statement_to_sqlparser X statement = Err e \<or> e = StatementTooLarge
   | Panic \<Rightarrow> False"
proof (cases "update_uuid_in_create_table_statement uc X uuid cols statement")
  case (Ok st)
  then obtain table where "create_statement_to_sqlparser X statement = Ok table"
    "st = sx_print X (table\<lparr>ctb_with_options := uuid_options uc uuid cols (ctb_with_options table)\<rparr>)"
    "length st \<le> CREATE_STMNT_LENGTH"
    by (auto simp: update_uuid_in_create_table_statement_Ok)
  then show ?thesis using Ok uuid_options_facts(1,2) by (simp del: append_Cons append_Nil) blast
next
  case (Err e)
  then show ?thesis
    by (auto simp: update_uuid_in_create_table_statement_def create_statement_to_sqlparser_cases from_utf8_def
        sqlparser_to_create_statement_cases Let_def split: option.splits if_splits)
next
  case Panic
  then show ?thesis
    by (auto simp: update_uuid_in_create_table_statement_def create_statement_to_sqlparser_cases from_utf8_def
        sqlparser_to_create_statement_cases Let_def split: option.splits if_splits)
qed

text \<open>
  The laws of the case mappings and of printing that reading a UUID back relies on: an
  unquoted string prints as itself, and a name whose lower-case form is \<open>table_uuid\<close> has the
  upper-case form of \<open>TABLE_UUID\<close>.
\<close>

definition uuid_text_laws :: "(bytes \<Rightarrow> bytes) \<Rightarrow> sql_ext \<Rightarrow> bool" where
  "uuid_text_laws uc X \<longleftrightarrow> (\<forall>v. sx_expr_to_string X (ExprUnQuotedString v) = v)
     \<and> sx_lc X ''TABLE_UUID'' = ''table_uuid''
     \<and> (\<forall>n. sx_lc X n = ''table_uuid'' \<longrightarrow> uc n = uc ''TABLE_UUID'')"

definition is_column_uuid_name :: "bytes \<Rightarrow> bool" where
  "is_column_uuid_name n \<longleftrightarrow> starts_with ''column_'' n \<and> ends_with ''_uuid'' n"

lemma column_uuid_option_Some:
  "column_uuid_option c = Some opt \<Longrightarrow> so_name opt = ident_new (cu_name c)"
  by (auto simp: column_uuid_option_def split: if_splits)

lemma set_map_filter: "y \<in> set (List.map_filter f xs) \<longleftrightarrow> (\<exists>x \<in> set xs. f x = Some y)"
  by (induction xs) (auto simp: List.map_filter_def split: option.splits)

lemma uuid_options_table_uuid:
  assumes "list_all (\<lambda>c. uc (cu_name c) \<noteq> uc ''TABLE_UUID'') cols"
  shows "\<lparr>so_name = ident_new ''TABLE_UUID'', so_value = ExprUnQuotedString uuid\<rparr>
      \<in> set (uuid_options uc uuid cols opts)" (is "?e \<in> _")
    and "x \<in> set (uuid_options uc uuid cols opts) \<Longrightarrow> option_key uc x = uc ''TABLE_UUID'' \<Longrightarrow>
      x = \<lparr>so_name = ident_new ''TABLE_UUID'', so_value = ExprUnQuotedString uuid\<rparr>"
proof -
  let ?os = "uuid_options uc uuid cols opts" and ?k = "uc ''TABLE_UUID''"
  have none: "List.find (\<lambda>x. option_key uc x = ?k) (List.map_filter column_uuid_option cols) = None"
    using assms column_uuid_option_Some
    by (fastforce simp: find_None_iff set_map_filter list_all_iff ident_new_def)
  have app: "List.find P (xs @ ys) = (case List.find P xs of None \<Rightarrow> List.find P ys | Some v \<Rightarrow> Some v)"
    for P :: "sql_option \<Rightarrow> bool" and xs ys
    by (induction xs) auto
  have f: "List.find (\<lambda>x. option_key uc x = ?k) ?os = Some ?e"
    unfolding uuid_options_facts(2) app none by (simp add: ident_new_def)
  then show "?e \<in> set ?os" by (metis find_Some_iff nth_mem)
  have "distinct (map (option_key uc) ?os)"
    using uuid_options_facts(1) strict_sorted_iff by blast
  then show "x \<in> set ?os \<Longrightarrow> option_key uc x = ?k \<Longrightarrow> x = ?e"
    using find_distinct_key[of "option_key uc" ?os x] f by simp
qed

lemma uuid_options_names:
  assumes "opt \<in> set (uuid_options uc uuid cols opts)"
  shows "id_value (so_name opt) = ''TABLE_UUID'' \<or> id_value (so_name opt) \<in> set (map cu_name cols)
    \<or> id_value (so_name opt) \<in> set (map (id_value \<circ> so_name) opts)"
proof -
  have "opt \<in> set (List.map_filter column_uuid_option cols) \<or> so_name opt = ident_new ''TABLE_UUID'' \<or> opt \<in> set opts"
    using assms uuid_options_facts(3)[of uc uuid cols opts] by auto
  then show ?thesis
    by (auto simp: set_map_filter ident_new_def dest: column_uuid_option_Some)
qed

lemma table_uuid_not_column: "\<not> is_column_uuid_name ''TABLE_UUID''"
  by code_simp


definition ascii_lower_char :: "char \<Rightarrow> char" where
  "ascii_lower_char c = (if 65 \<le> byte c \<and> byte c \<le> 90 then char_of (byte c + 32) else c)"

fun demo_expr_to_string :: "sql_expr \<Rightarrow> bytes" where
  "demo_expr_to_string (ExprIdentifier i) = id_value i"
| "demo_expr_to_string (ExprSingleQuotedString v) = v"
| "demo_expr_to_string (ExprUnQuotedString v) = v"
| "demo_expr_to_string (ExprOther v) = v"

definition demo_columns :: "column_uuid list" where
  "demo_columns = [\<lparr>cu_name = ''a'', cu_uuid = ''a''\<rparr>]"

definition demo_table_with_uuid :: create_table_builder where
  "demo_table_with_uuid = demo_table\<lparr>ctb_with_options :=
     [\<lparr>so_name = ident_new ''a'', so_value = ExprUnQuotedString ''a''\<rparr>,
      \<lparr>so_name = ident_new ''TABLE_UUID'', so_value = ExprUnQuotedString ''C0''\<rparr>]\<rparr>"

definition demo_sql :: sql_ext where
  "demo_sql = \<lparr>sx_parse = (\<lambda>b. if b = ''s'' then Some demo_table else if b = ''p'' then Some demo_table_with_uuid else None),
     sx_print = (\<lambda>t. if t = demo_table_with_uuid then ''p'' else ''s''),
     sx_expr_to_string = demo_expr_to_string, sx_lc = map ascii_lower_char, sx_rng = (\<lambda>_. (0, 0))\<rparr>"

lemma demo_updated_table:
  "demo_table\<lparr>ctb_with_options := uuid_options to_ascii_uppercase ''C0'' demo_columns (ctb_with_options demo_table)\<rparr> =
     demo_table_with_uuid"
  by code_simp

lemma demo_uuid_text_laws: "uuid_text_laws to_ascii_uppercase demo_sql"
proof -
  have "ascii_upper_char (ascii_lower_char c) = ascii_upper_char c" for c
    by (simp add: ascii_upper_char_def ascii_lower_char_def)
  then have up: "to_ascii_uppercase (map ascii_lower_char n) = to_ascii_uppercase n" for n
    by (simp add: to_ascii_uppercase_def)
  have low: "map ascii_lower_char ''TABLE_UUID'' = ''table_uuid''" by code_simp
  show ?thesis
    unfolding uuid_text_laws_def demo_sql_def sql_ext.simps
  proof (intro conjI allI impI)
    fix n assume "map ascii_lower_char n = ''table_uuid''"
    then show "to_ascii_uppercase n = to_ascii_uppercase ''TABLE_UUID''" using up low by metis
  qed (simp_all only: demo_expr_to_string.simps low)
qed


text \<open>
  A column called \<open>table_uuid\<close> shadows the UUID of its table: its entry comes first.
\<close>

lemma column_shadows_table_uuid:
  "uuid_options to_ascii_uppercase ''C0'' [\<lparr>cu_name = ''table_uuid'', cu_uuid = ''X''\<rparr>] [] =
     [\<lparr>so_name = ident_new ''table_uuid'', so_value = ExprUnQuotedString ''X''\<rparr>]"
  by code_simp

end
