(* ===== verification/Pallet_Tables.thy ===== *)
theory Pallet_Tables
  imports Sql_Statements
begin

text \<open>
  \<open>pallets/tables\<close>: namespaces and tables with their versions and UUIDs, the stored schemas,
  snapshots, quorum sizes and sources, and the creation and removal of tables together with
  their commitments.
\<close>

section \<open>State\<close>

record tables_state = commitments_state +
  ColumnVersions :: "(table_identifier, table_version, column_uuid list) storage_double_map"
  NamespaceVersions :: "(bytes, table_version, table_uuid) storage_double_map"
  TableVersions :: "(table_identifier, table_version, table_uuid) storage_double_map"
  Identifiers :: "(table_type, table_identifier list) storage_map"
  Schemas :: "(bytes, bytes, create_statement) storage_double_map"
  Snapshots :: "(table_identifier, snapshot_url) storage_map"
  TableInsertQuorums :: "(table_identifier, insert_quorum_size) storage_map"
  TableSources :: "(table_identifier, source) storage_map"

section \<open>Functions of the pallet\<close>

fun map_uuid_error :: "update_uuid_error \<Rightarrow> dispatch_error" where
  "map_uuid_error InvalidUuid = TablesError TableUUIDError"
| "map_uuid_error (ParseError error) = TablesError CreateStatementParseError"

definition remove_commits :: "table_identifier \<Rightarrow> 'a tables_state_scheme \<Rightarrow> 'a tables_state_scheme" where
  "remove_commits ident s =
     fold (\<lambda>((k1, k2), _) s. if k1 = ident
         then s\<lparr>CommitmentStorageMap := sm_remove (ident, k2) (CommitmentStorageMap s)\<rparr> else s)
       (CommitmentStorageMap s) s"

definition insert_namespace_uuid ::
    "bytes \<Rightarrow> table_version \<Rightarrow> table_uuid \<Rightarrow> 'a tables_state_scheme \<Rightarrow> 'a tables_state_scheme dispatch_result" where
  "insert_namespace_uuid namespace_name version namespace_uuid s =
     (if sm_contains (NamespaceVersions s) (namespace_name, version)
      then Err (TablesError VersionAlreadyExists)
      else Ok (s\<lparr>NamespaceVersions := sm_insert (namespace_name, version) namespace_uuid (NamespaceVersions s)\<rparr>))"

fun max_version :: "table_version list \<Rightarrow> table_version option" where
  "max_version [] = None"
| "max_version (v # vs) = Some (fold max vs v)"

text \<open>The version after the largest one; the addition wraps at 16 bits.\<close>

definition next_version :: "(table_identifier, table_version, table_uuid) storage_double_map
    \<Rightarrow> table_identifier \<Rightarrow> table_version" where
  "next_version versions ident =
     (case max_version (map fst (sdm_iter_prefix versions ident)) of None \<Rightarrow> 0 | Some v \<Rightarrow> v + 1)"

definition insert_table_uuid ::
    "table_identifier \<Rightarrow> table_uuid \<Rightarrow> column_uuid list \<Rightarrow> 'a tables_state_scheme
     \<Rightarrow> ('a tables_state_scheme \<times> table_version) dispatch_result" where
  "insert_table_uuid ident uuid column_uuids s =
     (let version = next_version (TableVersions s) ident
      in Ok (s\<lparr>TableVersions := sm_insert (ident, version) uuid (TableVersions s),
               ColumnVersions := sm_insert (ident, version) column_uuids (ColumnVersions s)\<rparr>, version))"

text \<open>A full identifier list is stored back unchanged: the result of \<open>try_push\<close> is ignored.\<close>

definition insert_schema ::
    "table_identifier \<Rightarrow> create_statement \<Rightarrow> table_type \<Rightarrow> source \<Rightarrow> 'a tables_state_scheme
     \<Rightarrow> 'a tables_state_scheme" where
  "insert_schema ident stmnt table_type source s =
     (let identifiers = sm_get_or [] (Identifiers s) table_type;
          identifiers = (case try_push MAX_IDENTIFIERS_PER_SOURCE_AND_MODE ident identifiers of
             Some ids \<Rightarrow> ids | None \<Rightarrow> identifiers);
          quorum = insert_quorum_size_from_table_type table_type
      in s\<lparr>Identifiers := sm_insert table_type identifiers (Identifiers s),
           Schemas := sm_insert (ti_namespace ident, ti_name ident) stmnt (Schemas s),
           TableInsertQuorums := sm_insert ident quorum (TableInsertQuorums s),
           TableSources := sm_insert ident source (TableSources s)\<rparr>)"

definition insert_initial_commitment ::
    "('h, 'uh, 'sh, 'd, 'ud, 'sd) sxt_ext \<Rightarrow> sql_ext \<Rightarrow> table_identifier \<Rightarrow> create_statement
     \<Rightarrow> table_commitment_bytes_per_scheme \<Rightarrow> snapshot_url \<Rightarrow> 'a tables_state_scheme
     \<Rightarrow> ('a tables_state_scheme \<times> create_statement) dispatch_result" where
  "insert_initial_commitment E X ident statement commit snapshot s =
     bind_res (map_err (\<lambda>_. TablesError CreateStatementParseError) (create_statement_to_sqlparser X statement))
       (\<lambda>create_table.
     bind_res (map_err CommitmentsError
       (process_create_table_from_snapshot_and_initiate_commitments E create_table commit s)) (\<lambda>(s, metadata).
     bind_res (map_err (\<lambda>_. TablesError CreateStatementParseError)
       (sqlparser_to_create_statement X (ctm_table_with_meta_columns metadata))) (\<lambda>statement_with_metadata.
     Ok (s\<lparr>Snapshots := sm_insert ident snapshot (Snapshots s)\<rparr>, statement_with_metadata))))"

definition insert_table_with_empty_commit ::
    "('h, 'uh, 'sh, 'd, 'ud, 'sd) sxt_ext \<Rightarrow> sql_ext \<Rightarrow> table_identifier \<Rightarrow> create_statement
     \<Rightarrow> snapshot_url \<Rightarrow> 'a tables_state_scheme
     \<Rightarrow> ('a tables_state_scheme \<times> create_statement) dispatch_result" where
  "insert_table_with_empty_commit E X ident statement snapshot s =
     bind_res (map_err (\<lambda>_. TablesError CreateStatementParseError) (create_statement_to_sqlparser X statement))
       (\<lambda>create_table.
     bind_res (map_err CommitmentsError
       (process_create_table_and_initiate_commitments_with_dynamic_dory E create_table s)) (\<lambda>(s, metadata).
     bind_res (map_err (\<lambda>_. TablesError CreateStatementParseError)
       (sqlparser_to_create_statement X (ctm_table_with_meta_columns metadata))) (\<lambda>statement_with_metadata.
     Ok (s\<lparr>Snapshots := sm_insert ident snapshot (Snapshots s)\<rparr>, statement_with_metadata))))"

definition get_or_generate_uuids_for_table ::
    "sql_ext \<Rightarrow> create_statement \<Rightarrow> table_identifier \<Rightarrow> 'a tables_state_scheme
     \<Rightarrow> (table_uuid \<times> column_uuid list) dispatch_result" where
  "get_or_generate_uuids_for_table X raw identifier s =
     (let fallback =
        bind_res (from_utf8 (ti_namespace identifier) (OtherError ''Invalid UTF-8 namespace'')) (\<lambda>namespace.
        bind_res (from_utf8 (ti_name identifier) (OtherError ''Invalid UTF-8 name'')) (\<lambda>nam.
        bind_res (ok_or (generate_table_uuid X (unat (block_number s)) namespace nam)
          (TablesError UUIDGenerationError)) (\<lambda>table_uuid.
        bind_res (generate_column_uuid_list X raw) (\<lambda>column_uuids.
        Ok (table_uuid, column_uuids)))))
      in case create_statement_to_sqlparser X raw of
           Ok parsed \<Rightarrow>
             bind_res (uuids_from_sqlparser X parsed) (\<lambda>(table_uuid, column_uuids).
             if table_uuid \<noteq> [] \<or> column_uuids \<noteq> [] then Ok (table_uuid, column_uuids) else fallback)
         | _ \<Rightarrow> fallback)"

definition drop_single_table ::
    "table_type \<Rightarrow> table_identifier \<Rightarrow> 'a tables_state_scheme \<Rightarrow> 'a tables_state_scheme dispatch_result" where
  "drop_single_table table_type ident s =
     (let identifiers = filter (\<lambda>x. x \<noteq> ident) (sm_get_or [] (Identifiers s) table_type) in
     bind_res (if length identifiers < length (sm_get_or [] (Identifiers s) table_type)
       then Ok (s\<lparr>Identifiers := sm_insert table_type identifiers (Identifiers s)\<rparr>)
       else Err (TablesError TableNotFound)) (\<lambda>s.
     bind_res (if sm_contains (Schemas s) (ti_namespace ident, ti_name ident)
       then Ok (s\<lparr>Schemas := sm_remove (ti_namespace ident, ti_name ident) (Schemas s)\<rparr>)
       else Err (TablesError TableNotFound)) (\<lambda>s.
     Ok (if sm_contains (TableInsertQuorums s) ident
         then s\<lparr>TableInsertQuorums := sm_remove ident (TableInsertQuorums s)\<rparr> else s))))"

text \<open>The final statement: the printed definition, the WITH clause if there was one, a semicolon.\<close>

definition reconstruct_statement :: "bytes \<Rightarrow> bytes option \<Rightarrow> bytes dispatch_result" where
  "reconstruct_statement statement_with_metadata with_options =
     (case with_options of
        Some opts \<Rightarrow>
          (let base = trim_end_char CHR '';'' statement_with_metadata; base = base @ '' '' in
           bind_res (from_utf8 opts (TablesError UtfConversionError)) (\<lambda>opts.
           Ok (base @ opts @ '';'')))
      | None \<Rightarrow> Ok (trim_end_char CHR '';'' statement_with_metadata @ '';''))"

text \<open>The closure that \<open>create_tables_inner\<close> maps over the tables.\<close>

definition create_one_table ::
    "('h, 'uh, 'sh, 'd, 'ud, 'sd) sxt_ext \<Rightarrow> sql_ext \<Rightarrow> 'a tables_state_scheme \<Rightarrow> update_table
     \<Rightarrow> ('a tables_state_scheme \<times> update_table) dispatch_result" where
  "create_one_table E X s table =
     bind_res (map_err (\<lambda>_. TablesError UUIDGenerationError)
       (get_or_generate_uuids_for_table X (ut_create_statement table) (ut_ident table) s))
       (\<lambda>(table_uuid, column_uuids).
     bind_res (map_err map_uuid_error (update_uuid_in_create_table_statement (ex_uc E) X table_uuid column_uuids
       (ut_create_statement table))) (\<lambda>updated_create_statement.
     bind_res (insert_table_uuid (ut_ident table) table_uuid column_uuids s) (\<lambda>(s, _).
     let s = insert_schema (ut_ident table) updated_create_statement (ut_table_type table) (ut_source table) s in
     bind_res (map_err (\<lambda>_. TablesError CreateStatementParseError)
       (create_statement_to_sqlparser_remove_with X updated_create_statement)) (\<lambda>(create_table, with_options).
     bind_res (case ut_commitment table of
         EmptyCommitment scheme \<Rightarrow> map_err CommitmentsError
           (process_create_table_and_initiate_commitments_with_scheme E create_table scheme s)
       | FromSnapshot snapshot_url per_commitment_scheme \<Rightarrow>
           (let s = s\<lparr>Snapshots := sm_insert (ut_ident table) snapshot_url (Snapshots s)\<rparr> in
            map_err CommitmentsError
              (process_create_table_from_snapshot_and_initiate_commitments E create_table per_commitment_scheme s)))
       (\<lambda>(s, metadata).
     bind_res (map_err (\<lambda>_. TablesError CreateStatementParseError)
       (sqlparser_to_create_statement X (ctm_table_with_meta_columns metadata))) (\<lambda>statement_with_metadata.
     bind_res (from_utf8 statement_with_metadata (TablesError UtfConversionError)) (\<lambda>statement_with_metadata.
     bind_res (reconstruct_statement statement_with_metadata with_options) (\<lambda>reconstructed.
     bind_res (bounded_try_from CREATE_STMNT_LENGTH reconstructed (TablesError BoundedVecError)) (\<lambda>statement.
     Ok (s, table\<lparr>ut_create_statement := statement\<rparr>))))))))))"

definition create_tables_inner ::
    "('h, 'uh, 'sh, 'd, 'ud, 'sd) sxt_ext \<Rightarrow> sql_ext \<Rightarrow> origin \<Rightarrow> update_table list
     \<Rightarrow> 'a tables_state_scheme \<Rightarrow> 'a tables_state_scheme dispatch_result" where
  "create_tables_inner E X orig tables s =
     bind_res (ensure_root_or_permissioned s orig (TablesPallet EditSchema)) (\<lambda>owner.
     bind_res (collect_state (create_one_table E X) s tables) (\<lambda>(s, tables_with_meta_columns).
     bind_res (expect_res (bounded_try_from MAX_TABLES_PER_SCHEMA tables_with_meta_columns ()))
       (\<lambda>tables_with_meta_columns.
     Ok (deposit_event (SchemaUpdated owner tables_with_meta_columns) s))))"

section \<open>Extrinsics\<close>

definition create_tables ::
    "('h, 'uh, 'sh, 'd, 'ud, 'sd) sxt_ext \<Rightarrow> sql_ext \<Rightarrow> origin \<Rightarrow> update_table list
     \<Rightarrow> 'a tables_state_scheme \<Rightarrow> 'a tables_state_scheme dispatch_result" where
  "create_tables E X orig tables s = create_tables_inner E X orig tables s"

definition create_table_with_snapshot ::
    "('h, 'uh, 'sh, 'd, 'ud, 'sd) sxt_ext \<Rightarrow> sql_ext \<Rightarrow> source_and_mode \<Rightarrow> 'a tables_state_scheme
     \<Rightarrow> create_table_request \<Rightarrow> ('a tables_state_scheme \<times> create_table_request) dispatch_result" where
  "create_table_with_snapshot E X source_and_mode s table =
     (let s = insert_schema (cr_table_name table) (cr_ddl table) (cr_table_type table) (sm_source source_and_mode) s in
     bind_res (insert_initial_commitment E X (cr_table_name table) (cr_ddl table) (cr_commitment table)
       (cr_snapshot_url table) s) (\<lambda>(s, statement_with_metadata).
     Ok (s, table\<lparr>cr_ddl := statement_with_metadata\<rparr>)))"

definition create_tables_with_snapshot_and_commitment ::
    "('h, 'uh, 'sh, 'd, 'ud, 'sd) sxt_ext \<Rightarrow> sql_ext \<Rightarrow> origin \<Rightarrow> source_and_mode
     \<Rightarrow> create_table_request list \<Rightarrow> 'a tables_state_scheme \<Rightarrow> 'a tables_state_scheme dispatch_result" where
  "create_tables_with_snapshot_and_commitment E X orig source_and_mode tables s =
     bind_res (ensure_root_or_permissioned s orig (TablesPallet EditSchema)) (\<lambda>_.
     bind_res (collect_state (create_table_with_snapshot E X source_and_mode) s tables) (\<lambda>(s, tables).
     bind_res (expect_res (bounded_try_from MAX_TABLES_PER_SCHEMA tables ())) (\<lambda>tables.
     Ok (deposit_event (TablesCreatedWithCommitments source_and_mode tables) s))))"

text \<open>
  \<open>StorageMap::clear\<close> with a limit on the stored keys it removes: the cursor is returned when
  keys are left.
\<close>

definition sm_clear :: "nat \<Rightarrow> ('k, 'v) storage_map \<Rightarrow> ('k, 'v) storage_map \<times> 'k option" where
  "sm_clear limit m = (let rest = drop limit m in (rest, case rest of [] \<Rightarrow> None | (k, _) # _ \<Rightarrow> Some k))"

definition clear_tables :: "origin \<Rightarrow> 'a tables_state_scheme \<Rightarrow> 'a tables_state_scheme dispatch_result" where
  "clear_tables orig s =
     bind_res (ensure_root orig) (\<lambda>_.
     let (schemas, maybe_cursor) = sm_clear 1000 (Schemas s); s = s\<lparr>Schemas := schemas\<rparr> in
     bind_res (ensure (maybe_cursor = None) (TablesError NotAllSchemasRemovedError)) (\<lambda>_.
     let (quorums, maybe_cursor) = sm_clear 1000 (TableInsertQuorums s); s = s\<lparr>TableInsertQuorums := quorums\<rparr> in
     bind_res (ensure (maybe_cursor = None) (TablesError NotAllInsertQuorumsRemovedError)) (\<lambda>_.
     let (commits, maybe_cursor) = sm_clear 1000 (CommitmentStorageMap s); s = s\<lparr>CommitmentStorageMap := commits\<rparr> in
     bind_res (ensure (maybe_cursor = None) (TablesError NotAllCommitmentsRemovedError)) (\<lambda>_.
     Ok s))))"

definition create_namespace ::
    "sql_ext \<Rightarrow> origin \<Rightarrow> bytes \<Rightarrow> table_version \<Rightarrow> create_statement \<Rightarrow> table_type \<Rightarrow> source
     \<Rightarrow> 'a tables_state_scheme \<Rightarrow> 'a tables_state_scheme dispatch_result" where
  "create_namespace X orig schema_name version create_statement table_type source s =
     bind_res (ensure_root_or_permissioned s orig (TablesPallet EditSchema)) (\<lambda>_.
     bind_res (from_utf8 create_statement (TablesError CreateStatementParseError)) (\<lambda>raw_sql.
     bind_res (from_utf8 schema_name (TablesError SchemaNameParseError)) (\<lambda>schema_name_s.
     bind_res (case extract_schema_uuid raw_sql of
         Some uuid \<Rightarrow> table_uuid_try_from uuid (TablesError TableUUIDError)
       | None \<Rightarrow> ok_or (generate_namespace_uuid X (unat (block_number s)) schema_name_s)
           (TablesError UUIDGenerationError)) (\<lambda>namespace_uuid.
     bind_res (insert_namespace_uuid schema_name version namespace_uuid s) (\<lambda>s.
     Ok (deposit_event (NamespaceCreated create_statement version namespace_uuid table_type source) s))))))"

definition drop_table ::
    "origin \<Rightarrow> table_type \<Rightarrow> table_identifier \<Rightarrow> source \<Rightarrow> 'a tables_state_scheme
     \<Rightarrow> 'a tables_state_scheme dispatch_result" where
  "drop_table orig table_type ident source s =
     bind_res (ensure_root_or_permissioned s orig (TablesPallet EditSchema)) (\<lambda>owner.
     bind_res (drop_single_table table_type ident s) (\<lambda>s.
     let s = remove_commits ident s
     in Ok (deposit_event (TableDropped owner table_type ident source) s)))"

definition drop_invalid_commits ::
    "origin \<Rightarrow> table_identifier \<Rightarrow> 'a tables_state_scheme \<Rightarrow> 'a tables_state_scheme dispatch_result" where
  "drop_invalid_commits orig ident s =
     bind_res (ensure_root orig) (\<lambda>_. Ok (remove_commits ident s))"

definition update_namespace_uuid ::
    "origin \<Rightarrow> bytes \<Rightarrow> table_version \<Rightarrow> table_uuid \<Rightarrow> 'a tables_state_scheme
     \<Rightarrow> 'a tables_state_scheme dispatch_result" where
  "update_namespace_uuid orig namespace version new_uuid s =
     bind_res (ensure_root_or_permissioned s orig (TablesPallet EditUuid)) (\<lambda>_.
     let maybe_uuid = sm_get_or [] (NamespaceVersions s) (namespace, version);
         s = s\<lparr>NamespaceVersions := sm_insert (namespace, version) new_uuid (NamespaceVersions s)\<rparr>
     in Ok (deposit_event (NamespaceUuidUpdated maybe_uuid new_uuid version namespace) s))"

definition update_table_uuid ::
    "(bytes \<Rightarrow> bytes) \<Rightarrow> sql_ext \<Rightarrow> origin \<Rightarrow> table_identifier \<Rightarrow> table_version \<Rightarrow> table_uuid
     \<Rightarrow> 'a tables_state_scheme \<Rightarrow> 'a tables_state_scheme dispatch_result" where
  "update_table_uuid uc X orig table version new_uuid s =
     bind_res (ensure_root_or_permissioned s orig (TablesPallet EditUuid)) (\<lambda>_.
     let maybe_uuid = sm_get_or [] (TableVersions s) (table, version);
         s = s\<lparr>TableVersions := sm_insert (table, version) new_uuid (TableVersions s)\<rparr> in
     bind_res (case sm_get (Schemas s) (ti_namespace table, ti_name table) of
         Some old_create_statement \<Rightarrow>
           bind_res (map_err map_uuid_error
             (update_uuid_in_create_table_statement uc X new_uuid [] old_create_statement)) (\<lambda>updated.
           Ok (s\<lparr>Schemas := sm_insert (ti_namespace table, ti_name table) updated (Schemas s)\<rparr>))
       | None \<Rightarrow> Ok s) (\<lambda>s.
     Ok (deposit_event (TableUuidUpdated maybe_uuid new_uuid version table) s)))"

text \<open>
  The calls of the pallet. The bounded vectors among the arguments bound what decodes into a
  call: 1024 tables, 8192 bytes of statement, 64 bytes of UUID.
\<close>

datatype tables_call =
    CreateTables "update_table list"
  | CreateTablesWithSnapshot source_and_mode "create_table_request list"
  | ClearTables
  | CreateNamespace bytes table_version create_statement table_type source
  | DropTable table_type table_identifier source
  | DropInvalidCommits table_identifier
  | UpdateNamespaceUuid bytes table_version table_uuid
  | UpdateTableUuid table_identifier table_version table_uuid

fun tables_call_decodes :: "tables_call \<Rightarrow> bool" where
  "tables_call_decodes (CreateTables tables) \<longleftrightarrow> length tables \<le> MAX_TABLES_PER_SCHEMA
     \<and> list_all (\<lambda>t. length (ut_create_statement t) \<le> CREATE_STMNT_LENGTH) tables"
| "tables_call_decodes (CreateTablesWithSnapshot _ tables) \<longleftrightarrow> length tables \<le> MAX_TABLES_PER_SCHEMA
     \<and> list_all (\<lambda>t. length (cr_ddl t) \<le> CREATE_STMNT_LENGTH) tables"
| "tables_call_decodes (CreateNamespace nam _ st _ _) \<longleftrightarrow> length nam \<le> IDENT_LENGTH \<and> length st \<le> CREATE_STMNT_LENGTH"
| "tables_call_decodes (UpdateNamespaceUuid namespace _ uuid) \<longleftrightarrow> length namespace \<le> IDENT_LENGTH \<and> length uuid \<le> IDENT_LENGTH"
| "tables_call_decodes (UpdateTableUuid _ _ uuid) \<longleftrightarrow> length uuid \<le> IDENT_LENGTH"
| "tables_call_decodes _ \<longleftrightarrow> True"

fun tables_call_run ::
    "('h, 'uh, 'sh, 'd, 'ud, 'sd) sxt_ext \<Rightarrow> sql_ext \<Rightarrow> tables_call \<Rightarrow> origin
     \<Rightarrow> 'a tables_state_scheme \<Rightarrow> 'a tables_state_scheme dispatch_result" where
  "tables_call_run E X (CreateTables tables) orig s = create_tables E X orig tables s"
| "tables_call_run E X (CreateTablesWithSnapshot sam tables) orig s =
     create_tables_with_snapshot_and_commitment E X orig sam tables s"
| "tables_call_run E X ClearTables orig s = clear_tables orig s"
| "tables_call_run E X (CreateNamespace nam version st ty src) orig s = create_namespace X orig nam version st ty src s"
| "tables_call_run E X (DropTable ty ident src) orig s = drop_table orig ty ident src s"
| "tables_call_run E X (DropInvalidCommits ident) orig s = drop_invalid_commits orig ident s"
| "tables_call_run E X (UpdateNamespaceUuid namespace version uuid) orig s =
     update_namespace_uuid orig namespace version uuid s"
| "tables_call_run E X (UpdateTableUuid table version uuid) orig s =
     update_table_uuid (ex_uc E) X orig table version uuid s"

definition tables_dispatch ::
    "('h, 'uh, 'sh, 'd, 'ud, 'sd) sxt_ext \<Rightarrow> sql_ext \<Rightarrow> tables_call \<Rightarrow> origin
     \<Rightarrow> 'a tables_state_scheme \<Rightarrow> 'a tables_state_scheme dispatch_result" where
  "tables_dispatch E X c orig s =
     (if tables_call_decodes c then tables_call_run E X c orig s else Err (OtherError ''decode''))"

section \<open>Invariant\<close>

text \<open>
  The stored data of the pallet is bounded, the tables with a schema are exactly the tables with
  a quorum size and have a source, and column UUIDs exist for assigned versions only.
\<close>

definition schema_of :: "'a tables_state_scheme \<Rightarrow> table_identifier \<Rightarrow> create_statement option" where
  "schema_of s t = sm_get (Schemas s) (ti_namespace t, ti_name t)"

definition tables_inv :: "'a tables_state_scheme \<Rightarrow> bool" where
  "tables_inv s \<longleftrightarrow>
     (\<forall>ty ids. sm_get (Identifiers s) ty = Some ids \<longrightarrow> length ids \<le> MAX_IDENTIFIERS_PER_SOURCE_AND_MODE)
     \<and> (\<forall>t st. schema_of s t = Some st \<longrightarrow> length st \<le> CREATE_STMNT_LENGTH)
     \<and> (\<forall>t. schema_of s t \<noteq> None \<longleftrightarrow> sm_contains (TableInsertQuorums s) t)
     \<and> (\<forall>t. schema_of s t \<noteq> None \<longrightarrow> sm_contains (TableSources s) t)
     \<and> (\<forall>t v. sm_contains (ColumnVersions s) (t, v) \<longrightarrow> sm_contains (TableVersions s) (t, v))"

lemma ti_eq_iff: "ti_namespace (t :: table_identifier) = ti_namespace t' \<and> ti_name t = ti_name t' \<longleftrightarrow> t = t'"
  by (cases t; cases t') auto

lemma sm_get_or_bounded:
  "tables_inv s \<Longrightarrow> length (sm_get_or [] (Identifiers s) ty) \<le> MAX_IDENTIFIERS_PER_SOURCE_AND_MODE"
  by (auto simp: tables_inv_def sm_get_or_def split: option.split)

text \<open>The fields of the pallet are independent of the ones below it.\<close>

lemma tables_inv_frame [simp]:
  "tables_inv (s\<lparr>CommitmentStorageMap := m\<rparr>) = tables_inv s"
  "tables_inv (s\<lparr>Snapshots := sn\<rparr>) = tables_inv s"
  "tables_inv (s\<lparr>NamespaceVersions := nv\<rparr>) = tables_inv s"
  "tables_inv (deposit_event e s) = tables_inv s"
  by (simp_all add: tables_inv_def schema_of_def deposit_event_def)

lemma insert_schema_inv:
  assumes "tables_inv s" "length st \<le> CREATE_STMNT_LENGTH"
  shows "tables_inv (insert_schema ident st ty src s)"
  using assms sm_get_or_bounded[OF assms(1), of ty]
  by (simp add: tables_inv_def schema_of_def insert_schema_def Let_def try_push_def ti_eq_iff)

lemma insert_table_uuid_inv:
  "tables_inv s \<Longrightarrow> insert_table_uuid ident uuid cols s = Ok (s', v) \<Longrightarrow> tables_inv s'"
  unfolding tables_inv_def schema_of_def insert_table_uuid_def Let_def by fastforce

lemma update_uuid_bounded:
  "update_uuid_in_create_table_statement uc X uuid cols st = Ok st' \<Longrightarrow> length st' \<le> CREATE_STMNT_LENGTH"
  by (auto simp: update_uuid_in_create_table_statement_Ok)

lemma snapshots_commitments_commute:
  "s\<lparr>Snapshots := a, CommitmentStorageMap := m\<rparr> = s\<lparr>CommitmentStorageMap := m, Snapshots := a\<rparr>"
  by simp

lemma snapshots_refl: "s\<lparr>CommitmentStorageMap := m\<rparr> = s\<lparr>CommitmentStorageMap := m, Snapshots := Snapshots s\<rparr>"
  by simp

lemma create_one_table_Ok:
  assumes "create_one_table E X s table = Ok (s', table')"
  obtains uuid cols st s1 v m sn where
    "get_or_generate_uuids_for_table X (ut_create_statement table) (ut_ident table) s = Ok (uuid, cols)"
    "update_uuid_in_create_table_statement (ex_uc E) X uuid cols (ut_create_statement table) = Ok st"
    "insert_table_uuid (ut_ident table) uuid cols s = Ok (s1, v)"
    "s' = (insert_schema (ut_ident table) st (ut_table_type table) (ut_source table) s1)
       \<lparr>CommitmentStorageMap := m, Snapshots := sn\<rparr>"
proof -
  from assms obtain uuid cols st s1 v ct w s2 md where
    a: "get_or_generate_uuids_for_table X (ut_create_statement table) (ut_ident table) s = Ok (uuid, cols)"
      "update_uuid_in_create_table_statement (ex_uc E) X uuid cols (ut_create_statement table) = Ok st"
      "insert_table_uuid (ut_ident table) uuid cols s = Ok (s1, v)" and
    b: "(case ut_commitment table of
         EmptyCommitment scheme \<Rightarrow> map_err CommitmentsError
           (process_create_table_and_initiate_commitments_with_scheme E ct scheme
             (insert_schema (ut_ident table) st (ut_table_type table) (ut_source table) s1))
       | FromSnapshot snapshot_url per_commitment_scheme \<Rightarrow>
           (let s2 = insert_schema (ut_ident table) st (ut_table_type table) (ut_source table) s1;
                s = s2\<lparr>Snapshots := sm_insert (ut_ident table) snapshot_url (Snapshots s2)\<rparr> in
            map_err CommitmentsError
              (process_create_table_from_snapshot_and_initiate_commitments E ct per_commitment_scheme s)))
       = Ok (s', md)"
    unfolding create_one_table_def Let_def by (auto simp: bind_res_Ok_iff map_err_Ok_iff)
  let ?s2 = "insert_schema (ut_ident table) st (ut_table_type table) (ut_source table) s1"
  from b have "\<exists>m sn. s' = ?s2\<lparr>CommitmentStorageMap := m, Snapshots := sn\<rparr>"
  proof (cases "ut_commitment table")
    case (FromSnapshot u p)
    with b obtain m where "s' = ?s2\<lparr>Snapshots := sm_insert (ut_ident table) u (Snapshots ?s2), CommitmentStorageMap := m\<rparr>"
      by (auto simp: map_err_Ok_iff Let_def dest: create_from_snapshot_frame)
    then show ?thesis by (metis snapshots_commitments_commute)
  next
    case (EmptyCommitment f)
    with b obtain m where "s' = ?s2\<lparr>CommitmentStorageMap := m\<rparr>"
      by (auto simp: map_err_Ok_iff dest: create_with_scheme_frame)
    then show ?thesis by (metis snapshots_refl)
  qed
  with a show thesis using that by blast
qed

lemma create_one_table_inv:
  "tables_inv s \<Longrightarrow> create_one_table E X s table = Ok (s', table') \<Longrightarrow> tables_inv s'"
  by (elim create_one_table_Ok) (simp add: insert_schema_inv insert_table_uuid_inv update_uuid_bounded)

lemma create_tables_inner_inv:
  "tables_inv s \<Longrightarrow> create_tables_inner E X orig tables s = Ok s' \<Longrightarrow> tables_inv s'"
  unfolding create_tables_inner_def
  by (auto simp: res_Ok_iff dest: collect_state_invariant[where I = tables_inv, rotated 2, OF _ create_one_table_inv])

lemma insert_initial_commitment_frame:
  assumes "insert_initial_commitment E X ident st commit sn s = Ok (s', st')"
  shows "\<exists>m sns. s' = s\<lparr>CommitmentStorageMap := m, Snapshots := sns\<rparr>"
  using assms by (auto simp: insert_initial_commitment_def res_Ok_iff dest!: create_from_snapshot_frame)

lemma create_table_with_snapshot_inv:
  assumes "tables_inv s" "length (cr_ddl t) \<le> CREATE_STMNT_LENGTH"
    and "create_table_with_snapshot E X sam s t = Ok (s', out)"
  shows "tables_inv s'"
proof -
  let ?s1 = "insert_schema (cr_table_name t) (cr_ddl t) (cr_table_type t) (sm_source sam) s"
  obtain m sns where "s' = ?s1\<lparr>CommitmentStorageMap := m, Snapshots := sns\<rparr>"
    using assms(3) by (auto simp: create_table_with_snapshot_def bind_res_Ok_iff dest!: insert_initial_commitment_frame)
  then show ?thesis using insert_schema_inv[OF assms(1,2)] by simp
qed

lemma create_tables_with_snapshot_inv:
  assumes "tables_inv s" "list_all (\<lambda>t. length (cr_ddl t) \<le> CREATE_STMNT_LENGTH) tables"
    and "create_tables_with_snapshot_and_commitment E X orig sam tables s = Ok s'"
  shows "tables_inv s'"
  using assms(3) collect_state_invariant_on[where I = tables_inv and xs = tables and f = "create_table_with_snapshot E X sam"]
    create_table_with_snapshot_inv assms(1,2)
  by (fastforce simp: create_tables_with_snapshot_and_commitment_def res_Ok_iff list_all_iff)

lemma sm_clear_done: "sm_clear n m = (m', None) \<longleftrightarrow> length m \<le> n \<and> m' = []"
  by (auto simp: sm_clear_def Let_def split: list.splits prod.splits)

lemma clear_tables_Ok:
  "clear_tables orig s = Ok s' \<longleftrightarrow> orig = Root \<and> length (Schemas s) \<le> 1000
     \<and> length (TableInsertQuorums s) \<le> 1000 \<and> length (CommitmentStorageMap s) \<le> 1000
     \<and> s' = s\<lparr>Schemas := [], TableInsertQuorums := [], CommitmentStorageMap := []\<rparr>"
proof -
  have c: "snd (sm_clear n m) = None \<longleftrightarrow> length m \<le> n" "length m \<le> n \<Longrightarrow> fst (sm_clear n m) = []" for n and m :: "('k \<times> 'v) list"
    by (auto simp: sm_clear_def Let_def split: list.splits)
  show ?thesis
    by (auto simp: clear_tables_def res_Ok_iff ensure_root_Ok_iff case_prod_unfold Let_def c)
qed

lemma remove_commits_get:
  "sm_get (CommitmentStorageMap (remove_commits ident s)) (t, sch) =
     (if t = ident then None else sm_get (CommitmentStorageMap s) (t, sch))"
  and remove_commits_frame: "\<exists>m. remove_commits ident s = s\<lparr>CommitmentStorageMap := m\<rparr>"
proof -
  let ?step = "\<lambda>((k1, k2), _) s. if k1 = ident
         then s\<lparr>CommitmentStorageMap := sm_remove (ident, k2) (CommitmentStorageMap s)\<rparr> else s"
  have frame: "\<exists>m. fold ?step xs s = s\<lparr>CommitmentStorageMap := m\<rparr>" for xs :: "((table_identifier \<times> commitment_scheme) \<times> bytes) list" and s
  proof (induction xs arbitrary: s)
    case Nil
    show ?case by (rule exI[of _ "CommitmentStorageMap s"]) simp
  next
    case (Cons x xs)
    obtain k1 k2 v where x: "x = ((k1, k2), v)" by (cases x) auto
    obtain m where "fold ?step xs (?step x s) = (?step x s)\<lparr>CommitmentStorageMap := m\<rparr>" using Cons by blast
    then show ?case by (auto simp: x)
  qed
  have get: "sm_get (CommitmentStorageMap (fold ?step xs s)) (t, sch) =
      (if t = ident \<and> (t, sch) \<in> fst ` set xs then None else sm_get (CommitmentStorageMap s) (t, sch))"
    for xs :: "((table_identifier \<times> commitment_scheme) \<times> bytes) list" and s
    by (induction xs arbitrary: s) (auto split: if_splits)
  show "\<exists>m. remove_commits ident s = s\<lparr>CommitmentStorageMap := m\<rparr>"
    unfolding remove_commits_def by (rule frame)
  have "(t, sch) \<notin> fst ` set (CommitmentStorageMap s) \<Longrightarrow> sm_get (CommitmentStorageMap s) (t, sch) = None"
    by (simp add: sm_get_def map_of_eq_None_iff)
  then show "sm_get (CommitmentStorageMap (remove_commits ident s)) (t, sch) =
     (if t = ident then None else sm_get (CommitmentStorageMap s) (t, sch))"
    unfolding remove_commits_def get by auto
qed

lemma tables_inv_remove_commits [simp]: "tables_inv (remove_commits ident s) = tables_inv s"
  using remove_commits_frame[of ident s] by auto

lemma drop_single_table_Ok:
  "drop_single_table ty ident s = Ok s' \<longleftrightarrow>
     ident \<in> set (sm_get_or [] (Identifiers s) ty) \<and> schema_of s ident \<noteq> None
     \<and> s' = (if sm_contains (TableInsertQuorums s) ident
         then s\<lparr>Identifiers := sm_insert ty (filter (\<lambda>x. x \<noteq> ident) (sm_get_or [] (Identifiers s) ty)) (Identifiers s),
               Schemas := sm_remove (ti_namespace ident, ti_name ident) (Schemas s),
               TableInsertQuorums := sm_remove ident (TableInsertQuorums s)\<rparr>
         else s\<lparr>Identifiers := sm_insert ty (filter (\<lambda>x. x \<noteq> ident) (sm_get_or [] (Identifiers s) ty)) (Identifiers s),
               Schemas := sm_remove (ti_namespace ident, ti_name ident) (Schemas s)\<rparr>)"
proof -
  have len: "length (filter (\<lambda>x. x \<noteq> ident) xs) < length xs \<longleftrightarrow> ident \<in> set xs" for xs
    by (metis (mono_tags, lifting) filter_True length_filter_less less_irrefl)
  show ?thesis
    by (auto simp: drop_single_table_def Let_def bind_res_Ok_iff len schema_of_def sm_contains_def split: if_splits)
qed

lemma drop_single_table_effect:
  assumes "drop_single_table ty ident s = Ok s'"
  shows "ident \<in> set (sm_get_or [] (Identifiers s) ty)" "schema_of s ident \<noteq> None"
    "ident \<notin> set (sm_get_or [] (Identifiers s') ty)"
    "schema_of s' = (schema_of s)(ident := None)"
    "sm_get (TableInsertQuorums s') = (sm_get (TableInsertQuorums s))(ident := None)"
    "TableVersions s' = TableVersions s" "ColumnVersions s' = ColumnVersions s"
    "Snapshots s' = Snapshots s" "TableSources s' = TableSources s"
    "CommitmentStorageMap s' = CommitmentStorageMap s"
  using assms unfolding drop_single_table_Ok
  by (auto simp: schema_of_def ti_eq_iff sm_contains_def fun_eq_iff split: if_splits)

lemma drop_single_table_inv:
  assumes "tables_inv s" "drop_single_table ty ident s = Ok s'"
  shows "tables_inv s'"
proof -
  have "length (filter (\<lambda>x. x \<noteq> ident) (sm_get_or [] (Identifiers s) ty)) \<le> MAX_IDENTIFIERS_PER_SOURCE_AND_MODE"
    using sm_get_or_bounded[OF assms(1), of ty] length_filter_le order_trans by blast
  with assms show ?thesis
    unfolding drop_single_table_Ok by (auto simp: tables_inv_def schema_of_def ti_eq_iff split: if_splits)
qed

fun tables_allowed :: "tables_call \<Rightarrow> origin \<Rightarrow> 'a tables_state_scheme \<Rightarrow> bool" where
  "tables_allowed ClearTables orig s \<longleftrightarrow> orig = Root"
| "tables_allowed (DropInvalidCommits _) orig s \<longleftrightarrow> orig = Root"
| "tables_allowed (UpdateNamespaceUuid _ _ _) orig s \<longleftrightarrow> permitted s orig (TablesPallet EditUuid)"
| "tables_allowed (UpdateTableUuid _ _ _) orig s \<longleftrightarrow> permitted s orig (TablesPallet EditUuid)"
| "tables_allowed _ orig s \<longleftrightarrow> permitted s orig (TablesPallet EditSchema)"

lemma update_table_uuid_Ok:
  assumes "update_table_uuid uc X orig table version uuid s = Ok s'"
  obtains sch e where "s' = deposit_event e (s\<lparr>TableVersions := sm_insert (table, version) uuid (TableVersions s), Schemas := sch\<rparr>)"
    "sch = Schemas s \<or> (\<exists>old st. schema_of s table = Some old
      \<and> update_uuid_in_create_table_statement uc X uuid [] old = Ok st
      \<and> sch = sm_insert (ti_namespace table, ti_name table) st (Schemas s))"
  using assms
  by (fastforce simp: update_table_uuid_def bind_res_Ok_iff map_err_Ok_iff Let_def schema_of_def split: option.splits)

lemma update_table_uuid_inv:
  assumes "tables_inv s" "update_table_uuid uc X orig table version uuid s = Ok s'"
  shows "tables_inv s'"
  using assms(2)
proof (rule update_table_uuid_Ok)
  fix sch e
  assume s': "s' = deposit_event e (s\<lparr>TableVersions := sm_insert (table, version) uuid (TableVersions s), Schemas := sch\<rparr>)"
    and "sch = Schemas s \<or> (\<exists>old st. schema_of s table = Some old
      \<and> update_uuid_in_create_table_statement uc X uuid [] old = Ok st
      \<and> sch = sm_insert (ti_namespace table, ti_name table) st (Schemas s))"
  then have new: "schema_of s' t = schema_of s t
      \<or> t = table \<and> schema_of s t \<noteq> None \<and> (\<exists>st. schema_of s' t = Some st \<and> length st \<le> CREATE_STMNT_LENGTH)" for t
    using update_uuid_bounded by (cases "t = table") (auto simp: schema_of_def ti_eq_iff deposit_event_def)
  then have some: "schema_of s' t \<noteq> None \<longleftrightarrow> schema_of s t \<noteq> None" for t by (metis option.distinct(1))
  have rest: "Identifiers s' = Identifiers s" "TableInsertQuorums s' = TableInsertQuorums s"
    "TableSources s' = TableSources s" "ColumnVersions s' = ColumnVersions s"
    "sm_contains (TableVersions s) k \<Longrightarrow> sm_contains (TableVersions s') k" for k
    unfolding s' by (simp_all add: deposit_event_def)
  show ?thesis
    unfolding tables_inv_def rest(1-4) some
  proof (intro conjI allI impI)
    fix t st assume "schema_of s' t = Some st"
    then show "length st \<le> CREATE_STMNT_LENGTH" using new[of t] assms(1) by (auto simp: tables_inv_def)
  qed (use assms(1) rest(5) in \<open>auto simp: tables_inv_def\<close>)
qed

lemma tables_dispatch_inv:
  assumes "tables_inv s" "tables_dispatch E X c orig s = Ok s'"
  shows "tables_inv s'"
proof -
  have run: "tables_call_run E X c orig s = Ok s'" "tables_call_decodes c"
    using assms(2) by (auto simp: tables_dispatch_def split: if_splits)
  show ?thesis
  proof (cases c)
    case (CreateTables x)
    then show ?thesis using run assms(1) create_tables_inner_inv by (auto simp: create_tables_def)
  next
    case (CreateTablesWithSnapshot x y)
    then show ?thesis using run assms(1) create_tables_with_snapshot_inv by auto
  next
    case ClearTables
    then show ?thesis using run assms(1) by (auto simp: clear_tables_Ok tables_inv_def schema_of_def sm_contains_def)
  next
    case (CreateNamespace a b c d e)
    then show ?thesis using run assms(1)
      by (auto simp: create_namespace_def insert_namespace_uuid_def bind_res_Ok_iff split: if_splits)
  next
    case (DropTable x y z)
    then show ?thesis
      using run assms(1) by (auto simp: drop_table_def bind_res_Ok_iff Let_def intro: drop_single_table_inv)
  next
    case (DropInvalidCommits x)
    then show ?thesis
      using run assms(1) by (auto simp: drop_invalid_commits_def bind_res_Ok_iff)
  next
    case (UpdateNamespaceUuid x y z)
    then show ?thesis using run assms(1) by (auto simp: update_namespace_uuid_def bind_res_Ok_iff Let_def)
  next
    case (UpdateTableUuid x y z)
    then show ?thesis using run assms(1) update_table_uuid_inv by auto
  qed
qed

interpretation tables: invariant_pallet "tables_dispatch E X" tables_inv
  by unfold_locales (rule tables_dispatch_inv)

lemma tables_dispatch_denied:
  "\<not> tables_allowed c orig s \<Longrightarrow> \<exists>e. tables_dispatch E X c orig s = Err e"
  by (cases c) (simp_all add: tables_dispatch_def create_tables_def create_tables_inner_def
    create_tables_with_snapshot_and_commitment_def clear_tables_def create_namespace_def drop_table_def
    drop_invalid_commits_def update_namespace_uuid_def update_table_uuid_def
    bind_permission_denied bind_root_denied)

interpretation tables_guard: guarded_pallet "tables_dispatch E X" tables_allowed
  by unfold_locales (rule tables_dispatch_denied)

lemma stored_remove_commits: "stored (remove_commits ident s) = (stored s)(ident := per_default)"
proof
  fix t
  show "stored (remove_commits ident s) t = ((stored s)(ident := per_default)) t"
  proof (cases "t = ident")
    case True
    have "stored (remove_commits ident s) t = per_default" by (rule stored_none) (simp add: remove_commits_get True)
    then show ?thesis by (simp add: True)
  next
    case False
    have "stored (remove_commits ident s) t = stored s t" by (rule stored_eqI) (simp add: remove_commits_get False)
    then show ?thesis by (simp add: False)
  qed
qed

text \<open>The two calls that touch namespace UUIDs.\<close>

lemma namespace_versions_frame:
  "NamespaceVersions (insert_schema ident st ty src s) = NamespaceVersions s"
  "NamespaceVersions (deposit_event e s) = NamespaceVersions s"
  "NamespaceVersions (remove_commits ident s) = NamespaceVersions s"
  "insert_table_uuid ident uuid cols s = Ok (s', v) \<Longrightarrow> NamespaceVersions s' = NamespaceVersions s"
  "drop_single_table ty ident s = Ok s' \<Longrightarrow> NamespaceVersions s' = NamespaceVersions s"
  using remove_commits_frame[of ident s]
  by (auto simp: insert_schema_def deposit_event_def insert_table_uuid_def Let_def drop_single_table_Ok split: if_splits)

lemma create_namespace_versions:
  assumes "create_one_table E X s table = Ok (s', table')"
  shows "NamespaceVersions s' = NamespaceVersions s"
  using assms by (rule create_one_table_Ok) (simp add: namespace_versions_frame)

lemma create_snapshot_namespace_versions:
  assumes "create_table_with_snapshot E X sam s table = Ok (s', table')"
  shows "NamespaceVersions s' = NamespaceVersions s"
  using assms
  by (auto simp: create_table_with_snapshot_def bind_res_Ok_iff namespace_versions_frame
      dest!: insert_initial_commitment_frame)

lemma namespace_versions_change:
  assumes "tables_call_run E X c orig s = Ok s'" "NamespaceVersions s' \<noteq> NamespaceVersions s"
  shows "(\<exists>n v st ty src u. c = CreateNamespace n v st ty src \<and> \<not> sm_contains (NamespaceVersions s) (n, v)
      \<and> NamespaceVersions s' = sm_insert (n, v) u (NamespaceVersions s))
    \<or> (\<exists>n v u. c = UpdateNamespaceUuid n v u \<and> NamespaceVersions s' = sm_insert (n, v) u (NamespaceVersions s))"
proof (cases c)
  case (CreateTables ts)
  then obtain s1 out e where "collect_state (create_one_table E X) s ts = Ok (s1, out)" "s' = deposit_event e s1"
    using assms(1) by (auto simp: create_tables_def create_tables_inner_def res_Ok_iff)
  then have "NamespaceVersions s' = NamespaceVersions s"
    using collect_state_invariant[of "\<lambda>s1. NamespaceVersions s1 = NamespaceVersions s" "create_one_table E X" s ts s1 out]
      create_namespace_versions by (metis namespace_versions_frame(2))
  then show ?thesis using assms(2) by simp
next
  case (CreateTablesWithSnapshot sam ts)
  then obtain s1 out e where "collect_state (create_table_with_snapshot E X sam) s ts = Ok (s1, out)" "s' = deposit_event e s1"
    using assms(1) by (auto simp: create_tables_with_snapshot_and_commitment_def res_Ok_iff)
  then have "NamespaceVersions s' = NamespaceVersions s"
    using collect_state_invariant[of "\<lambda>s1. NamespaceVersions s1 = NamespaceVersions s"
        "create_table_with_snapshot E X sam" s ts s1 out]
      create_snapshot_namespace_versions by (metis namespace_versions_frame(2))
  then show ?thesis using assms(2) by simp
next
  case (UpdateTableUuid t v u)
  then show ?thesis using assms by (auto simp: deposit_event_def elim!: update_table_uuid_Ok)
qed (use assms in \<open>auto simp: clear_tables_Ok create_namespace_def insert_namespace_uuid_def drop_table_def
    drop_invalid_commits_def update_namespace_uuid_def bind_res_Ok_iff Let_def namespace_versions_frame split: if_splits\<close>)

section \<open>Properties\<close>

text \<open>
  C19. The storage of the tables pallet stays consistent under every sequence of its extrinsics:
  lists and statements within their bounds, a quorum size for exactly the tables with a schema,
  a source for each of them, column UUIDs for assigned versions only. Origins without the
  right a call asks for change nothing.
\<close>

theorem tables_state_consistent:
  assumes "tables_inv s"
  shows "tables_inv (run_extrinsics (tables_dispatch E X) xs s)
    \<and> (list_ex (\<lambda>(c, orig). tables_allowed c orig s) xs \<or> run_extrinsics (tables_dispatch E X) xs s = s)"
  using tables.run_inv[OF assms] tables_guard.run_denied[of xs s E X] by (auto simp: list_ex_iff)

definition demo_tables_state :: tables_state where
  "demo_tables_state =
     \<lparr>block_number = 1, events = [], Permissions = [], Keys = [], AttestationKeys = [], Attestations = [],
      LastForwardedBlock = None, CommitmentStorageMap = [((demo_table_id, DynamicDory), ''a'')],
      DefaultCommitmentSchemes = Some flags_all, ColumnVersions = [], NamespaceVersions = [((''N'', 0), ''U'')],
      TableVersions = [((demo_table_id, 0), ''C0'')], Identifiers = [(Community, [demo_table_id])],
      Schemas = [((''N'', ''T''), ''s'')], Snapshots = [],
      TableInsertQuorums = [(demo_table_id, insert_quorum_size_default)], TableSources = [(demo_table_id, Ethereum)]\<rparr>"

lemma demo_tables_inv: "tables_inv demo_tables_state"
proof -
  have "schema_of demo_tables_state t = (if t = demo_table_id then Some ''s'' else None)" for t
    by (cases t) (auto simp: schema_of_def demo_tables_state_def sm_get_def demo_table_id_def)
  then show ?thesis
    by (auto simp: tables_inv_def sm_contains_def)
      (auto simp: demo_tables_state_def sm_get_def MAX_IDENTIFIERS_PER_SOURCE_AND_MODE_def CREATE_STMNT_LENGTH_def split: if_splits)
qed

theorem tables_state_consistent_witness:
  "tables_inv (run_extrinsics (tables_dispatch demo_ext demo_sql)
     [(DropTable Community demo_table_id Ethereum, Root), (ClearTables, Signed ''alice'')] demo_tables_state)"
  using tables_state_consistent[OF demo_tables_inv] by blast


text \<open>
  A new version of a table gets the UUIDs at a version above all assigned ones, so nothing is
  overwritten, unless version 65535 is assigned: then the 16-bit counter wraps to version 0.
\<close>

theorem table_version_fresh:
  "case insert_table_uuid ident uuid cols s of
     Ok (s', v) \<Rightarrow>
       (list_all (\<lambda>v'. v' < v) (sdm_iter_key_prefix (TableVersions s) ident)
          \<or> v = 0 \<and> 65535 \<in> set (sdm_iter_key_prefix (TableVersions s) ident))
       \<and> sm_get (TableVersions s') = (sm_get (TableVersions s))((ident, v) \<mapsto> uuid)
       \<and> sm_get (ColumnVersions s') = (sm_get (ColumnVersions s))((ident, v) \<mapsto> cols)
   | _ \<Rightarrow> False"
proof -
  let ?vs = "sdm_iter_key_prefix (TableVersions s) ident" and ?v = "next_version (TableVersions s) ident"
  have "list_all (\<lambda>v'. v' < ?v) ?vs \<or> ?v = 0 \<and> 65535 \<in> set ?vs"
  proof (cases ?vs)
    case Nil
    then show ?thesis by simp
  next
    case (Cons y xs)
    define m where "m = Max (set ?vs)"
    have v: "?v = m + 1"
      using Cons by (simp add: next_version_def sdm_iter_key_prefix_def m_def Max.set_eq_fold del: list.set)
    have m: "m \<in> set ?vs" unfolding m_def by (rule Max_in) (simp_all add: Cons)
    have ge: "x \<le> m" if "x \<in> set ?vs" for x unfolding m_def using that by simp
    show ?thesis
    proof (cases "m = 65535")
      case True
      then show ?thesis using v m by simp
    next
      case False
      moreover have "(- 1 :: u16) = 65535" by code_simp
      ultimately have "m \<noteq> - 1" by metis
      then have "1 + m \<noteq> 0" using max_word_wrap[of m] by (auto simp: add.commute)
      then have "m < m + 1" using unatSuc[of m] by (simp add: word_less_nat_alt add.commute)
      then show ?thesis using v ge by (auto simp: list_all_iff intro: le_less_trans)
    qed
  qed
  then show ?thesis
    by (simp add: insert_table_uuid_def Let_def fun_eq_iff)
qed

text \<open>
  An assigned namespace UUID is stable: no sequence of extrinsics, successful or not, changes
  or removes the UUID of a namespace version, except a call to \<open>update_namespace_uuid\<close> for
  exactly this version.
\<close>

theorem namespace_uuid_stable:
  assumes "sm_get (NamespaceVersions s) (namespace, version) = Some uuid"
    and "list_all (\<lambda>(c, orig). \<forall>u. c \<noteq> UpdateNamespaceUuid namespace version u) xs"
  shows "sm_get (NamespaceVersions (run_extrinsics (tables_dispatch E X) xs s)) (namespace, version) = Some uuid"
proof -
  let ?P = "\<lambda>s. sm_get (NamespaceVersions s) (namespace, version) = Some uuid"
  have step: "?P s'" if x: "x \<in> set xs" and s: "?P s" and run: "tables_dispatch E X (fst x) (snd x) s = Ok s'" for x s s'
  proof (cases "NamespaceVersions s' = NamespaceVersions s")
    case True
    then show ?thesis using s by simp
  next
    case False
    have "tables_call_run E X (fst x) (snd x) s = Ok s'"
      using run by (auto simp: tables_dispatch_def split: if_splits)
    from namespace_versions_change[OF this False] show ?thesis
    proof (elim disjE exE conjE)
      fix n v st ty src u
      assume "NamespaceVersions s' = sm_insert (n, v) u (NamespaceVersions s)" "\<not> sm_contains (NamespaceVersions s) (n, v)"
      then show ?thesis using s by (auto simp: sm_contains_def)
    next
      fix n v u
      assume "fst x = UpdateNamespaceUuid n v u" "NamespaceVersions s' = sm_insert (n, v) u (NamespaceVersions s)"
      then show ?thesis using s x assms(2) by (auto simp: list_all_iff)
    qed
  qed
  show ?thesis
    using run_extrinsics_preserves[of xs ?P "tables_dispatch E X" s] step assms(1) by blast
qed

theorem namespace_uuid_stable_witness:
  "sm_get (NamespaceVersions (run_extrinsics (tables_dispatch demo_ext demo_sql)
     [(ClearTables, Root), (UpdateNamespaceUuid ''N'' 1 ''V'', Root), (CreateNamespace ''N'' 0 ''s'' Community Ethereum, Root)]
     demo_tables_state)) (''N'', 0) = Some ''U''"
  by (rule namespace_uuid_stable) (simp_all add: demo_tables_state_def sm_get_def)

text \<open>
  Clearing the tables is all or nothing: with more than 1000 stored schemas the call fails,
  and as a failing call is rolled back, repeating it any number of times clears nothing.
  With at most 1000 entries in each of the three maps it empties them.
\<close>

theorem clear_tables_all_or_nothing:
  "if length (Schemas s) \<le> 1000 \<and> length (TableInsertQuorums s) \<le> 1000 \<and> length (CommitmentStorageMap s) \<le> 1000
   then clear_tables Root s = Ok (s\<lparr>Schemas := [], TableInsertQuorums := [], CommitmentStorageMap := []\<rparr>)
   else run_extrinsics (tables_dispatch E X) (replicate n (ClearTables, Root)) s = s"
proof (cases "length (Schemas s) \<le> 1000 \<and> length (TableInsertQuorums s) \<le> 1000 \<and> length (CommitmentStorageMap s) \<le> 1000")
  case True
  then show ?thesis by (simp add: clear_tables_Ok)
next
  case False
  then have "dispatch (tables_dispatch E X) (ClearTables, Root) s = s"
    using clear_tables_Ok[of Root s]
    by (cases "clear_tables Root s") (auto simp: dispatch_def tables_dispatch_def)
  then have "fold (dispatch (tables_dispatch E X)) (replicate n (ClearTables, Root)) s = s" by (induction n) auto
  then show ?thesis unfolding run_extrinsics_def using False by presburger
qed

lemma stored_frame:
  "CommitmentStorageMap s' = CommitmentStorageMap s \<Longrightarrow> stored s' = stored s"
  "CommitmentStorageMap s' = CommitmentStorageMap s \<Longrightarrow> stored_agree E s' = stored_agree E s"
  by (simp_all add: stored_agree_def fun_eq_iff)

lemma insert_schema_effect:
  "schema_of (insert_schema ident st ty src s) = (schema_of s)(ident \<mapsto> st)"
  "sm_get (TableInsertQuorums (insert_schema ident st ty src s)) =
     (sm_get (TableInsertQuorums s))(ident \<mapsto> insert_quorum_size_from_table_type ty)"
  "sm_get (TableSources (insert_schema ident st ty src s)) = (sm_get (TableSources s))(ident \<mapsto> src)"
  "CommitmentStorageMap (insert_schema ident st ty src s) = CommitmentStorageMap s"
  by (simp_all add: insert_schema_def schema_of_def ti_eq_iff fun_eq_iff Let_def)

lemma insert_table_uuid_effect:
  assumes "insert_table_uuid ident uuid cols s = Ok (s', v)"
  shows "schema_of s' = schema_of s" "TableInsertQuorums s' = TableInsertQuorums s"
    "TableSources s' = TableSources s" "CommitmentStorageMap s' = CommitmentStorageMap s"
  using assms by (auto simp: insert_table_uuid_def Let_def schema_of_def)


definition demo_update_table :: update_table where
  "demo_update_table = \<lparr>ut_ident = demo_table_id, ut_create_statement = ''s'', ut_table_type = Community,
     ut_commitment = EmptyCommitment flags_all, ut_source = Ethereum\<rparr>"

definition demo_new_state :: tables_state where
  "demo_new_state = demo_tables_state\<lparr>CommitmentStorageMap := [], Schemas := []\<rparr>"

definition demo_uuid :: bytes where
  "demo_uuid = the (generate_table_uuid demo_sql 1 ''N'' ''T'')"

definition demo_column_uuids :: "column_uuid list" where
  "demo_column_uuids = [\<lparr>cu_name = ''a'', cu_uuid = ''a''\<rparr>]"

lemma demo_uuid_shape: "generate_table_uuid demo_sql 1 ''N'' ''T'' = Some demo_uuid" "length demo_uuid = 32" "utf8_valid demo_uuid"
proof -
  let ?g = "generate_uuid demo_sql (show_nat 1 @ ''N'' @ ''T'')"
  have g: "case ?g of Some u \<Rightarrow> length u = 32 \<and> list_all hex_upper u \<and> hd u \<in> set ''CDEF'' | None \<Rightarrow> False"
    by (rule generate_uuid_cases)
  then obtain u where u: "?g = Some u" "length u = 32" "list_all hex_upper u" by (auto split: option.splits)
  then show "generate_table_uuid demo_sql 1 ''N'' ''T'' = Some demo_uuid" and "length demo_uuid = 32"
    by (simp_all add: demo_uuid_def generate_table_uuid_def)
  have "hex_upper c \<Longrightarrow> byte c < 128" for c by (auto simp: hex_upper_def)
  then have "ascii u" using u(3) by (auto simp: ascii_def list_all_iff)
  then show "utf8_valid demo_uuid" using u(1) ascii_utf8_valid by (simp add: demo_uuid_def generate_table_uuid_def)
qed

lemma demo_uuids: "get_or_generate_uuids_for_table demo_sql ''s'' demo_table_id demo_new_state = Ok (demo_uuid, demo_column_uuids)"
proof -
  have "create_statement_to_sqlparser demo_sql ''s'' = Ok demo_table" by code_simp
  moreover have "uuids_from_sqlparser demo_sql demo_table = (Ok ([], []) :: (_, dispatch_error) result)" by code_simp
  moreover have "generate_column_uuid_list demo_sql ''s'' = Ok demo_column_uuids" by code_simp
  moreover have "from_utf8 ''N'' e = Ok ''N''" "from_utf8 ''T'' e = Ok ''T''" for e :: dispatch_error
    by (simp_all add: from_utf8_def)
  moreover have "unat (block_number demo_new_state) = 1" "ti_namespace demo_table_id = ''N''" "ti_name demo_table_id = ''T''"
    by (simp_all add: demo_new_state_def demo_tables_state_def demo_table_id_def)
  ultimately show ?thesis
    using demo_uuid_shape(1) by (simp add: get_or_generate_uuids_for_table_def)
qed

lemma demo_update_uuid:
  "update_uuid_in_create_table_statement to_ascii_uppercase demo_sql demo_uuid demo_column_uuids ''s'' = Ok ''s''"
proof -
  define os where "os = uuid_options to_ascii_uppercase demo_uuid demo_column_uuids (ctb_with_options demo_table)"
  let ?e = "\<lparr>so_name = ident_new ''TABLE_UUID'', so_value = ExprUnQuotedString demo_uuid\<rparr>"
  have "list_all (\<lambda>c. to_ascii_uppercase (cu_name c) \<noteq> to_ascii_uppercase ''TABLE_UUID'') demo_column_uuids" by code_simp
  then have "?e \<in> set os" unfolding os_def by (rule uuid_options_table_uuid(1))
  moreover have "?e \<notin> set (ctb_with_options demo_table_with_uuid)"
  proof
    assume "?e \<in> set (ctb_with_options demo_table_with_uuid)"
    then have "demo_uuid = ''C0''" by (simp add: demo_table_with_uuid_def ident_new_def)
    then have "length demo_uuid = length ''C0''" by (rule arg_cong)
    then show False using demo_uuid_shape(2) by simp
  qed
  ultimately have "ctb_with_options (demo_table\<lparr>ctb_with_options := os\<rparr>) \<noteq> ctb_with_options demo_table_with_uuid" by auto
  then have "demo_table\<lparr>ctb_with_options := os\<rparr> \<noteq> demo_table_with_uuid"
    by (rule contrapos_nn) (rule arg_cong)
  then have "sx_print demo_sql (demo_table\<lparr>ctb_with_options := os\<rparr>) = ''s''" by (simp add: demo_sql_def)
  moreover have "create_statement_to_sqlparser demo_sql ''s'' = Ok demo_table" by code_simp
  ultimately show ?thesis
    unfolding update_uuid_in_create_table_statement_Ok os_def
    by (intro exI[of _ demo_table]) (simp add: CREATE_STMNT_LENGTH_def demo_uuid_shape(3))
qed

lemma demo_remove_with: "create_statement_to_sqlparser_remove_with demo_sql ''s'' = Ok (demo_table, None)"
  by code_simp

lemma demo_print_meta: "sqlparser_to_create_statement demo_sql (create_table_with_row_number_column demo_table) = Ok ''s''"
proof -
  have "create_table_with_row_number_column demo_table \<noteq> demo_table_with_uuid" by code_simp
  then show ?thesis by (simp add: sqlparser_to_create_statement_cases demo_sql_def CREATE_STMNT_LENGTH_def)
qed

lemma demo_create_one_table: "is_ok (create_one_table demo_ext demo_sql demo_new_state demo_update_table)"
proof -
  obtain s1 v where u: "insert_table_uuid demo_table_id demo_uuid demo_column_uuids demo_new_state = Ok (s1, v)"
    by (simp add: insert_table_uuid_def Let_def)
  let ?s2 = "insert_schema demo_table_id ''s'' Community Ethereum s1"
  have "CommitmentStorageMap ?s2 = []"
    using insert_table_uuid_effect(4)[OF u] by (simp add: insert_schema_effect(4) demo_new_state_def)
  then have "stored ?s2 demo_table_id = per_default" by (intro stored_none) simp
  then obtain s3 where "handler_create_commitments demo_table_id
      \<lparr>pc_hyper_kzg = Some ''c'', pc_dynamic_dory = Some ''c''\<rparr> ?s2 = Ok s3"
    using create_stored by metis
  then have "process_create_table_and_initiate_commitments_with_scheme demo_ext demo_table flags_all ?s2 =
      Ok (s3, \<lparr>ctm_table_with_meta_columns = create_table_with_row_number_column demo_table,
           ctm_meta_tables = [], ctm_meta_table_inserts = []\<rparr>)"
    by (simp add: process_create_table_and_initiate_commitments_with_scheme_def demo_process_create_table
        demo_create_table_id demo_create_bytes)
  moreover have "ex_uc demo_ext = to_ascii_uppercase" by (simp add: demo_ext_def)
  moreover have "reconstruct_statement ''s'' None = Ok ''s;''" by code_simp
  moreover have "from_utf8 ''s'' e = Ok ''s''" for e :: dispatch_error by (simp add: from_utf8_def)
  ultimately show ?thesis
    by (simp add: create_one_table_def demo_update_table_def demo_uuids demo_update_uuid u demo_remove_with
        demo_print_meta bounded_try_from_def CREATE_STMNT_LENGTH_def)
qed


end
