(* ===== verification/Sxt_Utils.thy ===== *)
theory Sxt_Utils
  imports Sxt_Frame
begin

text \<open>
  Account identifiers from text (\<open>sxt-core/src/utils.rs\<close>): hexadecimal text, accounts given by
  32 bytes, and the account of an Ethereum address, which is the address behind twelve zero
  bytes. The runtime's account type is \<open>AccountId32\<close>, so decoding its 32 bytes cannot fail.
\<close>

section \<open>Hexadecimal text\<close>

definition hex_lower_digit :: "nat \<Rightarrow> char" where
  "hex_lower_digit n = (if n < 10 then char_of (48 + n) else char_of (87 + n))"

definition hex_encode :: "bytes \<Rightarrow> bytes" where
  "hex_encode bs = concat (map (\<lambda>b. [hex_lower_digit (byte b div 16), hex_lower_digit (byte b mod 16)]) bs)"

definition hex_value :: "char \<Rightarrow> nat option" where
  "hex_value c =
     (if 48 \<le> byte c \<and> byte c \<le> 57 then Some (byte c - 48)
      else if 97 \<le> byte c \<and> byte c \<le> 102 then Some (byte c - 87)
      else if 65 \<le> byte c \<and> byte c \<le> 70 then Some (byte c - 55)
      else None)"

fun hex_decode :: "bytes \<Rightarrow> bytes option" where
  "hex_decode [] = Some []"
| "hex_decode [_] = None"
| "hex_decode (h # l # rest) =
     (case (hex_value h, hex_value l) of
        (Some a, Some b) \<Rightarrow> map_option (\<lambda>bs. char_of (16 * a + b) # bs) (hex_decode rest)
      | _ \<Rightarrow> None)"

section \<open>Accounts\<close>

definition convert_account_id :: "bytes \<Rightarrow> account_id dispatch_result" where
  "convert_account_id account_id32 = Ok account_id32"

definition account_id_from_str :: "bytes \<Rightarrow> account_id dispatch_result" where
  "account_id_from_str addr =
     (let hex_str = trim_start_matches ''0x'' addr in
     bind_res (ok_or (hex_decode hex_str) (OtherError ''Invalid hex address'')) (\<lambda>raw_bytes.
     bind_res (if length raw_bytes = 32 then Ok raw_bytes
       else Err (OtherError ''Could not coerce account into 32 bytes'')) convert_account_id))"

definition eth_address_to_substrate_account_id :: "bytes \<Rightarrow> account_id dispatch_result" where
  "eth_address_to_substrate_account_id eth_addr_hex =
     (let hex_str = trim_start_matches ''0x'' eth_addr_hex in
     bind_res (ok_or (hex_decode hex_str) (OtherError ''Invalid hex address'')) (\<lambda>raw_bytes.
     bind_res (if length raw_bytes = 20 then Ok raw_bytes
       else Err (OtherError ''Expected 20-byte Ethereum address'')) (\<lambda>raw_addr.
     convert_account_id (replicate 12 (char_of (0::nat)) @ raw_addr))))"

text \<open>The list comes out of serde's JSON parser, which is the parameter.\<close>

definition parse_address_list_json ::
    "(bytes \<Rightarrow> bytes list option) \<Rightarrow> bytes \<Rightarrow> (account_id dispatch_result list, unit) result" where
  "parse_address_list_json json input =
     bind_res (ok_or (json input) ()) (\<lambda>raw_addresses. Ok (map account_id_from_str raw_addresses))"

section \<open>Round trip\<close>

lemma hex_value_lower: "n < 16 \<Longrightarrow> hex_value (hex_lower_digit n) = Some n"
proof -
  assume "n < 16"
  then have "48 + n < 256" "87 + n < 256" by simp_all
  then show ?thesis
    using \<open>n < 16\<close> by (simp add: hex_value_def hex_lower_digit_def byte_char_of)
qed

lemma hex_decode_encode: "hex_decode (hex_encode bs) = Some bs"
proof (induction bs)
  case (Cons b bs)
  have "byte b < 16 * 16" using byte_less_256[of b] by simp
  then have "byte b div 16 < 16" "byte b mod 16 < 16" by (simp_all add: less_mult_imp_div_less)
  then show ?case
    using Cons by (simp add: hex_encode_def hex_value_lower)
qed (simp add: hex_encode_def)

lemma hex_encode_no_prefix: "trim_start_matches ''0x'' (hex_encode bs) = hex_encode bs"
proof -
  have "hex_value CHR ''x'' = None" by (simp add: hex_value_def)
  then have x: "hex_lower_digit (byte b mod 16) \<noteq> CHR ''x''" for b
    using hex_value_lower[of "byte b mod 16"] by auto
  have "\<not> starts_with ''0x'' (hex_encode bs)"
    using x[of "hd bs"] by (cases bs) (simp_all add: hex_encode_def starts_with_def)
  then show ?thesis by (subst trim_start_matches.simps) simp
qed

lemma eth_address_hex_encode:
  "eth_address_to_substrate_account_id (hex_encode bs) =
     (if length bs = 20 then Ok (replicate 12 (char_of (0::nat)) @ bs)
      else Err (OtherError ''Expected 20-byte Ethereum address''))"
  by (simp add: eth_address_to_substrate_account_id_def hex_encode_no_prefix hex_decode_encode convert_account_id_def)

lemma eth_address_not_Panic: "eth_address_to_substrate_account_id a \<noteq> Panic"
  by (cases "hex_decode (trim_start_matches ''0x'' a)")
    (simp_all add: eth_address_to_substrate_account_id_def convert_account_id_def)

end
