(* ===== verification/Pallet_System_Tables.thy ===== *)
theory Pallet_System_Tables
  imports Pallet_Tables Sxt_Utils
begin

text \<open>
  \<open>pallets/system_tables\<close>: what an insert into one of the staking tables does on chain. The
  table becomes a request with one row per modification (\<open>parse.rs\<close>), and every row is handled
  on its own: an error of a row is reported as an event, keeps the changes made before it and
  does not stop the other rows.

  Balances, staking and session are Substrate pallets. They enter through \<open>substrate_ext\<close>:
  functions on their state, which a row handler calls directly and not as extrinsics, so that
  they return a state on failure too.
\<close>

section \<open>External code\<close>

type_synonym ('s, 'a) row_step = "'s \<Rightarrow> 's \<times> 'a dispatch_result"

record 'x substrate_ext =
  bx_free_balance :: "'x \<Rightarrow> account_id \<Rightarrow> u128"
  bx_force_set_balance :: "account_id \<Rightarrow> u128 \<Rightarrow> ('x, unit) row_step"
  sk_bond :: "account_id \<Rightarrow> u128 \<Rightarrow> ('x, unit) row_step"
  sk_bond_extra :: "account_id \<Rightarrow> u128 \<Rightarrow> ('x, unit) row_step"
  sk_unbond :: "account_id \<Rightarrow> u128 \<Rightarrow> ('x, unit) row_step"
  sk_rebond :: "account_id \<Rightarrow> u128 \<Rightarrow> ('x, unit) row_step"
  sk_nominate :: "account_id \<Rightarrow> account_id list \<Rightarrow> ('x, unit) row_step"
  sk_set_controller :: "account_id \<Rightarrow> ('x, unit) row_step"
  sk_already_paired :: dispatch_error
  sk_validate :: "account_id \<Rightarrow> nat \<times> bool \<Rightarrow> ('x, unit) row_step"
  sk_chill :: "account_id \<Rightarrow> ('x, unit) row_step"
  ss_decode_keys :: "bytes \<Rightarrow> bytes option"
  ss_set_keys :: "account_id \<Rightarrow> bytes \<Rightarrow> bytes \<Rightarrow> ('x, unit) row_step"
  jx_list :: "bytes \<Rightarrow> bytes list option"
  bx_existential_deposit :: u128

section \<open>Requests\<close>

datatype staking_system_request = Stake | Nominate | UnstakeInitiated | UnstakeCancelled

datatype system_request_type = Message | Staking staking_system_request | ZkPay

datatype system_field_type = FieldVarchar | FieldBytes | FieldDecimal

datatype system_field_value = ValueVarchar bytes | ValueBytes bytes | ValueDecimal u256

record system_table_field =
  sf_name :: bytes
  sf_value_type :: system_field_type
  sf_values :: "system_field_value list"

record system_request =
  sr_request_type :: system_request_type
  sr_fields :: "system_table_field list"
  sr_table_id :: table_identifier

type_synonym system_row = "bytes \<Rightarrow> system_field_value option"

definition system_table_field_from :: "bytes \<times> system_field_type \<Rightarrow> system_table_field" where
  "system_table_field_from x = \<lparr>sf_name = fst x, sf_value_type = snd x, sf_values = []\<rparr>"

fun min_list_option :: "nat list \<Rightarrow> nat option" where
  "min_list_option [] = None"
| "min_list_option (x # xs) = Some (fold min xs x)"

text \<open>A row is a \<open>BTreeMap\<close> collected from the fields: of equal names the last one counts.\<close>

definition request_rows :: "system_request \<Rightarrow> system_row list" where
  "request_rows r =
     (let min_len = (case min_list_option (map (\<lambda>f. length (sf_values f)) (sr_fields r)) of None \<Rightarrow> 0 | Some n \<Rightarrow> n)
      in map (\<lambda>i. map_of (rev (map (\<lambda>f. (sf_name f, sf_values f ! i)) (sr_fields r)))) [0..<min_len])"

definition system_template ::
    "(bytes \<Rightarrow> bytes) \<Rightarrow> system_request_type \<Rightarrow> (bytes \<times> system_field_type) list \<Rightarrow> bytes
     \<Rightarrow> (system_request, 'e) result" where
  "system_template uc ty flds nam =
     bind_res (from_str_unchecked uc nam ''SXT_SYSTEM_STAKING'') (\<lambda>table_id.
     Ok \<lparr>sr_request_type = ty, sr_fields = map system_table_field_from flds, sr_table_id = table_id\<rparr>)"

definition get_system_templates :: "(bytes \<Rightarrow> bytes) \<Rightarrow> (system_request list, 'e) result" where
  "get_system_templates uc =
     collect_res (\<lambda>(ty, flds, nam). system_template uc ty flds nam)
       [(Message, [(''SENDER'', FieldBytes), (''BODY'', FieldBytes), (''NONCE'', FieldDecimal)], ''MESSAGE''),
        (Staking Stake, [(''STAKER'', FieldBytes), (''AMOUNT'', FieldDecimal)], ''STAKED''),
        (Staking Nominate, [(''NOMINATOR'', FieldBytes), (''NODESED25519PUBKEYS'', FieldVarchar)], ''NOMINATED''),
        (Staking UnstakeInitiated, [(''STAKER'', FieldBytes)], ''UNSTAKEINITIATED''),
        (Staking UnstakeCancelled, [(''STAKER'', FieldBytes)], ''UNSTAKECANCELLED'')]"

fun parse_field :: "(bytes \<Rightarrow> bytes) \<Rightarrow> on_chain_table \<Rightarrow> system_table_field \<Rightarrow> system_table_field option" where
  "parse_field uc oc_table f =
     map_option (\<lambda>vs. \<lparr>sf_name = sf_name f, sf_value_type = sf_value_type f, sf_values = vs\<rparr>)
       (case sf_value_type f of
          FieldVarchar \<Rightarrow> map_option (map ValueVarchar) (get_varchars_by_column uc oc_table (sf_name f))
        | FieldDecimal \<Rightarrow> map_option (map ValueDecimal) (get_decimal_by_column uc oc_table (sf_name f))
        | FieldBytes \<Rightarrow> map_option (map ValueBytes) (get_bytes_by_column uc oc_table (sf_name f)))"

definition parse_request_with_template ::
    "(bytes \<Rightarrow> bytes) \<Rightarrow> on_chain_table \<Rightarrow> system_request \<Rightarrow> system_request" where
  "parse_request_with_template uc oc_table template =
     \<lparr>sr_request_type = sr_request_type template,
      sr_fields = List.map_filter (parse_field uc oc_table) (sr_fields template),
      sr_table_id = sr_table_id template\<rparr>"

definition template_for_identifier ::
    "(bytes \<Rightarrow> bytes) \<Rightarrow> table_identifier \<Rightarrow> (system_request option, 'e) result" where
  "template_for_identifier uc table_identifier =
     map_ok (List.find (\<lambda>t. sr_table_id t = table_identifier)) (get_system_templates uc)"

definition table_to_request ::
    "(bytes \<Rightarrow> bytes) \<Rightarrow> on_chain_table \<Rightarrow> table_identifier \<Rightarrow> (system_request option, 'e) result" where
  "table_to_request uc oc_table table_identifier =
     map_ok (map_option (parse_request_with_template uc oc_table)) (template_for_identifier uc table_identifier)"

section \<open>State\<close>

record 'x system_tables_state = tables_state +
  MessageNonce :: u256
  LastProcessedNonce :: u256
  LastProcessedUserNonce :: "(account_id, u256) storage_map"
  Substrate :: 'x

section \<open>Sequencing without rollback\<close>

definition step_bind :: "('s, 'a) row_step \<Rightarrow> ('a \<Rightarrow> ('s, 'b) row_step) \<Rightarrow> ('s, 'b) row_step" where
  "step_bind m f s = (case m s of
       (s', Ok x) \<Rightarrow> f x s'
     | (s', Err e) \<Rightarrow> (s', Err e)
     | (s', Panic) \<Rightarrow> (s', Panic))"

definition step_pure :: "'a dispatch_result \<Rightarrow> ('s, 'a) row_step" where
  "step_pure r s = (s, r)"

definition substrate ::
    "('x, 'b) row_step \<Rightarrow> (('x, 'a) system_tables_state_scheme, 'b) row_step" where
  "substrate f s = (case f (Substrate s) of (x, r) \<Rightarrow> (s\<lparr>Substrate := x\<rparr>, r))"

definition emit_for_error :: "unit dispatch_result \<Rightarrow> 'a frame_system_scheme \<Rightarrow> 'a frame_system_scheme" where
  "emit_for_error r s = (case r of Err error \<Rightarrow> deposit_event (MessageProcessingError error) s | _ \<Rightarrow> s)"

text \<open>\<open>rows().map(handler).for_each(emit_for_error)\<close>\<close>

fun for_each_row ::
    "(system_row \<Rightarrow> ('a frame_system_scheme, unit) row_step) \<Rightarrow> system_row list
     \<Rightarrow> 'a frame_system_scheme \<Rightarrow> 'a frame_system_scheme dispatch_result" where
  "for_each_row h [] s = Ok s"
| "for_each_row h (row # rows) s =
     (case h row s of
        (s', Panic) \<Rightarrow> Panic
      | (s', r) \<Rightarrow> for_each_row h rows (emit_for_error r s'))"

section \<open>Row handlers\<close>

definition saturated_u64 :: "u128 \<Rightarrow> u64" where
  "saturated_u64 v = (if unat v < 2 ^ 64 then ucast v else - 1)"

definition low_u128_min :: "u256 \<Rightarrow> u128" where
  "low_u128_min amount = ucast (min amount (2 ^ 128 - 1))"

definition stake_row ::
    "'x substrate_ext \<Rightarrow> system_row \<Rightarrow> (('x, 'a) system_tables_state_scheme, unit) row_step" where
  "stake_row S row =
     (case (row ''STAKER'', row ''AMOUNT'') of
        (Some (ValueBytes staker_bytes), Some (ValueDecimal amount)) \<Rightarrow>
          (let staker = hex_encode staker_bytes in
           step_bind (step_pure (eth_address_to_substrate_account_id staker)) (\<lambda>staker_id.
           let stake_amount = low_u128_min amount in
           (\<lambda>s. let balance = bx_free_balance S (Substrate s) staker_id;
                    new_total_balance = saturating_add balance stake_amount
                in step_bind (substrate (bx_force_set_balance S staker_id new_total_balance)) (\<lambda>_.
                   if balance > 0 then substrate (sk_bond_extra S staker_id stake_amount)
                   else substrate (sk_bond S staker_id stake_amount)) s)))
      | _ \<Rightarrow> step_pure (Err (SystemTablesError MissingExpectedField)))"

fun partition_result :: "'a dispatch_result list \<Rightarrow> 'a list \<times> dispatch_error list" where
  "partition_result [] = ([], [])"
| "partition_result (r # rs) =
     (case partition_result rs of (oks, errs) \<Rightarrow>
        (case r of Ok x \<Rightarrow> (x # oks, errs) | Err e \<Rightarrow> (oks, e # errs) | Panic \<Rightarrow> (oks, errs)))"

definition nominate_row ::
    "'x substrate_ext \<Rightarrow> system_row \<Rightarrow> (('x, 'a) system_tables_state_scheme, unit) row_step" where
  "nominate_row S row =
     (case (row ''NOMINATOR'', row ''NODESED25519PUBKEYS'') of
        (Some (ValueBytes nominator), Some (ValueVarchar nodes)) \<Rightarrow>
          step_bind (step_pure (map_err (\<lambda>_. SystemTablesError ErrorParsingNominations)
            (parse_address_list_json (jx_list S) nodes))) (\<lambda>parsed.
          let (nominations, errors) = partition_result parsed in
          step_bind (\<lambda>s. (fold (\<lambda>e. emit_for_error (Err e)) errors s, Ok ())) (\<lambda>_.
          if nominations = [] then step_pure (Err (SystemTablesError EmptyNominationSet))
          else (let nominator = hex_encode nominator in
            step_bind (step_pure (eth_address_to_substrate_account_id nominator)) (\<lambda>nominator_id.
            substrate (sk_nominate S nominator_id nominations)))))
      | _ \<Rightarrow> step_pure (Err (SystemTablesError MissingExpectedField)))"

definition unstake_initiated_row ::
    "'x substrate_ext \<Rightarrow> system_row \<Rightarrow> (('x, 'a) system_tables_state_scheme, unit) row_step" where
  "unstake_initiated_row S row =
     (case row ''STAKER'' of
        Some (ValueBytes staker) \<Rightarrow>
          (let staker = hex_encode staker in
           step_bind (step_pure (eth_address_to_substrate_account_id staker)) (\<lambda>staker_id.
           (\<lambda>s. let raw_balance = bx_free_balance S (Substrate s) staker_id;
                    staking_balance = ucast (saturated_u64 raw_balance)
                in substrate (sk_unbond S staker_id staking_balance) s)))
      | _ \<Rightarrow> step_pure (Err (SystemTablesError MissingExpectedField)))"

definition unstake_cancelled_row ::
    "'x substrate_ext \<Rightarrow> system_row \<Rightarrow> (('x, 'a) system_tables_state_scheme, unit) row_step" where
  "unstake_cancelled_row S row =
     (case row ''STAKER'' of
        Some (ValueBytes staker) \<Rightarrow>
          (let staker = hex_encode staker in
           step_bind (step_pure (eth_address_to_substrate_account_id staker)) (\<lambda>staker_id.
           (\<lambda>s. let raw_balance = bx_free_balance S (Substrate s) staker_id;
                    staking_balance = ucast (saturated_u64 raw_balance)
                in substrate (sk_rebond S staker_id staking_balance) s)))
      | _ \<Rightarrow> step_pure (Err (SystemTablesError MissingExpectedField)))"

text \<open>\<open>messages.rs\<close>: the one supported message registers session keys.\<close>

definition handle_message ::
    "'x substrate_ext \<Rightarrow> account_id \<Rightarrow> bytes \<Rightarrow> (('x, 'a) system_tables_state_scheme, unit) row_step" where
  "handle_message S sender message_bytes =
     step_bind (step_pure (ok_or (ss_decode_keys S message_bytes) (SystemTablesError InvalidSessionKeys))) (\<lambda>keys.
     step_bind (\<lambda>s. case substrate (sk_set_controller S sender) s of
         (s', Err e) \<Rightarrow> (s', if e = sk_already_paired S then Ok () else Err e)
       | (s', r) \<Rightarrow> (s', r)) (\<lambda>_.
     step_bind (substrate (sk_validate S sender (10, False))) (\<lambda>_.
     substrate (ss_set_keys S sender keys []))))"

text \<open>The addition on \<open>U256\<close> panics on overflow.\<close>

definition evm_message_row ::
    "'x substrate_ext \<Rightarrow> system_row \<Rightarrow> (('x, 'a) system_tables_state_scheme, unit) row_step" where
  "evm_message_row S row =
     (case (row ''SENDER'', row ''BODY'', row ''NONCE'') of
        (Some (ValueBytes sender), Some (ValueBytes body), Some (ValueDecimal nonce)) \<Rightarrow>
          (let sender = hex_encode sender in
           step_bind (step_pure (eth_address_to_substrate_account_id sender)) (\<lambda>eth_sender.
           (\<lambda>s. let last = sm_get_or 0 (LastProcessedUserNonce s) eth_sender in
              if last = - 1 then (s, Panic)
              else let expected = last + 1 in
              if nonce < expected then (s, Err (SystemTablesError LateNonce))
              else if nonce > expected then (s, Err (SystemTablesError FutureNonce))
              else let s = s\<lparr>LastProcessedUserNonce := sm_insert eth_sender nonce (LastProcessedUserNonce s)\<rparr>
                   in handle_message S eth_sender body s)))
      | _ \<Rightarrow> step_pure (Err (SystemTablesError MissingExpectedField)))"

section \<open>Requests and calls\<close>

type_synonym ('x, 'a) system_state = "('x, 'a) system_tables_state_scheme"

definition process_staking ::
    "'x substrate_ext \<Rightarrow> system_request \<Rightarrow> ('x, 'a) system_state \<Rightarrow> ('x, 'a) system_state dispatch_result" where
  "process_staking S request s = for_each_row (stake_row S) (request_rows request) s"

definition process_nominating ::
    "'x substrate_ext \<Rightarrow> system_request \<Rightarrow> ('x, 'a) system_state \<Rightarrow> ('x, 'a) system_state dispatch_result" where
  "process_nominating S request s = for_each_row (nominate_row S) (request_rows request) s"

definition process_unstake_initiated ::
    "'x substrate_ext \<Rightarrow> system_request \<Rightarrow> ('x, 'a) system_state \<Rightarrow> ('x, 'a) system_state dispatch_result" where
  "process_unstake_initiated S request s = for_each_row (unstake_initiated_row S) (request_rows request) s"

definition process_unstake_cancelled ::
    "'x substrate_ext \<Rightarrow> system_request \<Rightarrow> ('x, 'a) system_state \<Rightarrow> ('x, 'a) system_state dispatch_result" where
  "process_unstake_cancelled S request s = for_each_row (unstake_cancelled_row S) (request_rows request) s"

definition process_evm_message ::
    "'x substrate_ext \<Rightarrow> system_request \<Rightarrow> ('x, 'a) system_state \<Rightarrow> ('x, 'a) system_state dispatch_result" where
  "process_evm_message S request s = for_each_row (evm_message_row S) (request_rows request) s"

definition process_request ::
    "'x substrate_ext \<Rightarrow> system_request \<Rightarrow> ('x, 'a) system_state \<Rightarrow> ('x, 'a) system_state dispatch_result" where
  "process_request S request s =
     (case sr_request_type request of
        Message \<Rightarrow> process_evm_message S request s
      | Staking Stake \<Rightarrow> process_staking S request s
      | Staking Nominate \<Rightarrow> process_nominating S request s
      | Staking UnstakeCancelled \<Rightarrow> process_unstake_cancelled S request s
      | Staking UnstakeInitiated \<Rightarrow> process_unstake_initiated S request s
      | ZkPay \<Rightarrow> Ok s)"

definition process_system_table ::
    "(bytes \<Rightarrow> bytes) \<Rightarrow> 'x substrate_ext \<Rightarrow> table_identifier \<Rightarrow> on_chain_table
     \<Rightarrow> ('x, 'a) system_state \<Rightarrow> ('x, 'a) system_state dispatch_result" where
  "process_system_table uc S table_id oc_table s =
     bind_res (table_to_request uc oc_table table_id) (\<lambda>r. case r of
       None \<Rightarrow> Ok s
     | Some req \<Rightarrow> process_request S req s)"

definition set_last_nonce ::
    "origin \<Rightarrow> bytes \<Rightarrow> u64 \<Rightarrow> ('x, 'a) system_state \<Rightarrow> ('x, 'a) system_state dispatch_result" where
  "set_last_nonce orig eth_wallet new_nonce s =
     bind_res (ensure_root orig) (\<lambda>_.
     bind_res (eth_address_to_substrate_account_id eth_wallet) (\<lambda>eth_sender.
     Ok (s\<lparr>LastProcessedUserNonce := sm_insert eth_sender (ucast new_nonce) (LastProcessedUserNonce s)\<rparr>)))"

text \<open>The offence handler: chilling is attempted, its result is not looked at.\<close>

definition on_offence ::
    "'x substrate_ext \<Rightarrow> account_id list \<Rightarrow> ('x, 'a) system_state \<Rightarrow> ('x, 'a) system_state \<times> u64" where
  "on_offence S offenders s =
     fold (\<lambda>validator (s, weight).
         let s = deposit_event (ValidatorForceChilled validator) s;
             (s, result) = substrate (sk_chill S validator) s
         in (s, weight + 10000)) offenders (s, 0)"

section \<open>What a step can change\<close>

text \<open>
  \<open>sys_step k\<close>: only events (at the end), message nonces and the Substrate pallets change, and no
  account's nonce goes down or goes up by more than \<open>k\<close>.
\<close>

definition user_nonce :: "('x, 'a) system_state \<Rightarrow> account_id \<Rightarrow> nat" where
  "user_nonce s a = unat (sm_get_or 0 (LastProcessedUserNonce s) a)"

definition sys_step :: "nat \<Rightarrow> ('x, 'a) system_state \<Rightarrow> ('x, 'a) system_state \<Rightarrow> bool" where
  "sys_step k s s' \<longleftrightarrow>
     (\<exists>ev n x. s' = s\<lparr>events := events s @ ev, LastProcessedUserNonce := n, Substrate := x\<rparr>)
     \<and> (\<forall>a. user_nonce s a \<le> user_nonce s' a \<and> user_nonce s' a \<le> user_nonce s a + k)"

lemma sys_step_refl [simp]: "sys_step k s s"
proof -
  have "s = s\<lparr>events := events s @ [], LastProcessedUserNonce := LastProcessedUserNonce s, Substrate := Substrate s\<rparr>"
    by simp
  then show ?thesis unfolding sys_step_def by (metis le_add1 le_refl)
qed

lemma sys_step_trans:
  assumes "sys_step k s s1" "sys_step l s1 s2"
  shows "sys_step (k + l) s s2"
proof -
  obtain ev n x ev' n' x' where
    s1: "s1 = s\<lparr>events := events s @ ev, LastProcessedUserNonce := n, Substrate := x\<rparr>"
    and s2: "s2 = s1\<lparr>events := events s1 @ ev', LastProcessedUserNonce := n', Substrate := x'\<rparr>"
    using assms by (auto simp: sys_step_def)
  have "s2 = s\<lparr>events := events s @ (ev @ ev'), LastProcessedUserNonce := n', Substrate := x'\<rparr>"
    by (simp add: s1 s2)
  moreover have "user_nonce s a \<le> user_nonce s2 a \<and> user_nonce s2 a \<le> user_nonce s a + (k + l)" for a
  proof -
    have "user_nonce s a \<le> user_nonce s1 a" "user_nonce s1 a \<le> user_nonce s a + k"
      "user_nonce s1 a \<le> user_nonce s2 a" "user_nonce s2 a \<le> user_nonce s1 a + l"
      using assms by (auto simp: sys_step_def)
    then show ?thesis by linarith
  qed
  ultimately show ?thesis unfolding sys_step_def by blast
qed

lemma sys_step_mono: "sys_step k s s' \<Longrightarrow> k \<le> l \<Longrightarrow> sys_step l s s'"
  unfolding sys_step_def using add_left_mono[of k l] le_trans by blast

lemma sys_step_deposit [simp]: "sys_step k s (deposit_event e s)"
proof -
  have "deposit_event e s = s\<lparr>events := events s @ [e], LastProcessedUserNonce := LastProcessedUserNonce s,
      Substrate := Substrate s\<rparr>"
    by (simp add: deposit_event_def)
  moreover have "user_nonce (deposit_event e s) = user_nonce s"
    by (simp add: user_nonce_def deposit_event_def fun_eq_iff)
  ultimately show ?thesis unfolding sys_step_def by (metis le_add1 le_refl)
qed

lemma sys_step_emit [simp]: "sys_step k s (emit_for_error r s)"
  by (cases r) (simp_all add: emit_for_error_def)

lemma sys_step_substrate [simp]: "sys_step k s (s\<lparr>Substrate := x\<rparr>)"
proof -
  have "s\<lparr>Substrate := x\<rparr> = s\<lparr>events := events s @ [], LastProcessedUserNonce := LastProcessedUserNonce s,
      Substrate := x\<rparr>"
    by simp
  moreover have "user_nonce (s\<lparr>Substrate := x\<rparr>) = user_nonce s"
    by (simp add: user_nonce_def fun_eq_iff)
  ultimately show ?thesis unfolding sys_step_def by (metis le_add1 le_refl)
qed

definition stepper :: "nat \<Rightarrow> (('x, 'a) system_state, 'b) row_step \<Rightarrow> bool" where
  "stepper k m \<longleftrightarrow> (\<forall>s. sys_step k s (fst (m s)))"

named_theorems stepper_intros \<open>rules that bound what a row handler changes\<close>

lemma stepper_pure [stepper_intros]: "stepper k (step_pure r)"
  by (simp add: stepper_def step_pure_def)

lemma stepper_substrate [stepper_intros]: "stepper k (substrate f)"
  by (simp add: stepper_def substrate_def split: prod.split)

lemma stepper_bind:
  assumes "stepper k m" "\<And>x. stepper l (f x)"
  shows "stepper (k + l) (step_bind m f)"
  unfolding stepper_def
proof
  fix s
  obtain s1 r where m: "m s = (s1, r)" by (cases "m s")
  then have s1: "sys_step k s s1" using assms(1) by (metis fst_conv stepper_def)
  show "sys_step (k + l) s (fst (step_bind m f s))"
    using s1 assms(2) by (cases r) (auto simp: step_bind_def m stepper_def intro: sys_step_trans elim: sys_step_mono)
qed

lemmas stepper_bind0 [stepper_intros] = stepper_bind[where k = 0 and l = 0, simplified]

lemma stepper_bind_reader [stepper_intros]:
  "(\<And>s0. stepper k (step_bind (m s0) (f s0))) \<Longrightarrow> stepper k (\<lambda>s. step_bind (m s) (f s) s)"
  by (simp add: stepper_def)

lemma stepper_substrate_reader [stepper_intros]: "stepper k (\<lambda>s. substrate (f s) s)"
  by (simp add: stepper_def substrate_def split: prod.split)

text \<open>Nothing panics.\<close>

definition returning :: "('s, 'a) row_step \<Rightarrow> bool" where
  "returning m \<longleftrightarrow> (\<forall>s. snd (m s) \<noteq> Panic)"

lemma returningD: "returning m \<Longrightarrow> snd (m s) \<noteq> Panic"
  by (simp add: returning_def)

lemma returning_pure: "r \<noteq> Panic \<Longrightarrow> returning (step_pure r)"
  by (simp add: returning_def step_pure_def)

lemma returning_substrate: "returning f \<Longrightarrow> returning (substrate f)"
  by (auto simp: returning_def substrate_def split: prod.split) (metis snd_conv)

lemma returning_bind:
  assumes "returning m" "\<And>x. returning (f x)"
  shows "returning (step_bind m f)"
  unfolding returning_def
proof
  fix s
  obtain s1 r where "m s = (s1, r)" by (cases "m s")
  moreover from this have "r \<noteq> Panic" using assms(1) by (metis snd_conv returning_def)
  ultimately show "snd (step_bind m f s) \<noteq> Panic"
    using assms(2) by (cases r) (auto simp: step_bind_def returning_def)
qed

lemma returning_bind_reader:
  "(\<And>s0. returning (step_bind (m s0) (f s0))) \<Longrightarrow> returning (\<lambda>s. step_bind (m s) (f s) s)"
  by (simp add: returning_def)

lemma returning_substrate_reader: "(\<And>s0. returning (f s0)) \<Longrightarrow> returning (\<lambda>s. substrate (f s) s)"
  by (auto simp: returning_def substrate_def split: prod.split) (metis snd_conv)

lemmas returning_intros = returning_pure returning_substrate returning_bind returning_bind_reader
  returning_substrate_reader

section \<open>Interface: handlers of one row\<close>

text \<open>
  What \<open>for_each_row\<close> relies on: a row changes only what \<open>sys_step 1\<close> allows, and under \<open>law\<close>
  (what is known of external code) it does not panic while no nonce is at the maximum.
\<close>

locale row_handler =
  fixes h :: "system_row \<Rightarrow> (('x, 'a) system_state, unit) row_step"
    and law :: bool
  assumes handler_step: "stepper 1 (h row)"
    and handler_returns: "law \<Longrightarrow> (\<And>a. user_nonce s a < 2 ^ 256 - 1) \<Longrightarrow> snd (h row s) \<noteq> Panic"
begin

lemma for_each_never_Err: "for_each_row h rows s \<noteq> Err e"
  by (induction rows arbitrary: s) (auto split: prod.split result.split)

lemma row_step: "sys_step 1 s (emit_for_error r (fst (h row s)))"
  using handler_step[of row] sys_step_trans[of 1 s "fst (h row s)" 0 "emit_for_error r (fst (h row s))"]
  by (simp add: stepper_def)

lemma for_each_step: "for_each_row h rows s = Ok s' \<Longrightarrow> sys_step (length rows) s s'"
proof (induction rows arbitrary: s)
  case (Cons row rows)
  obtain s1 r where h: "h row s = (s1, r)" by (cases "h row s")
  with Cons.prems have "for_each_row h rows (emit_for_error r s1) = Ok s'" by (auto split: result.splits)
  then have "sys_step (length rows) (emit_for_error r s1) s'" by (rule Cons.IH)
  with row_step[of s r row] show ?case
    using sys_step_trans[of 1 s "emit_for_error r s1" "length rows" s'] by (simp add: h)
qed simp

lemma for_each_returns:
  assumes law
  shows "(\<And>a. user_nonce s a + length rows < 2 ^ 256) \<Longrightarrow> \<exists>s'. for_each_row h rows s = Ok s'"
proof (induction rows arbitrary: s)
  case (Cons row rows)
  obtain s1 r where h: "h row s = (s1, r)" by (cases "h row s")
  have "user_nonce s a < 2 ^ 256 - 1" for a using Cons.prems[of a] by simp
  then have r: "r \<noteq> Panic" using handler_returns[OF assms, of s row] by (simp add: h)
  have up: "user_nonce (emit_for_error r s1) a \<le> user_nonce s a + 1" for a
    using row_step[of s r row] by (simp add: h sys_step_def)
  have "user_nonce (emit_for_error r s1) a + length rows < 2 ^ 256" for a
    using Cons.prems[of a] up[of a] by simp
  from Cons.IH[OF this] r show ?case by (cases r) (simp_all add: h)
qed simp

end

text \<open>The Substrate calls report failures as errors.\<close>

definition substrate_returns :: "'x substrate_ext \<Rightarrow> bool" where
  "substrate_returns S \<longleftrightarrow>
     (\<forall>a v. returning (bx_force_set_balance S a v) \<and> returning (sk_bond S a v) \<and> returning (sk_bond_extra S a v)
        \<and> returning (sk_unbond S a v) \<and> returning (sk_rebond S a v))
     \<and> (\<forall>a ns. returning (sk_nominate S a ns))
     \<and> (\<forall>a. returning (sk_set_controller S a) \<and> returning (sk_chill S a))
     \<and> (\<forall>a p. returning (sk_validate S a p)) \<and> (\<forall>a k p. returning (ss_set_keys S a k p))"

lemma stepper_stake:
  "stepper 0 (\<lambda>s. step_bind (substrate (f s)) (\<lambda>_. if P s then substrate (g s) else substrate (h s)) s)"
  by (rule stepper_bind_reader, rule stepper_bind0) (simp_all add: stepper_substrate)

lemma stake_row_stepper: "stepper 0 (stake_row S row)"
  unfolding stake_row_def Let_def
  by (auto split: option.split system_field_value.split intro!: stepper_pure stepper_bind0 stepper_stake)

lemma emit_all_step: "sys_step 0 s (fold (\<lambda>e. emit_for_error (Err e)) es s)"
proof (induction es arbitrary: s)
  case (Cons e es)
  have "sys_step 0 s (emit_for_error (Err e) s)" by simp
  from sys_step_trans[OF this Cons.IH] show ?case by simp
qed simp

lemma emit_all_stepper: "stepper 0 (\<lambda>s. (fold (\<lambda>e. emit_for_error (Err e)) es s, Ok ()))"
  by (simp add: stepper_def emit_all_step)

lemma nominate_row_stepper: "stepper 0 (nominate_row S row)"
  unfolding nominate_row_def Let_def case_prod_beta
  by (auto split: option.split system_field_value.split
      intro!: stepper_pure stepper_bind0 stepper_substrate emit_all_stepper)

lemma unstake_initiated_row_stepper: "stepper 0 (unstake_initiated_row S row)"
  unfolding unstake_initiated_row_def Let_def
  by (auto split: option.split system_field_value.split intro!: stepper_pure stepper_bind0 stepper_substrate_reader)

lemma unstake_cancelled_row_stepper: "stepper 0 (unstake_cancelled_row S row)"
  unfolding unstake_cancelled_row_def Let_def
  by (auto split: option.split system_field_value.split intro!: stepper_pure stepper_bind0 stepper_substrate_reader)

lemma set_controller_stepper:
  "stepper 0 (\<lambda>s. case substrate f s of (s', Err e) \<Rightarrow> (s', if e = e0 then Ok () else Err e) | (s', r) \<Rightarrow> (s', r))"
  by (auto simp: stepper_def substrate_def split: prod.split result.split)

lemma handle_message_stepper: "stepper 0 (handle_message S sender body)"
  unfolding handle_message_def by (intro stepper_bind0 stepper_pure stepper_substrate set_controller_stepper)

lemma evm_nonce_step:
  assumes "sm_get_or 0 (LastProcessedUserNonce s) a \<noteq> - 1" "n = sm_get_or 0 (LastProcessedUserNonce s) a + 1"
  shows "user_nonce (s\<lparr>LastProcessedUserNonce := sm_insert a n (LastProcessedUserNonce s)\<rparr>) =
      (user_nonce s)(a := user_nonce s a + 1)"
    and "sys_step 1 s (s\<lparr>LastProcessedUserNonce := sm_insert a n (LastProcessedUserNonce s)\<rparr>)"
proof -
  let ?s = "s\<lparr>LastProcessedUserNonce := sm_insert a n (LastProcessedUserNonce s)\<rparr>"
  have "1 + sm_get_or 0 (LastProcessedUserNonce s) a \<noteq> 0"
    using assms(1) by (metis add_eq_0_iff)
  then have n: "unat n = user_nonce s a + 1"
    using unatSuc[of "sm_get_or 0 (LastProcessedUserNonce s) a"] by (simp add: assms(2) user_nonce_def add.commute)
  then show nonce: "user_nonce ?s = (user_nonce s)(a := user_nonce s a + 1)"
    by (simp add: user_nonce_def fun_eq_iff)
  have "?s = s\<lparr>events := events s @ [], LastProcessedUserNonce := sm_insert a n (LastProcessedUserNonce s),
      Substrate := Substrate s\<rparr>"
    by simp
  moreover have "\<forall>x. user_nonce s x \<le> user_nonce ?s x \<and> user_nonce ?s x \<le> user_nonce s x + 1"
    by (simp add: nonce)
  ultimately show "sys_step 1 s ?s" unfolding sys_step_def by blast
qed

lemma accepted_message_step:
  assumes "sm_get_or 0 (LastProcessedUserNonce s) a \<noteq> - 1" "n = sm_get_or 0 (LastProcessedUserNonce s) a + 1"
  shows "sys_step 1 s (fst (handle_message S a body (s\<lparr>LastProcessedUserNonce := sm_insert a n (LastProcessedUserNonce s)\<rparr>)))"
    (is "sys_step 1 s (fst (handle_message S a body ?s))")
proof -
  have "sys_step 0 ?s (fst (handle_message S a body ?s))"
    by (rule handle_message_stepper[unfolded stepper_def, rule_format])
  from sys_step_trans[OF evm_nonce_step(2)[OF assms] this] show ?thesis by simp
qed

text \<open>A row whose fields are all there, from a sender of 20 bytes.\<close>

definition eth_account :: "bytes \<Rightarrow> account_id" where
  "eth_account sender = replicate 12 (char_of (0::nat)) @ sender"

definition message_row :: "system_row \<Rightarrow> (account_id \<times> bytes \<times> u256) option" where
  "message_row row = (case (row ''SENDER'', row ''BODY'', row ''NONCE'') of
     (Some (ValueBytes sender), Some (ValueBytes body), Some (ValueDecimal nonce)) \<Rightarrow>
       if length sender = 20 then Some (eth_account sender, body, nonce) else None
   | _ \<Rightarrow> None)"

lemma evm_message_row_None: "message_row row = None \<Longrightarrow> \<exists>e. evm_message_row S row s = (s, Err e)"
  by (auto simp: message_row_def evm_message_row_def step_bind_def step_pure_def eth_address_hex_encode
      split: option.splits system_field_value.splits if_splits)

lemma evm_message_row_Some:
  "message_row row = Some (a, body, nonce) \<Longrightarrow> evm_message_row S row s =
     (let last = sm_get_or 0 (LastProcessedUserNonce s) a in
      if last = - 1 then (s, Panic)
      else if nonce < last + 1 then (s, Err (SystemTablesError LateNonce))
      else if nonce > last + 1 then (s, Err (SystemTablesError FutureNonce))
      else handle_message S a body (s\<lparr>LastProcessedUserNonce := sm_insert a nonce (LastProcessedUserNonce s)\<rparr>))"
  by (auto simp: message_row_def evm_message_row_def step_bind_def step_pure_def eth_address_hex_encode eth_account_def
      Let_def split: option.splits system_field_value.splits if_splits)

lemma evm_message_row_stepper: "stepper 1 (evm_message_row S row)"
  unfolding stepper_def
proof
  fix s
  show "sys_step 1 s (fst (evm_message_row S row s))"
  proof (cases "message_row row")
    case None
    then show ?thesis using evm_message_row_None[of row S s] by auto
  next
    case (Some m)
    obtain a body n where m: "m = (a, body, n)" by (cases m)
    show ?thesis
      using accepted_message_step[of s a n S body]
      by (auto simp: evm_message_row_Some[OF Some[unfolded m]] Let_def not_less)
  qed
qed

section \<open>The handlers implement the interface\<close>

lemma stepper_0_1: "stepper 0 m \<Longrightarrow> stepper 1 m"
  unfolding stepper_def by (meson sys_step_mono zero_le)

lemma returning_stake:
  assumes "\<And>s. returning (f s)" "\<And>s. returning (g s)" "\<And>s. returning (h s)"
  shows "returning (\<lambda>s. step_bind (substrate (f s)) (\<lambda>_. if P s then substrate (g s) else substrate (h s)) s)"
  by (rule returning_bind_reader, rule returning_bind) (simp_all add: returning_substrate assms)

lemma stake_row_returns: "substrate_returns S \<Longrightarrow> returning (stake_row S row)"
  unfolding stake_row_def Let_def
  by (auto split: option.split system_field_value.split simp: eth_address_not_Panic substrate_returns_def
      intro!: returning_pure returning_bind returning_stake)

lemma nominate_row_returns: "substrate_returns S \<Longrightarrow> returning (nominate_row S row)"
proof -
  have "parse_address_list_json (jx_list S) nodes \<noteq> Panic" for nodes
    by (cases "jx_list S nodes") (simp_all add: parse_address_list_json_def)
  then have "map_err (\<lambda>_. e) (parse_address_list_json (jx_list S) nodes) \<noteq> Panic" for nodes and e :: dispatch_error
    by (cases "parse_address_list_json (jx_list S) nodes") simp_all
  then show "substrate_returns S \<Longrightarrow> ?thesis"
    unfolding nominate_row_def Let_def case_prod_beta
    by (auto split: option.split system_field_value.split simp: eth_address_not_Panic substrate_returns_def
        intro!: returning_pure returning_bind returning_substrate) (simp add: returning_def)
qed

lemma unstake_initiated_row_returns: "substrate_returns S \<Longrightarrow> returning (unstake_initiated_row S row)"
  unfolding unstake_initiated_row_def Let_def
  by (auto split: option.split system_field_value.split simp: eth_address_not_Panic substrate_returns_def
      intro!: returning_pure returning_bind returning_substrate_reader)

lemma unstake_cancelled_row_returns: "substrate_returns S \<Longrightarrow> returning (unstake_cancelled_row S row)"
  unfolding unstake_cancelled_row_def Let_def
  by (auto split: option.split system_field_value.split simp: eth_address_not_Panic substrate_returns_def
      intro!: returning_pure returning_bind returning_substrate_reader)

lemma set_controller_returns:
  assumes "returning f"
  shows "returning (\<lambda>s. case substrate f s of (s', Err e) \<Rightarrow> (s', if e = e0 then Ok () else Err e) | (s', r) \<Rightarrow> (s', r))"
  unfolding returning_def
proof
  fix s
  have "snd (substrate f s) \<noteq> Panic" by (rule returningD[OF returning_substrate[OF assms]])
  then show "snd (case substrate f s of (s', Err e) \<Rightarrow> (s', if e = e0 then Ok () else Err e) | (s', r) \<Rightarrow> (s', r)) \<noteq> Panic"
    by (cases "substrate f s") (auto split: result.split)
qed

lemma handle_message_returns: "substrate_returns S \<Longrightarrow> returning (handle_message S sender body)"
  unfolding handle_message_def
  by (intro returning_bind returning_pure returning_substrate set_controller_returns)
    (auto simp: substrate_returns_def ok_or_def split: option.split)

lemma evm_message_row_returns:
  assumes "substrate_returns S" "\<And>a. user_nonce s a < 2 ^ 256 - 1"
  shows "snd (evm_message_row S row s) \<noteq> Panic"
proof (cases "message_row row")
  case None
  then show ?thesis using evm_message_row_None[of row S s] by auto
next
  case (Some m)
  obtain a body n where m: "m = (a, body, n)" by (cases m)
  have "sm_get_or 0 (LastProcessedUserNonce s) a \<noteq> - 1"
  proof
    assume "sm_get_or 0 (LastProcessedUserNonce s) a = - 1"
    then have "user_nonce s a = 2 ^ 256 - 1"
      by (simp add: user_nonce_def unsigned_minus_1_eq_mask mask_eq_exp_minus_1)
    with assms(2)[of a] show False by simp
  qed
  then show ?thesis
    by (simp add: evm_message_row_Some[OF Some[unfolded m]] Let_def returningD[OF handle_message_returns[OF assms(1)]])
qed

lemma row_handlerI:
  assumes "\<And>row. stepper 0 (h row)" "\<And>row. law \<Longrightarrow> returning (h row)"
  shows "row_handler h law"
  by (rule row_handler.intro) (use assms in \<open>auto simp: returning_def intro: stepper_0_1 simp del: One_nat_def\<close>)

interpretation stake: row_handler "stake_row S" "substrate_returns S" for S
  by (rule row_handlerI[OF stake_row_stepper stake_row_returns])

interpretation nomination: row_handler "nominate_row S" "substrate_returns S" for S
  by (rule row_handlerI[OF nominate_row_stepper nominate_row_returns])

interpretation unstake_initiated: row_handler "unstake_initiated_row S" "substrate_returns S" for S
  by (rule row_handlerI[OF unstake_initiated_row_stepper unstake_initiated_row_returns])

interpretation unstake_cancelled: row_handler "unstake_cancelled_row S" "substrate_returns S" for S
  by (rule row_handlerI[OF unstake_cancelled_row_stepper unstake_cancelled_row_returns])

interpretation evm_message: row_handler "evm_message_row S" "substrate_returns S" for S
  by (rule row_handler.intro) (rule evm_message_row_stepper evm_message_row_returns; assumption)+

section \<open>Requests\<close>

lemmas process_request_defs = process_request_def process_staking_def process_nominating_def
  process_unstake_initiated_def process_unstake_cancelled_def process_evm_message_def

lemmas for_each_never_Err = stake.for_each_never_Err nomination.for_each_never_Err
  unstake_initiated.for_each_never_Err unstake_cancelled.for_each_never_Err evm_message.for_each_never_Err

lemmas for_each_step = stake.for_each_step nomination.for_each_step unstake_initiated.for_each_step
  unstake_cancelled.for_each_step evm_message.for_each_step

lemmas for_each_returns = stake.for_each_returns nomination.for_each_returns
  unstake_initiated.for_each_returns unstake_cancelled.for_each_returns evm_message.for_each_returns

lemma process_request_never_Err: "process_request S req s \<noteq> Err e"
  by (simp add: process_request_defs for_each_never_Err split: system_request_type.split staking_system_request.split)

lemma process_request_step: "process_request S req s = Ok s' \<Longrightarrow> sys_step (length (request_rows req)) s s'"
  by (auto simp: process_request_defs intro: for_each_step split: system_request_type.splits staking_system_request.splits)

lemma process_request_returns:
  assumes "substrate_returns S" "\<And>a. user_nonce s a + length (request_rows req) < 2 ^ 256"
  shows "\<exists>s'. process_request S req s = Ok s'"
  by (auto simp: process_request_defs intro!: for_each_returns assms split: system_request_type.splits staking_system_request.splits)

lemma system_template_not_Err: "system_template uc ty flds nam \<noteq> Err e"
  by (auto simp: system_template_def from_str_unchecked_def bind_res_def expect_res_def split: result.split)

lemma get_system_templates_not_Err: "get_system_templates uc \<noteq> Err e"
proof -
  have "collect_res (\<lambda>(ty, flds, nam). system_template uc ty flds nam) xs \<noteq> Err e" for xs
    by (induction xs) (auto simp: bind_res_def map_ok_def system_template_not_Err split: result.split)
  then show ?thesis unfolding get_system_templates_def by blast
qed

lemma table_to_request_not_Err: "table_to_request uc t ident \<noteq> Err e"
  by (simp add: table_to_request_def template_for_identifier_def map_ok_def get_system_templates_not_Err split: result.split)

lemma process_system_table_never_Err: "process_system_table uc S ident t s \<noteq> Err e"
  by (simp add: process_system_table_def bind_res_def table_to_request_not_Err process_request_never_Err
      split: result.split option.split)

text \<open>With the ASCII names of the templates, building them cannot panic.\<close>

definition staking_table :: "bytes \<Rightarrow> table_identifier" where
  "staking_table nam = \<lparr>ti_name = nam, ti_namespace = ''SXT_SYSTEM_STAKING''\<rparr>"

definition template_fields :: "system_request_type \<Rightarrow> (bytes \<times> system_field_type) list" where
  "template_fields ty = (case ty of
     Message \<Rightarrow> [(''SENDER'', FieldBytes), (''BODY'', FieldBytes), (''NONCE'', FieldDecimal)]
   | Staking Stake \<Rightarrow> [(''STAKER'', FieldBytes), (''AMOUNT'', FieldDecimal)]
   | Staking Nominate \<Rightarrow> [(''NOMINATOR'', FieldBytes), (''NODESED25519PUBKEYS'', FieldVarchar)]
   | Staking UnstakeInitiated \<Rightarrow> [(''STAKER'', FieldBytes)]
   | Staking UnstakeCancelled \<Rightarrow> [(''STAKER'', FieldBytes)]
   | ZkPay \<Rightarrow> [])"

definition request_type_of :: "table_identifier \<Rightarrow> system_request_type option" where
  "request_type_of ident = map_of
     [(staking_table ''MESSAGE'', Message), (staking_table ''STAKED'', Staking Stake),
      (staking_table ''NOMINATED'', Staking Nominate), (staking_table ''UNSTAKEINITIATED'', Staking UnstakeInitiated),
      (staking_table ''UNSTAKECANCELLED'', Staking UnstakeCancelled)] ident"

lemma system_template_Ok:
  assumes "unicode_upper uc" "ascii nam" "to_ascii_uppercase nam = nam" "length nam \<le> 64"
  shows "system_template uc ty flds nam = Ok
     \<lparr>sr_request_type = ty, sr_fields = map system_table_field_from flds, sr_table_id = staking_table nam\<rparr>"
proof -
  have "uc nam = nam" using assms by (simp add: unicode_upper_def)
  moreover have "uc ''SXT_SYSTEM_STAKING'' = to_ascii_uppercase ''SXT_SYSTEM_STAKING''"
    using assms(1) by (simp add: unicode_upper_def ascii_def)
  moreover have "to_ascii_uppercase ''SXT_SYSTEM_STAKING'' = ''SXT_SYSTEM_STAKING''" by code_simp
  ultimately show ?thesis
    using assms(4) by (simp add: system_template_def from_str_unchecked_def byte_string_try_from_def
        bounded_try_from_def staking_table_def)
qed

lemma table_to_request_Ok:
  assumes "unicode_upper uc"
  shows "table_to_request uc t ident = Ok (map_option (\<lambda>ty.
     parse_request_with_template uc t \<lparr>sr_request_type = ty, sr_fields = map system_table_field_from (template_fields ty),
       sr_table_id = ident\<rparr>) (request_type_of ident))"
proof -
  have up: "to_ascii_uppercase ''MESSAGE'' = ''MESSAGE''" "to_ascii_uppercase ''STAKED'' = ''STAKED''"
    "to_ascii_uppercase ''NOMINATED'' = ''NOMINATED''" "to_ascii_uppercase ''UNSTAKEINITIATED'' = ''UNSTAKEINITIATED''"
    "to_ascii_uppercase ''UNSTAKECANCELLED'' = ''UNSTAKECANCELLED''"
    by code_simp+
  show ?thesis
    by (auto simp: table_to_request_def template_for_identifier_def get_system_templates_def up ascii_def
        system_template_Ok[OF assms] template_fields_def request_type_of_def)
qed

text \<open>The number of rows a table has as a request.\<close>

definition request_size :: "(bytes \<Rightarrow> bytes) \<Rightarrow> on_chain_table \<Rightarrow> table_identifier \<Rightarrow> nat" where
  "request_size uc t ident = (case (table_to_request uc t ident :: (_, unit) result) of
     Ok (Some req) \<Rightarrow> length (request_rows req) | _ \<Rightarrow> 0)"

lemma process_system_table_runs:
  assumes "unicode_upper uc" "substrate_returns S" "\<forall>a. user_nonce s a + request_size uc t ident < 2 ^ 256"
  shows "\<exists>s'. process_system_table uc S ident t s = Ok s' \<and> sys_step (request_size uc t ident) s s'"
proof (cases "request_type_of ident")
  case None
  then show ?thesis by (simp add: process_system_table_def table_to_request_Ok[OF assms(1)])
next
  case (Some ty)
  define req where "req = parse_request_with_template uc t
    \<lparr>sr_request_type = ty, sr_fields = map system_table_field_from (template_fields ty), sr_table_id = ident\<rparr>"
  have size: "request_size uc t ident = length (request_rows req)"
    by (simp add: request_size_def table_to_request_Ok[OF assms(1)] Some req_def)
  have run: "process_system_table uc S ident t s = process_request S req s"
    by (simp add: process_system_table_def table_to_request_Ok[OF assms(1)] Some req_def)
  obtain s' where "process_request S req s = Ok s'"
    using process_request_returns[OF assms(2), of s req] assms(3) unfolding size by blast
  with process_request_step[OF this] show ?thesis by (simp add: run size)
qed

text \<open>
  C18. An insert into a staking table is always carried through: whatever the table holds, no error
  and no panic comes back to the insert, provided the Substrate calls report failures as errors
  and no sender's nonce can reach the end of \<open>u256\<close>. Only events, nonces and the Substrate
  pallets change, and no nonce goes down or goes up by more than the number of rows.
\<close>

theorem system_table_processed:
  assumes "unicode_upper uc" "substrate_returns S" "\<forall>a. user_nonce s a + request_size uc t ident < 2 ^ 256"
  shows "\<exists>s'. process_system_table uc S ident t s = Ok s' \<and> sys_step (request_size uc t ident) s s'"
  using assms by (rule process_system_table_runs)

section \<open>Messages are handled once\<close>

text \<open>Inserts processed one after the other.\<close>

fun process_system_tables ::
    "(bytes \<Rightarrow> bytes) \<Rightarrow> 'x substrate_ext \<Rightarrow> (table_identifier \<times> on_chain_table) list
     \<Rightarrow> ('x, 'a) system_state \<Rightarrow> ('x, 'a) system_state dispatch_result" where
  "process_system_tables uc S [] s = Ok s"
| "process_system_tables uc S ((ident, t) # xs) s =
     bind_res (process_system_table uc S ident t s) (process_system_tables uc S xs)"

lemma process_system_table_step:
  assumes "process_system_table uc S ident t s = Ok s'"
  shows "\<exists>k. sys_step k s s'"
  using assms
  by (auto simp: process_system_table_def res_Ok_iff split: option.splits intro: sys_step_refl process_request_step)

lemma process_system_tables_step: "process_system_tables uc S xs s = Ok s' \<Longrightarrow> \<exists>k. sys_step k s s'"
proof (induction xs arbitrary: s)
  case Nil
  then show ?case using sys_step_refl[of 0 s] by auto
next
  case (Cons x xs)
  obtain ident t where x: "x = (ident, t)" by (cases x)
  obtain s1 where s1: "process_system_table uc S ident t s = Ok s1" "process_system_tables uc S xs s1 = Ok s'"
    using Cons.prems by (auto simp: x res_Ok_iff)
  obtain k l where "sys_step k s s1" "sys_step l s1 s'"
    using process_system_table_step[OF s1(1)] Cons.IH[OF s1(2)] by auto
  then show ?case using sys_step_trans by blast
qed

lemma accepted_nonce:
  assumes row: "message_row row = Some (a, body, n)" and run: "evm_message_row S row s = (s1, r)"
    and acc: "LastProcessedUserNonce s1 \<noteq> LastProcessedUserNonce s"
  shows "user_nonce s1 a = unat n"
proof -
  let ?s = "s\<lparr>LastProcessedUserNonce := sm_insert a n (LastProcessedUserNonce s)\<rparr>"
  have "(s1, r) = handle_message S a body ?s"
    using run acc unfolding evm_message_row_Some[OF row] Let_def by (simp split: if_splits)
  then have "sys_step 0 ?s s1"
    using handle_message_stepper[of S a body] by (metis fst_conv stepper_def)
  then have "user_nonce ?s a \<le> user_nonce s1 a" "user_nonce s1 a \<le> user_nonce ?s a"
    by (simp_all add: sys_step_def)
  then show ?thesis by (simp add: user_nonce_def)
qed

lemma late_message:
  assumes row: "message_row row = Some (a, body, n)" and le: "unat n \<le> user_nonce s a"
  shows "fst (evm_message_row S row s) = s" "\<not> is_ok (snd (evm_message_row S row s))"
proof -
  let ?l = "sm_get_or 0 (LastProcessedUserNonce s) a"
  have "?l = - 1 \<or> n < ?l + 1"
  proof (cases "?l = - 1")
    case False
    then have "1 + ?l \<noteq> 0" by (metis add_eq_0_iff)
    then have "unat (?l + 1) = unat ?l + 1" using unatSuc[of ?l] by (simp add: add.commute)
    with le show ?thesis by (simp add: user_nonce_def word_less_nat_alt)
  qed simp
  then show "fst (evm_message_row S row s) = s" "\<not> is_ok (snd (evm_message_row S row s))"
    by (auto simp: evm_message_row_Some[OF row] Let_def)
qed

text \<open>
  No message is handled twice: once the nonce of a row is taken, whether or not its message
  was then handled successfully, and after any further inserts into staking tables, the same
  row is refused and changes nothing.
\<close>

theorem message_not_replayed:
  assumes "evm_message_row S row s = (s1, r)" "LastProcessedUserNonce s1 \<noteq> LastProcessedUserNonce s"
    and "process_system_tables uc S xs s1 = Ok s2"
  shows "fst (evm_message_row S row s2) = s2 \<and> \<not> is_ok (snd (evm_message_row S row s2))"
proof (cases "message_row row")
  case None
  then show ?thesis using evm_message_row_None[of row S s] assms(1,2) by auto
next
  case (Some m)
  obtain a body n where m: "m = (a, body, n)" by (cases m)
  have "user_nonce s1 a = unat n" using accepted_nonce[OF Some[unfolded m] assms(1,2)] .
  moreover obtain k where "sys_step k s1 s2" using process_system_tables_step[OF assms(3)] by blast
  then have "user_nonce s1 a \<le> user_nonce s2 a" by (simp add: sys_step_def)
  ultimately show ?thesis using late_message[OF Some[unfolded m], of s2 S] by simp
qed

section \<open>A bank without staking\<close>

text \<open>
  The Substrate pallets of the examples: balances are a function, an account has to exist to
  bond more, and everything else succeeds without effect.
\<close>

definition demo_substrate :: "(account_id \<Rightarrow> u128) substrate_ext" where
  "demo_substrate =
     \<lparr>bx_free_balance = \<lambda>x. x, bx_force_set_balance = \<lambda>a v x. (x(a := if v < 100 then 0 else v), Ok ()),
      sk_bond = \<lambda>_ _ x. (x, Ok ()), sk_bond_extra = \<lambda>_ _ x. (x, Err (ExternalError ''NotStash'')),
      sk_unbond = \<lambda>_ _ x. (x, Ok ()), sk_rebond = \<lambda>_ _ x. (x, Ok ()), sk_nominate = \<lambda>_ _ x. (x, Ok ()),
      sk_set_controller = \<lambda>_ x. (x, Err (ExternalError ''AlreadyPaired'')),
      sk_already_paired = ExternalError ''AlreadyPaired'',
      sk_validate = \<lambda>_ _ x. (x, Ok ()), sk_chill = \<lambda>_ x. (x, Ok ()), ss_decode_keys = Some,
      ss_set_keys = \<lambda>_ _ _ x. (x, Ok ()), jx_list = \<lambda>_. Some [], bx_existential_deposit = 100\<rparr>"

definition demo_system_state :: "(account_id \<Rightarrow> u128) system_tables_state" where
  "demo_system_state = tables_state.extend demo_tables_state (system_tables_state.fields 0 0 [] (\<lambda>_. 5000))"

definition demo_address :: bytes where
  "demo_address = replicate 20 CHR ''a''"

definition demo_message :: system_row where
  "demo_message = [''SENDER'' \<mapsto> ValueBytes demo_address, ''BODY'' \<mapsto> ValueBytes ''k'', ''NONCE'' \<mapsto> ValueDecimal 1]"

lemma demo_substrate_returns: "substrate_returns demo_substrate"
  by (simp add: substrate_returns_def demo_substrate_def returning_def)

lemma demo_nonces [simp]: "LastProcessedUserNonce demo_system_state = []"
  by (simp add: demo_system_state_def system_tables_state.defs tables_state.defs)

theorem system_table_processed_witness:
  "\<exists>s'. process_system_table to_ascii_uppercase demo_substrate (staking_table ''STAKED'') [] demo_system_state = Ok s'
     \<and> sys_step 0 demo_system_state s'"
proof -
  have size: "request_size to_ascii_uppercase [] (staking_table ''STAKED'') = 0"
    by (simp add: request_size_def table_to_request_Ok[OF unicode_upper_ascii] request_type_of_def staking_table_def
        template_fields_def parse_request_with_template_def request_rows_def get_bytes_by_column_def
        get_decimal_by_column_def get_column_def system_table_field_from_def map_filter_simps)
  show ?thesis
    using system_table_processed[OF unicode_upper_ascii demo_substrate_returns, of demo_system_state "[]" "staking_table ''STAKED''"]
    by (simp add: size user_nonce_def sm_get_or_def)
qed

theorem message_not_replayed_witness:
  "\<exists>s1. evm_message_row demo_substrate demo_message demo_system_state = (s1, Ok ())
     \<and> fst (evm_message_row demo_substrate demo_message s1) = s1
     \<and> \<not> is_ok (snd (evm_message_row demo_substrate demo_message s1))"
proof -
  have row: "message_row demo_message = Some (eth_account demo_address, ''k'', 1)"
    by (simp add: message_row_def demo_message_def demo_address_def)
  let ?s1 = "demo_system_state\<lparr>LastProcessedUserNonce := [(eth_account demo_address, 1)]\<rparr>"
  have "evm_message_row demo_substrate demo_message demo_system_state = (?s1, Ok ())"
    by (simp add: evm_message_row_Some[OF row] handle_message_def step_bind_def step_pure_def substrate_def
        demo_substrate_def sm_get_or_def sm_insert_def)
  moreover have "LastProcessedUserNonce ?s1 \<noteq> LastProcessedUserNonce demo_system_state" by simp
  moreover have "process_system_tables to_ascii_uppercase demo_substrate [] ?s1 = Ok ?s1" by simp
  ultimately show ?thesis using message_not_replayed by blast
qed

section \<open>Staking and unstaking\<close>

text \<open>
  What the balances and staking pallets document of free balances: \<open>force_set_balance\<close> sets one
  account's balance, below the existential deposit to zero, and bonding only locks funds.
\<close>

definition balances_laws :: "'x substrate_ext \<Rightarrow> bool" where
  "balances_laws S \<longleftrightarrow>
     (\<forall>a v x. case bx_force_set_balance S a v x of
        (x', Ok _) \<Rightarrow> bx_free_balance S x' =
          (bx_free_balance S x)(a := if v < bx_existential_deposit S then 0 else v)
      | (x', _) \<Rightarrow> bx_free_balance S x' = bx_free_balance S x)
     \<and> (\<forall>a v x. bx_free_balance S (fst (sk_bond S a v x)) = bx_free_balance S x)
     \<and> (\<forall>a v x. bx_free_balance S (fst (sk_bond_extra S a v x)) = bx_free_balance S x)"

lemma unat_low_u128_min: "unat (low_u128_min v) = min (unat v) (2 ^ 128 - 1)"
proof -
  have "min v (2 ^ 128 - 1) = (if unat v \<le> 2 ^ 128 - 1 then v else 2 ^ 128 - 1)"
    by (simp add: min_def word_le_nat_alt)
  then show ?thesis
    by (simp add: low_u128_min_def unsigned_ucast_eq take_bit_nat_eq_self)
qed

lemma unat_saturated_u64: "unat (saturated_u64 v) = min (unat v) (2 ^ 64 - 1)"
  by (auto simp: saturated_u64_def unsigned_ucast_eq take_bit_nat_eq_self unsigned_minus_1_eq_mask mask_eq_exp_minus_1)



text \<open>
  Starting to unstake and cancelling it both ask for the sender's free balance, whatever part
  of it is bonded, and never for more than the largest \<open>u64\<close>: a larger balance is only
  unbonded, and only rebonded, in part.
\<close>

theorem unstake_bounded:
  assumes "row ''STAKER'' = Some (ValueBytes b)" "length b = 20"
  shows "\<exists>v. unat v = min (unat (bx_free_balance S (Substrate s) (eth_account b))) (2 ^ 64 - 1)
     \<and> unstake_initiated_row S row s = substrate (sk_unbond S (eth_account b) v) s
     \<and> unstake_cancelled_row S row s = substrate (sk_rebond S (eth_account b) v) s"
proof -
  define v :: u128 where "v = ucast (saturated_u64 (bx_free_balance S (Substrate s) (eth_account b)))"
  have "unat v = min (unat (bx_free_balance S (Substrate s) (eth_account b))) (2 ^ 64 - 1)"
    unfolding v_def unsigned_ucast_eq unat_saturated_u64 by (rule take_bit_nat_eq_self) simp
  then show ?thesis
    using assms by (auto simp: unstake_initiated_row_def unstake_cancelled_row_def eth_address_hex_encode step_bind_def
        step_pure_def Let_def v_def eth_account_def)
qed

theorem unstake_bounded_witness:
  "\<exists>v. unat v = 5000
     \<and> unstake_initiated_row demo_substrate [''STAKER'' \<mapsto> ValueBytes demo_address] demo_system_state =
         substrate (sk_unbond demo_substrate (eth_account demo_address) v) demo_system_state"
proof -
  have "Substrate demo_system_state = (\<lambda>_. 5000)"
    by (simp add: demo_system_state_def system_tables_state.defs tables_state.defs)
  then show ?thesis
    using unstake_bounded[of "[''STAKER'' \<mapsto> ValueBytes demo_address]" demo_address demo_substrate demo_system_state]
    by (auto simp: demo_address_def demo_substrate_def)
qed

section \<open>Rows of a request\<close>

text \<open>The values a table has for a field of a template, if the column is there with its type.\<close>

definition field_values :: "(bytes \<Rightarrow> bytes) \<Rightarrow> on_chain_table \<Rightarrow> bytes \<times> system_field_type \<Rightarrow> system_field_value list option" where
  "field_values uc t x = map_option sf_values (parse_field uc t (system_table_field_from x))"

lemma parse_field_name: "parse_field uc t f = Some f' \<Longrightarrow> sf_name f' = sf_name f"
  by (cases f') (simp add: map_option_eq_Some)

lemma field_values_length:
  assumes "table_wf uc t" "table_num_rows t = (Ok n :: (_, unit) result)" "field_values uc t x = Some vs"
  shows "length vs = n"
proof -
  have n: "col_len (snd (hd t)) = n" using assms(2) by (cases t) (auto simp: table_num_rows_def)
  have len: "col_len c = n" if "get_column t i = Some c" for i c
    using bspec[OF assms(1)[unfolded table_wf_def, THEN conjunct2, THEN conjunct2] map_of_SomeD[OF that[unfolded get_column_def]]] n
    by simp
  obtain nam ty where x: "x = (nam, ty)" by (cases x)
  obtain c where c: "get_column t (ident_new (uc nam)) = Some c"
    and vs: "case (c, ty) of (VarChar ws, FieldVarchar) \<Rightarrow> vs = map ValueVarchar ws
      | (VarBinary ws, FieldBytes) \<Rightarrow> vs = map ValueBytes ws | (Decimal75 _ _ ws, FieldDecimal) \<Rightarrow> vs = map ValueDecimal ws
      | _ \<Rightarrow> False"
    using assms(3) unfolding x
    by (cases ty) (auto simp: field_values_def system_table_field_from_def get_varchars_by_column_def
        get_bytes_by_column_def get_decimal_by_column_def split: option.splits on_chain_column.splits)
  from len[OF c] vs show ?thesis
    by (auto split: on_chain_column.splits system_field_type.splits)
qed

lemma fold_min_const: "(\<forall>x \<in> set xs. x = n) \<Longrightarrow> fold min xs n = (n::nat)"
  by (induction xs) auto

lemma map_of_parsed_fields:
  assumes "distinct (map fst xs)"
  shows "map_of (map (\<lambda>f. (sf_name f, g (sf_values f))) (List.map_filter (parse_field uc t) (map system_table_field_from xs))) nam =
     (case map_of xs nam of None \<Rightarrow> None | Some ty \<Rightarrow> map_option g (field_values uc t (nam, ty)))"
  using assms
proof (induction xs)
  case (Cons x xs)
  obtain n ty where x: "x = (n, ty)" by (cases x)
  have "map_of xs n = None" using Cons.prems by (simp add: x map_of_eq_None_iff)
  moreover have "sf_name f = n" if "parse_field uc t (system_table_field_from (n, ty)) = Some f" for f
    using parse_field_name[OF that] by (simp add: system_table_field_from_def)
  ultimately show ?case
    using Cons by (auto simp: x map_filter_simps field_values_def simp del: parse_field.simps split: option.split)
qed (simp add: map_filter_simps)

lemma template_fields_distinct: "distinct (map fst (template_fields ty))"
  by (simp add: template_fields_def split: system_request_type.split staking_system_request.split)

lemma request_rows_uniform:
  assumes "\<forall>f \<in> set (sr_fields r). length (sf_values f) = n" "distinct (map sf_name (sr_fields r))"
  shows "request_rows r = (if sr_fields r = [] then [] else
     map (\<lambda>i. map_of (map (\<lambda>f. (sf_name f, sf_values f ! i)) (sr_fields r))) [0..<n])"
proof (cases "sr_fields r")
  case (Cons f fs)
  have "map_of (rev xs) = map_of xs" if "distinct (map fst xs)" for xs :: "(bytes \<times> system_field_value) list"
    using that by (simp add: map_of_inject_set rev_map[symmetric])
  then have "map_of (rev (map (\<lambda>f. (sf_name f, sf_values f ! i)) (sr_fields r))) =
      map_of (map (\<lambda>f. (sf_name f, sf_values f ! i)) (sr_fields r))" for i
    using assms(2) by (simp add: comp_def)
  moreover have "min_list_option (map (\<lambda>f. length (sf_values f)) (sr_fields r)) = Some n"
    using assms(1) by (simp add: Cons fold_min_const)
  ultimately show ?thesis by (simp add: request_rows_def Cons)
qed (simp add: request_rows_def)

lemma parsed_fields:
  assumes dist: "distinct (map fst xs)"
    and fs: "fs = List.map_filter (parse_field uc t) (map system_table_field_from xs)"
  shows "distinct (map sf_name fs)" "set (map sf_name fs) \<subseteq> set (map fst xs)"
    "\<And>f. f \<in> set fs \<Longrightarrow> \<exists>x \<in> set xs. field_values uc t x = Some (sf_values f)"
    "fs \<noteq> [] \<longleftrightarrow> list_ex (\<lambda>x. field_values uc t x \<noteq> None) xs"
proof -
  have name: "parse_field uc t (system_table_field_from x) = Some f \<Longrightarrow> sf_name f = fst x" for x f
    using parse_field_name[of uc t "system_table_field_from x" f] by (simp add: system_table_field_from_def del: parse_field.simps)
  show sub: "set (map sf_name fs) \<subseteq> set (map fst xs)"
    unfolding fs by (auto simp: map_filter_def name image_iff simp del: parse_field.simps) force
  show "distinct (map sf_name fs)"
    using dist unfolding fs
    by (induction xs) (auto simp: map_filter_simps name map_filter_def simp del: parse_field.simps split: option.split, force)
  show "\<exists>x \<in> set xs. field_values uc t x = Some (sf_values f)" if "f \<in> set fs" for f
    using that unfolding fs by (fastforce simp: map_filter_def field_values_def simp del: parse_field.simps)
  show "fs \<noteq> [] \<longleftrightarrow> list_ex (\<lambda>x. field_values uc t x \<noteq> None) xs"
    unfolding fs by (auto simp: map_filter_def field_values_def list_ex_iff filter_empty_conv simp del: parse_field.simps)
qed

lemma table_to_request_rows:
  assumes "unicode_upper uc" "table_wf uc t" "table_num_rows t = (Ok n :: (_, unit) result)" "request_type_of ident = Some ty"
  shows "\<exists>req. table_to_request uc t ident = (Ok (Some req) :: (_, dispatch_error) result) \<and> sr_request_type req = ty
     \<and> length (request_rows req) = (if list_ex (\<lambda>x. field_values uc t x \<noteq> None) (template_fields ty) then n else 0)
     \<and> (\<forall>i < length (request_rows req). \<forall>nam. (request_rows req ! i) nam =
          (case map_of (template_fields ty) nam of None \<Rightarrow> None
           | Some fty \<Rightarrow> map_option (\<lambda>vs. vs ! i) (field_values uc t (nam, fty))))"
proof -
  define req where "req = parse_request_with_template uc t
    \<lparr>sr_request_type = ty, sr_fields = map system_table_field_from (template_fields ty), sr_table_id = ident\<rparr>"
  have fs: "sr_fields req = List.map_filter (parse_field uc t) (map system_table_field_from (template_fields ty))"
    and ty: "sr_request_type req = ty"
    by (simp_all add: req_def parse_request_with_template_def)
  note p = parsed_fields[OF template_fields_distinct fs]
  have "\<forall>f \<in> set (sr_fields req). length (sf_values f) = n"
    using p(3) field_values_length[OF assms(2,3)] by blast
  from request_rows_uniform[OF this p(1)]
  have rows: "request_rows req = (if sr_fields req = [] then [] else
      map (\<lambda>i. map_of (map (\<lambda>f. (sf_name f, sf_values f ! i)) (sr_fields req))) [0..<n])" .
  have row: "map_of (map (\<lambda>f. (sf_name f, sf_values f ! i)) (sr_fields req)) nam =
      (case map_of (template_fields ty) nam of None \<Rightarrow> None
       | Some fty \<Rightarrow> map_option (\<lambda>vs. vs ! i) (field_values uc t (nam, fty)))" for i nam
    unfolding fs by (rule map_of_parsed_fields[OF template_fields_distinct, where g = "\<lambda>vs. vs ! i"])
  have len: "length (request_rows req) = (if list_ex (\<lambda>x. field_values uc t x \<noteq> None) (template_fields ty) then n else 0)"
    by (cases "sr_fields req = []") (use p(4) in \<open>simp_all add: rows\<close>)
  have "(request_rows req ! i) nam = (case map_of (template_fields ty) nam of None \<Rightarrow> None
      | Some fty \<Rightarrow> map_option (\<lambda>vs. vs ! i) (field_values uc t (nam, fty)))" if "i < length (request_rows req)" for i nam
    unfolding row[symmetric] using that by (simp add: rows split: if_splits)
  moreover have "table_to_request uc t ident = (Ok (Some req) :: (_, dispatch_error) result)"
    by (simp add: table_to_request_Ok[OF assms(1)] assms(4) req_def)
  ultimately show ?thesis using ty len by blast
qed

text \<open>
  A table inserted into a staking table becomes a request of that table's type with one row
  per row of the table, in order, and a row maps each field of the template to the table's
  value in that row. A column that is missing or has another type is missing in every row,
  and if all are, there are no rows.
\<close>

theorem request_rows_correct:
  assumes "unicode_upper uc" "table_wf uc t" "table_num_rows t = (Ok n :: (_, unit) result)" "request_type_of ident = Some ty"
  shows "\<exists>req. table_to_request uc t ident = (Ok (Some req) :: (_, dispatch_error) result) \<and> sr_request_type req = ty
     \<and> length (request_rows req) = (if list_ex (\<lambda>x. field_values uc t x \<noteq> None) (template_fields ty) then n else 0)
     \<and> (\<forall>i < length (request_rows req). \<forall>nam. (request_rows req ! i) nam =
          (case map_of (template_fields ty) nam of None \<Rightarrow> None
           | Some fty \<Rightarrow> map_option (\<lambda>vs. vs ! i) (field_values uc t (nam, fty))))"
  using assms by (rule table_to_request_rows)

lemma request_size_le:
  assumes "unicode_upper uc" "table_wf uc t" "table_num_rows t = (Ok n :: (_, unit) result)"
  shows "request_size uc t ident \<le> n"
proof (cases "request_type_of ident")
  case None
  then show ?thesis by (simp add: request_size_def table_to_request_Ok[OF assms(1)])
next
  case (Some ty)
  obtain req where "table_to_request uc t ident = (Ok (Some req) :: (_, dispatch_error) result)" "length (request_rows req) \<le> n"
    using table_to_request_rows[OF assms Some] by auto
  then show ?thesis by (auto simp: request_size_def table_to_request_Ok[OF assms(1)])
qed

theorem request_rows_correct_witness:
  "\<exists>req. table_to_request to_ascii_uppercase [(ident_new ''STAKER'', VarBinary [demo_address, ''b''])] (staking_table ''STAKED'') =
       (Ok (Some req) :: (_, dispatch_error) result)
     \<and> length (request_rows req) = 2
     \<and> (request_rows req ! 1) ''STAKER'' = Some (ValueBytes ''b'') \<and> (request_rows req ! 1) ''AMOUNT'' = None"
proof -
  let ?t = "[(ident_new ''STAKER'', VarBinary [demo_address, ''b''])]"
  have uc: "to_ascii_uppercase ''STAKER'' = ''STAKER''" "to_ascii_uppercase ''AMOUNT'' = ''AMOUNT''" by code_simp+
  have vals: "field_values to_ascii_uppercase ?t (''STAKER'', FieldBytes) = Some [ValueBytes demo_address, ValueBytes ''b'']"
    "field_values to_ascii_uppercase ?t (''AMOUNT'', FieldDecimal) = None"
    by (simp_all add: field_values_def system_table_field_from_def get_bytes_by_column_def get_decimal_by_column_def
        get_column_def uc ident_new_def)
  have "''STAKER'' \<in> range to_ascii_uppercase" using uc(1) by (metis rangeI)
  then have "table_wf to_ascii_uppercase ?t" by (simp add: table_wf_def ident_new_def)
  moreover have "table_num_rows ?t = (Ok 2 :: (_, unit) result)" by (simp add: table_num_rows_def)
  moreover have "request_type_of (staking_table ''STAKED'') = Some (Staking Stake)"
    by (simp add: request_type_of_def staking_table_def)
  ultimately show ?thesis
    using request_rows_correct[OF unicode_upper_ascii, of ?t 2 "staking_table ''STAKED''" "Staking Stake"]
    by (auto simp: template_fields_def vals)
qed

end
