(* ===== verification/Pallet_Indexing.thy ===== *)
theory Pallet_Indexing
  imports Pallet_System_Tables
begin

text \<open>
  \<open>pallets/indexing\<close>: indexers submit data for a batch; when more submitters than the quorum size
  of the table have submitted the same data in one scope, the batch is decided: its data is
  converted, inserted into the table's commitments and announced, and an insert into a
  staking table is acted on.

  The hash of the submitted data together with its block number is a parameter \<open>hash\<close>.
\<close>

section \<open>State\<close>

record 'x indexing_state = "'x system_tables_state" +
  Submissions :: "(batch_id, bytes, account_id submitters_by_scope) storage_double_map"
  FinalData :: "(batch_id, data_quorum) storage_map"
  BlockNumbers :: "(table_identifier, u64) storage_map"

section \<open>Operations\<close>

fun indexing_error_from_native :: "native_error \<Rightarrow> indexing_error" where
  "indexing_error_from_native NEDeserializationError = NativeDeserializationError"
| "indexing_error_from_native NEEmptyRecordBatchError = NativeEmptyRecordBatchError"
| "indexing_error_from_native NEBatchReadError = NativeBatchReadError"
| "indexing_error_from_native NERecordBatchUnsupportedType = NativeRecordBatchUnsupportedType"
| "indexing_error_from_native NERecordBatchContainsNulls = NativeRecordBatchContainsNulls"
| "indexing_error_from_native NERecordBatchInvalidTimezone = NativeRecordBatchInvalidTimezone"
| "indexing_error_from_native NERecordBatchUnexpectedSchemaDataMismatch = NativeRecordBatchUnexpectedSchemaDataMismatch"
| "indexing_error_from_native NERecordBatchDuplicateIdentifiers = NativeRecordBatchDuplicateIdentifiers"
| "indexing_error_from_native NESerializationError = NativeSerializationError"

definition validate_submission ::
    "table_identifier \<Rightarrow> batch_id \<Rightarrow> row_data \<Rightarrow> ('x, 'a) indexing_state_scheme \<Rightarrow> unit dispatch_result" where
  "validate_submission table batch_id data s =
     (if sm_contains (FinalData s) batch_id then Err (IndexingError LateBatch)
      else bind_res (ensure (\<not> (ti_namespace table = [] \<or> ti_name table = [])) (IndexingError InvalidTable)) (\<lambda>_.
      bind_res (ensure (data \<noteq> []) (IndexingError NoData)) (\<lambda>_.
      bind_res (ensure (batch_id \<noteq> []) (IndexingError InvalidBatch)) (\<lambda>_.
      ensure (sm_contains (Schemas s) (ti_namespace table, ti_name table)) (IndexingError InvalidTable)))))"

definition dissenters ::
    "batch_id \<Rightarrow> bytes \<Rightarrow> quorum_scope \<Rightarrow> ('x, 'a) indexing_state_scheme \<Rightarrow> account_id list" where
  "dissenters batch_id data_hash quorum_scope s =
     take MAX_SUBMITTERS (bt_collect (concat (map (\<lambda>(_, submitters). iter_scope submitters quorum_scope)
       (filter (\<lambda>(hash, _). hash \<noteq> data_hash) (sdm_iter_prefix (Submissions s) batch_id)))))"

definition submit_data_and_find_quorum ::
    "account_id \<Rightarrow> batch_id \<Rightarrow> bytes \<Rightarrow> table_identifier \<Rightarrow> insert_quorum_size \<Rightarrow> quorum_scope
     \<Rightarrow> ('x, 'a) indexing_state_scheme \<Rightarrow> (('x, 'a) indexing_state_scheme \<times> data_quorum option) dispatch_result" where
  "submit_data_and_find_quorum who batch_id data_hash table table_insert_quorum quorum_scope s =
     (let match_submissions = sm_get_or submitters_default (Submissions s) (batch_id, data_hash);
          current_num_matching_submissions = len_of_scope match_submissions quorum_scope;
          new_match_submissions = (case with_submitter match_submissions who quorum_scope of
            Ok submitters \<Rightarrow> submitters | Err (submitters, _) \<Rightarrow> submitters | Panic \<Rightarrow> match_submissions)
      in if len_of_scope new_match_submissions quorum_scope = current_num_matching_submissions
         then Err (IndexingError AlreadySubmitted)
         else let
           s = s\<lparr>Submissions := sm_insert (batch_id, data_hash) new_match_submissions (Submissions s)\<rparr>;
           submission = \<lparr>ds_table = table, ds_batch_id = batch_id, ds_data_hash = data_hash, ds_quorum_scope = quorum_scope\<rparr>;
           s = deposit_event (DataSubmitted who submission) s
         in (case iqs_of_scope table_insert_quorum quorum_scope of
              Some quorum_size \<Rightarrow>
                if (word_of_nat (len_of_scope new_match_submissions quorum_scope) :: u8) > quorum_size
                then Ok (s, Some \<lparr>dq_table = table, dq_batch_id = batch_id, dq_data_hash = data_hash,
                       dq_block_number = ucast (block_number s),
                       dq_agreements = sbs_of_scope new_match_submissions quorum_scope,
                       dq_dissents = dissenters batch_id data_hash quorum_scope s,
                       dq_quorum_scope = quorum_scope\<rparr>)
                else Ok (s, None)
            | None \<Rightarrow> Ok (s, None)))"

text \<open>\<open>v.try_into().ok()\<close> from \<open>i64\<close> to \<open>u64\<close>: negative numbers are dropped.\<close>

definition i64_to_u64 :: "i64 \<Rightarrow> u64 option" where
  "i64_to_u64 v = (if sint v < 0 then None else Some v)"

text \<open>The end of \<open>finalize_quorum\<close>: block number, event, staking tables.\<close>

definition announce_quorum ::
    "('h, 'uh, 'sh, 'd, 'ud, 'sd) sxt_ext \<Rightarrow> 'x substrate_ext \<Rightarrow> data_quorum \<Rightarrow> u64 option \<Rightarrow> on_chain_table \<Rightarrow> bytes
     \<Rightarrow> ('x, 'a) indexing_state_scheme \<Rightarrow> ('x, 'a) indexing_state_scheme dispatch_result" where
  "announce_quorum E S quorum bn oc_table on_chain_table_bytes s =
     (let s = (case (case bn of Some b \<Rightarrow> Some b | None \<Rightarrow> Option.bind (max_block_number oc_table) i64_to_u64) of
                Some b \<Rightarrow> s\<lparr>BlockNumbers := sm_insert (dq_table quorum) b (BlockNumbers s)\<rparr>
              | None \<Rightarrow> s) in
     bind_res (table_num_rows oc_table) (\<lambda>num_rows.
     let s = (if num_rows = 0
              then deposit_event (QuorumEmptyBlock (dq_table quorum) (case bn of Some b \<Rightarrow> b | None \<Rightarrow> 0)
                (dq_agreements quorum) (dq_dissents quorum)) s
              else deposit_event (QuorumReached quorum on_chain_table_bytes) s) in
     if is_staking_table (dq_table quorum)
     then (case process_system_table (ex_uc E) S (dq_table quorum) oc_table s of
             Err e \<Rightarrow> Ok (deposit_event (SystemTableError (dq_table quorum) e on_chain_table_bytes) s)
           | Ok s' \<Rightarrow> Ok (deposit_event (SystemTableUpdate (dq_table quorum) on_chain_table_bytes) s')
           | Panic \<Rightarrow> Panic)
     else Ok s))"

definition finalize_quorum ::
    "('h, 'uh, 'sh, 'd, 'ud, 'sd) sxt_ext \<Rightarrow> 'x substrate_ext \<Rightarrow> data_quorum \<Rightarrow> row_data \<Rightarrow> u64 option
     \<Rightarrow> ('x, 'a) indexing_state_scheme \<Rightarrow> ('x, 'a) indexing_state_scheme dispatch_result" where
  "finalize_quorum E S quorum row_data bn s =
     (let s = s\<lparr>Submissions := fold (\<lambda>key m. sm_remove (dq_batch_id quorum, key) m)
            (sdm_iter_key_prefix (Submissions s) (dq_batch_id quorum)) (Submissions s)\<rparr>;
          s = s\<lparr>FinalData := sm_insert (dq_batch_id quorum) quorum (FinalData s)\<rparr> in
     bind_res (map_err (\<lambda>e. IndexingError (indexing_error_from_native e)) (record_batch_to_onchain E row_data)) (\<lambda>table_bytes.
     bind_res (map_err (\<lambda>_. IndexingError TableDeserializationError) (on_chain_table_from_bytes E table_bytes)) (\<lambda>oc_table.
     bind_res (map_err CommitmentsError (process_insert_and_update_commitments E (dq_table quorum) oc_table s)) (\<lambda>(s, m).
     bind_res (ok_or (ex_table_encode E (icm_insert_with_meta_columns m)) (IndexingError TableSerializationError)) (\<lambda>bytes.
     bind_res (bounded_try_from DATA_MAX_LEN bytes (IndexingError TableSerializationError)) (\<lambda>on_chain_table_bytes.
     announce_quorum E S quorum bn oc_table on_chain_table_bytes s))))))"

definition submit_data_inner ::
    "('h, 'uh, 'sh, 'd, 'ud, 'sd) sxt_ext \<Rightarrow> 'x substrate_ext \<Rightarrow> (row_data \<Rightarrow> u64 option \<Rightarrow> bytes) \<Rightarrow> origin
     \<Rightarrow> table_identifier \<Rightarrow> batch_id \<Rightarrow> row_data \<Rightarrow> u64 option
     \<Rightarrow> ('x, 'a) indexing_state_scheme \<Rightarrow> ('x, 'a) indexing_state_scheme dispatch_result" where
  "submit_data_inner E S hash orig table batch_id data bn s =
     bind_res (ensure_signed orig) (\<lambda>who.
     let table_insert_quorum = sm_get_or insert_quorum_size_default (TableInsertQuorums s) table;
         can_submit_for_public_quorum =
           (is_ok (ensure_root_or_permissioned s orig (IndexingPallet SubmitDataForPublicQuorum))
            \<and> iqs_public table_insert_quorum \<noteq> None);
         can_submit_for_privileged_quorum =
           (is_ok (ensure_root_or_permissioned s orig (IndexingPallet (SubmitDataForPrivilegedQuorum table)))
            \<and> iqs_privileged table_insert_quorum \<noteq> None) in
     bind_res (ensure (can_submit_for_public_quorum \<or> can_submit_for_privileged_quorum)
       (IndexingError UnauthorizedSubmitter)) (\<lambda>_.
     bind_res (validate_submission table batch_id data s) (\<lambda>_.
     let data_hash = hash data bn in
     bind_res (if can_submit_for_public_quorum
       then submit_data_and_find_quorum who batch_id data_hash table table_insert_quorum Public s
       else Ok (s, None)) (\<lambda>(s, public_data_quorum).
     bind_res (if can_submit_for_privileged_quorum
       then submit_data_and_find_quorum who batch_id data_hash table table_insert_quorum Privileged s
       else Ok (s, None)) (\<lambda>(s, privileged_data_quorum).
     case (case public_data_quorum of Some q \<Rightarrow> Some q | None \<Rightarrow> privileged_data_quorum) of
       Some data_quorum \<Rightarrow> finalize_quorum E S data_quorum data bn s
     | None \<Rightarrow> Ok s)))))"

definition submit_data ::
    "('h, 'uh, 'sh, 'd, 'ud, 'sd) sxt_ext \<Rightarrow> 'x substrate_ext \<Rightarrow> (row_data \<Rightarrow> u64 option \<Rightarrow> bytes) \<Rightarrow> origin
     \<Rightarrow> table_identifier \<Rightarrow> batch_id \<Rightarrow> row_data
     \<Rightarrow> ('x, 'a) indexing_state_scheme \<Rightarrow> ('x, 'a) indexing_state_scheme dispatch_result" where
  "submit_data E S hash orig table batch_id data s = submit_data_inner E S hash orig table batch_id data None s"

definition submit_blockchain_data ::
    "('h, 'uh, 'sh, 'd, 'ud, 'sd) sxt_ext \<Rightarrow> 'x substrate_ext \<Rightarrow> (row_data \<Rightarrow> u64 option \<Rightarrow> bytes) \<Rightarrow> origin
     \<Rightarrow> table_identifier \<Rightarrow> batch_id \<Rightarrow> row_data \<Rightarrow> u64
     \<Rightarrow> ('x, 'a) indexing_state_scheme \<Rightarrow> ('x, 'a) indexing_state_scheme dispatch_result" where
  "submit_blockchain_data E S hash orig table batch_id data bn s =
     submit_data_inner E S hash orig table batch_id data (Some bn) s"

datatype indexing_call =
    SubmitData table_identifier batch_id row_data
  | SubmitBlockchainData table_identifier batch_id row_data u64

fun indexing_dispatch ::
    "('h, 'uh, 'sh, 'd, 'ud, 'sd) sxt_ext \<Rightarrow> 'x substrate_ext \<Rightarrow> (row_data \<Rightarrow> u64 option \<Rightarrow> bytes) \<Rightarrow> indexing_call
     \<Rightarrow> origin \<Rightarrow> ('x, 'a) indexing_state_scheme \<Rightarrow> ('x, 'a) indexing_state_scheme dispatch_result" where
  "indexing_dispatch E S hash (SubmitData table batch_id data) orig s = submit_data E S hash orig table batch_id data s"
| "indexing_dispatch E S hash (SubmitBlockchainData table batch_id data bn) orig s =
     submit_blockchain_data E S hash orig table batch_id data bn s"

section \<open>Effects of the operations\<close>

lemma word_of_nat_u8_less: "n < 256 \<Longrightarrow> q < (word_of_nat n :: u8) \<longleftrightarrow> unat q < n"
  by (simp add: word_less_nat_alt unat_of_nat)

text \<open>The submitters recorded for some data of a batch in a scope.\<close>

definition submitters :: "('x, 'a) indexing_state_scheme \<Rightarrow> batch_id \<Rightarrow> bytes \<Rightarrow> quorum_scope \<Rightarrow> account_id list" where
  "submitters s b h q = sbs_of_scope (sm_get_or submitters_default (Submissions s) (b, h)) q"

definition submission_event :: "account_id \<Rightarrow> table_identifier \<Rightarrow> batch_id \<Rightarrow> bytes \<Rightarrow> quorum_scope \<Rightarrow> runtime_event" where
  "submission_event who table b h q =
     DataSubmitted who \<lparr>ds_table = table, ds_batch_id = b, ds_data_hash = h, ds_quorum_scope = q\<rparr>"

lemma with_submitter_member:
  assumes "bt_set (sbs_of_scope m q)" "with_submitter m who q = Ok sub"
  shows "len_of_scope sub q = (if who \<in> set (sbs_of_scope m q) then len_of_scope m q else Suc (len_of_scope m q))"
  using assms
  by (cases q) (auto simp: res_Ok_iff bounded_set_try_insert_def bt_insert_member length_bt_insert_new split: if_splits)

lemma submit_data_and_find_quorum_Ok:
  assumes run: "submit_data_and_find_quorum who b h table tq q s = Ok (s', r)"
    and wf: "submitters_wf (sm_get_or submitters_default (Submissions s) (b, h))"
  obtains sub where "with_submitter (sm_get_or submitters_default (Submissions s) (b, h)) who q = Ok sub"
    "who \<notin> set (submitters s b h q)"
    "s' = deposit_event (submission_event who table b h q) (s\<lparr>Submissions := sm_insert (b, h) sub (Submissions s)\<rparr>)"
    "r = (case iqs_of_scope tq q of None \<Rightarrow> None | Some n \<Rightarrow>
       if unat n < length (sbs_of_scope sub q)
       then Some \<lparr>dq_table = table, dq_batch_id = b, dq_data_hash = h, dq_block_number = ucast (block_number s),
         dq_agreements = sbs_of_scope sub q, dq_dissents = dissenters b h q s', dq_quorum_scope = q\<rparr>
       else None)"
proof -
  let ?m = "sm_get_or submitters_default (Submissions s) (b, h)"
  obtain sub where sub: "with_submitter ?m who q = Ok sub"
  proof (cases "with_submitter ?m who q")
    case (Err e)
    obtain m x where e: "e = (m, x)" by (cases e)
    with Err have "m = ?m" using with_submitter_Err by blast
    with run Err e show ?thesis by (simp add: submit_data_and_find_quorum_def)
  qed (use with_submitter_not_Panic in auto)
  have set: "bt_set (submitters s b h q)"
    using submitters_wf_of_scope[OF wf, of q] by (simp add: submitters_def submitter_list_wf_def)
  have new: "len_of_scope sub q \<noteq> len_of_scope ?m q"
    using run by (auto simp: submit_data_and_find_quorum_def sub)
  then have who: "who \<notin> set (submitters s b h q)"
    using with_submitter_member[OF set[unfolded submitters_def] sub] by (auto simp: submitters_def)
  have "length (sbs_of_scope sub q) \<le> MAX_SUBMITTERS"
    using submitters_wf_of_scope[OF with_submitter_wf[OF wf sub], of q] by (simp add: submitter_list_wf_def)
  then have len: "length (sbs_of_scope sub q) < 256" by (simp add: MAX_SUBMITTERS_def)
  show ?thesis
    by (rule that[OF sub who])
      (use run new in \<open>auto simp: submit_data_and_find_quorum_def sub Let_def submission_event_def len_of_scope_length
        word_of_nat_u8_less[OF len] split: option.splits if_splits\<close>)
qed

text \<open>Deciding a batch: what \<open>finalize_quorum\<close> writes first.\<close>

definition finalized :: "data_quorum \<Rightarrow> ('x, 'a) indexing_state_scheme \<Rightarrow> ('x, 'a) indexing_state_scheme" where
  "finalized dq s = s\<lparr>Submissions := fold (\<lambda>key m. sm_remove (dq_batch_id dq, key) m)
       (sdm_iter_key_prefix (Submissions s) (dq_batch_id dq)) (Submissions s),
     FinalData := sm_insert (dq_batch_id dq) dq (FinalData s)\<rparr>"

lemma finalized_submissions:
  "sm_get (Submissions (finalized dq s)) (b, h) = (if b = dq_batch_id dq then None else sm_get (Submissions s) (b, h))"
proof (cases "h \<in> set (sdm_iter_key_prefix (Submissions s) (dq_batch_id dq))")
  case False
  then have "sm_get (Submissions s) (dq_batch_id dq, h) = None"
    by (simp add: set_sdm_iter_key_prefix sm_contains_def)
  with False show ?thesis by (simp add: finalized_def sm_get_fold_remove)
qed (simp add: finalized_def sm_get_fold_remove)

lemma process_insert_frame:
  "process_insert_and_update_commitments E table t s = Ok (s', m) \<Longrightarrow> \<exists>c. s' = s\<lparr>CommitmentStorageMap := c\<rparr>"
  by (auto simp: process_insert_and_update_commitments_def Let_def res_Ok_iff split: prod.splits)

text \<open>The rest of the storage of the pallets below.\<close>

abbreviation kept_storage :: "('x, 'a) indexing_state_scheme \<Rightarrow> _" where
  "kept_storage s \<equiv>
     ((block_number s, Permissions s, Keys s, AttestationKeys s, Attestations s, LastForwardedBlock s, DefaultCommitmentSchemes s),
      (ColumnVersions s, NamespaceVersions s, TableVersions s, Identifiers s, Schemas s, Snapshots s, TableInsertQuorums s,
       TableSources s), indexing_state.more s)"

lemma user_nonce_frame [simp]:
  "user_nonce (s\<lparr>Submissions := a\<rparr>) = user_nonce s" "user_nonce (s\<lparr>events := ev\<rparr>) = user_nonce s"
  by (simp_all add: user_nonce_def fun_eq_iff)

definition announced :: "('x, 'a) indexing_state_scheme \<Rightarrow> ('x, 'a) indexing_state_scheme \<Rightarrow> bool" where
  "announced s s' \<longleftrightarrow> Submissions s' = Submissions s \<and> FinalData s' = FinalData s
     \<and> kept_storage s' = kept_storage s
     \<and> CommitmentStorageMap s' = CommitmentStorageMap s \<and> (\<exists>ev. events s' = events s @ ev)
     \<and> (\<forall>a. user_nonce s a \<le> user_nonce s' a)"

lemma announced_simps [simp]:
  "announced s s" "announced s (deposit_event e s)" "announced s (s\<lparr>BlockNumbers := n\<rparr>)"
  by (simp_all add: announced_def deposit_event_def user_nonce_def)

lemma announced_trans: "announced s s1 \<Longrightarrow> announced s1 s2 \<Longrightarrow> announced s s2"
  by (auto simp: announced_def intro: order_trans)

lemma announced_sys_step: "sys_step k s s' \<Longrightarrow> announced s s'"
  by (auto simp: announced_def sys_step_def)

lemma announce_quorum_eq:
  assumes n: "table_num_rows t = (Ok n :: _ dispatch_result)"
  obtains s1 where "announced s s1" "user_nonce s1 = user_nonce s"
    "announce_quorum E S dq bn t bytes s = (if is_staking_table (dq_table dq)
      then (case process_system_table (ex_uc E) S (dq_table dq) t s1 of
             Err e \<Rightarrow> Ok (deposit_event (SystemTableError (dq_table dq) e bytes) s1)
           | Ok s' \<Rightarrow> Ok (deposit_event (SystemTableUpdate (dq_table dq) bytes) s')
           | Panic \<Rightarrow> Panic)
      else Ok s1)"
proof -
  define s0 where "s0 = (case (case bn of Some b \<Rightarrow> Some b | None \<Rightarrow> Option.bind (max_block_number t) i64_to_u64) of
      Some b \<Rightarrow> s\<lparr>BlockNumbers := sm_insert (dq_table dq) b (BlockNumbers s)\<rparr> | None \<Rightarrow> s)"
  define s1 where "s1 = (if n = 0
      then deposit_event (QuorumEmptyBlock (dq_table dq) (case bn of Some b \<Rightarrow> b | None \<Rightarrow> 0) (dq_agreements dq) (dq_dissents dq)) s0
      else deposit_event (QuorumReached dq bytes) s0)"
  have s0: "announced s s0" by (simp add: s0_def split: option.split)
  have n0: "user_nonce s0 = user_nonce s" by (simp add: s0_def user_nonce_def fun_eq_iff split: option.split)
  have "announced s s1" unfolding s1_def by (cases "n = 0") (auto intro: announced_trans[OF s0])
  moreover have "user_nonce s1 = user_nonce s0"
    unfolding s1_def by (cases "n = 0") (simp_all add: user_nonce_def fun_eq_iff deposit_event_def)
  then have "user_nonce s1 = user_nonce s" using n0 by simp
  moreover have "announce_quorum E S dq bn t bytes s = (if is_staking_table (dq_table dq)
      then (case process_system_table (ex_uc E) S (dq_table dq) t s1 of
             Err e \<Rightarrow> Ok (deposit_event (SystemTableError (dq_table dq) e bytes) s1)
           | Ok s' \<Rightarrow> Ok (deposit_event (SystemTableUpdate (dq_table dq) bytes) s')
           | Panic \<Rightarrow> Panic)
      else Ok s1)"
    unfolding announce_quorum_def Let_def n bind_res_simps s0_def[symmetric] s1_def[symmetric] ..
  ultimately show ?thesis by (rule that)
qed

lemma announce_quorum_announced:
  assumes "announce_quorum E S dq bn t bytes s = Ok s'"
  shows "announced s s'"
proof -
  obtain n where n: "table_num_rows t = (Ok n :: _ dispatch_result)"
    using assms by (auto simp: announce_quorum_def Let_def res_Ok_iff)
  obtain s1 where s1: "announced s s1" and run: "announce_quorum E S dq bn t bytes s = (if is_staking_table (dq_table dq)
      then (case process_system_table (ex_uc E) S (dq_table dq) t s1 of
             Err e \<Rightarrow> Ok (deposit_event (SystemTableError (dq_table dq) e bytes) s1)
           | Ok s' \<Rightarrow> Ok (deposit_event (SystemTableUpdate (dq_table dq) bytes) s')
           | Panic \<Rightarrow> Panic)
      else Ok s1)"
    by (rule announce_quorum_eq[OF n])
  have "announced s1 s'"
  proof (cases "is_staking_table (dq_table dq)")
    case True
    then obtain s2 where "process_system_table (ex_uc E) S (dq_table dq) t s1 = Ok s2"
      "s' = deposit_event (SystemTableUpdate (dq_table dq) bytes) s2"
      using run assms by (auto simp: process_system_table_never_Err split: result.splits)
    moreover from this(1) obtain k where "sys_step k s1 s2" using process_system_table_step by blast
    ultimately show ?thesis using announced_trans[OF announced_sys_step announced_simps(2)] by simp
  qed (use run assms in simp)
  with s1 show ?thesis by (rule announced_trans)
qed

lemma finalize_quorum_Ok:
  assumes "finalize_quorum E S dq data bn s = Ok s'"
  obtains tb t s1 m where "record_batch_to_onchain E data = Ok tb" "on_chain_table_from_bytes E tb = Ok t"
    "process_insert_and_update_commitments E (dq_table dq) t (finalized dq s) = Ok (s1, m)" "announced s1 s'"
  using assms
  by (auto simp: finalize_quorum_def Let_def finalized_def res_Ok_iff split: prod.splits dest!: announce_quorum_announced)

section \<open>Invariant\<close>

text \<open>An account is on record as having submitted some data of a batch in a scope.\<close>

definition submitted :: "('x, 'a) indexing_state_scheme \<Rightarrow> account_id \<Rightarrow> batch_id \<Rightarrow> bytes \<Rightarrow> quorum_scope \<Rightarrow> bool" where
  "submitted s who b h q \<longleftrightarrow> (\<exists>table. submission_event who table b h q \<in> set (events s))"

definition quorum_of :: "('x, 'a) indexing_state_scheme \<Rightarrow> table_identifier \<Rightarrow> insert_quorum_size" where
  "quorum_of s table = sm_get_or insert_quorum_size_default (TableInsertQuorums s) table"

text \<open>
  A quorum is on record: its agreements are accounts that submitted the decided data of the batch,
  its dissents accounts that submitted other data. It is large enough for the quorum size of its
  table in a state.
\<close>

definition quorum_recorded :: "('x, 'a) indexing_state_scheme \<Rightarrow> batch_id \<Rightarrow> data_quorum \<Rightarrow> bool" where
  "quorum_recorded s b dq \<longleftrightarrow> dq_batch_id dq = b
     \<and> submitter_list_wf (dq_agreements dq) \<and> submitter_list_wf (dq_dissents dq)
     \<and> (\<forall>who \<in> set (dq_agreements dq). submitted s who b (dq_data_hash dq) (dq_quorum_scope dq))
     \<and> (\<forall>who \<in> set (dq_dissents dq). \<exists>h. h \<noteq> dq_data_hash dq \<and> submitted s who b h (dq_quorum_scope dq))"

definition quorum_size_ok :: "('x, 'a) indexing_state_scheme \<Rightarrow> data_quorum \<Rightarrow> bool" where
  "quorum_size_ok s dq \<longleftrightarrow>
     (\<exists>n. iqs_of_scope (quorum_of s (dq_table dq)) (dq_quorum_scope dq) = Some n \<and> unat n < length (dq_agreements dq))"

text \<open>
  Open batches have well-formed lists of recorded submitters and no decision; decided ones have a
  recorded quorum that satisfies \<open>P\<close>. While quorum sizes stay, \<open>P\<close> is that the quorum is large enough.
\<close>

definition submissions_inv :: "(data_quorum \<Rightarrow> bool) \<Rightarrow> ('x, 'a) indexing_state_scheme \<Rightarrow> bool" where
  "submissions_inv P s \<longleftrightarrow>
     (\<forall>b h sub. sm_get (Submissions s) (b, h) = Some sub \<longrightarrow>
        submitters_wf sub \<and> (\<forall>q. \<forall>who \<in> set (sbs_of_scope sub q). submitted s who b h q)
        \<and> sm_get (FinalData s) b = None)
     \<and> (\<forall>b dq. sm_get (FinalData s) b = Some dq \<longrightarrow> quorum_recorded s b dq \<and> P dq) \<and> sm_wf (Submissions s)"

definition indexing_inv :: "('x, 'a) indexing_state_scheme \<Rightarrow> bool" where
  "indexing_inv s \<longleftrightarrow> submissions_inv (quorum_size_ok s) s"

lemma submitted_mono: "submitted s who b h q \<Longrightarrow> set (events s) \<subseteq> set (events s') \<Longrightarrow> submitted s' who b h q"
  by (auto simp: submitted_def)

lemma quorum_recorded_mono:
  "quorum_recorded s b dq \<Longrightarrow> set (events s) \<subseteq> set (events s') \<Longrightarrow> quorum_recorded s' b dq"
  unfolding quorum_recorded_def using submitted_mono by metis

lemma quorum_size_ok_cong: "TableInsertQuorums s' = TableInsertQuorums s \<Longrightarrow> quorum_size_ok s' = quorum_size_ok s"
  by (simp add: fun_eq_iff quorum_size_ok_def quorum_of_def)

lemma submissions_inv_wf:
  "submissions_inv P s \<Longrightarrow> submitters_wf (sm_get_or submitters_default (Submissions s) (b, h))"
  by (cases "sm_get (Submissions s) (b, h)") (auto simp: submissions_inv_def sm_get_or_def)

lemma submissions_inv_submitters:
  "submissions_inv P s \<Longrightarrow> who \<in> set (submitters s b h q) \<Longrightarrow> submitted s who b h q"
  by (cases "sm_get (Submissions s) (b, h)"; cases q)
    (auto simp: submissions_inv_def submitters_def sm_get_or_def submitters_default_def)

lemma indexing_invD: "indexing_inv s \<Longrightarrow> submissions_inv (quorum_size_ok s) s"
  by (simp add: indexing_inv_def)

lemmas indexing_inv_submissions_wf = submissions_inv_wf[of "quorum_size_ok s" s for s, folded indexing_inv_def]
lemmas indexing_inv_submitters = submissions_inv_submitters[of "quorum_size_ok s" s for s, folded indexing_inv_def]

lemma dissenters_submitted:
  assumes "submissions_inv P s" "who \<in> set (dissenters b h q s)"
  shows "\<exists>h'. h' \<noteq> h \<and> submitted s who b h' q"
proof -
  obtain h' sub where "(h', sub) \<in> set (sdm_iter_prefix (Submissions s) b)" "h' \<noteq> h" "who \<in> set (sbs_of_scope sub q)"
    using set_take_subset assms(2) by (fastforce simp: dissenters_def iter_scope_of_scope)
  moreover have "sm_wf (Submissions s)" using assms(1) by (simp add: submissions_inv_def)
  ultimately show ?thesis using assms(1) by (auto simp: submissions_inv_def set_sdm_iter_prefix)
qed

lemma dissenters_wf: "submitter_list_wf (dissenters b h q s)"
  unfolding submitter_list_wf_def dissenters_def bt_set_def
  using bt_set_collect[unfolded bt_set_def] by (auto intro: sorted_wrt_take)

text \<open>A submission in one scope keeps the invariant, and a quorum it finds is sound.\<close>

lemma record_submission_inv:
  assumes inv: "submissions_inv P s" and final: "sm_get (FinalData s) b = None"
    and sub: "with_submitter (sm_get_or submitters_default (Submissions s) (b, h)) who q = Ok sub"
    and s': "s' = deposit_event (submission_event who table b h q) (s\<lparr>Submissions := sm_insert (b, h) sub (Submissions s)\<rparr>)"
  shows "submissions_inv P s'" "\<And>w p. w \<in> set (sbs_of_scope sub p) \<Longrightarrow> submitted s' w b h p"
proof -
  note wf = submissions_inv_wf[OF inv, of b h]
  have ev: "set (events s) \<subseteq> set (events s')" "submitted s' who b h q"
    by (auto simp: s' deposit_event_def submitted_def)
  show mem: "submitted s' w b h p" if "w \<in> set (sbs_of_scope sub p)" for w p
    using that with_submitter_Ok(1)[OF sub] with_submitter_Ok(2)[OF sub, of p] submissions_inv_submitters[OF inv, of w b h p] ev
    by (cases "p = q") (auto simp: submitters_def intro: submitted_mono)
  show "submissions_inv P s'"
    unfolding submissions_inv_def
  proof (intro conjI allI impI)
    fix b' h' sub' assume g: "sm_get (Submissions s') (b', h') = Some sub'"
    have old: "sm_get (Submissions s) (b', h') = Some sub'" if "(b', h') \<noteq> (b, h)"
      using g that by (auto simp: s' deposit_event_def split: if_splits)
    have new: "sub' = sub" if "(b', h') = (b, h)" using g that by (auto simp: s' deposit_event_def)
    show "submitters_wf sub'"
      using old new with_submitter_wf[OF wf sub] inv by (cases "(b', h') = (b, h)") (auto simp: submissions_inv_def)
    show "\<forall>w \<in> set (sbs_of_scope sub' p). submitted s' w b' h' p" for p
    proof (cases "(b', h') = (b, h)")
      case False
      then show ?thesis using old inv submitted_mono[OF _ ev(1)] by (auto simp: submissions_inv_def)
    qed (use new mem in auto)
    show "sm_get (FinalData s') b' = None"
      using old inv final by (cases "(b', h') = (b, h)") (auto simp: submissions_inv_def s' deposit_event_def)
  next
    fix b' dq assume "sm_get (FinalData s') b' = Some dq"
    then have "quorum_recorded s b' dq" "P dq" using inv by (auto simp: submissions_inv_def s' deposit_event_def)
    then show "quorum_recorded s' b' dq" "P dq" using ev(1) by (auto intro: quorum_recorded_mono)
  next
    show "sm_wf (Submissions s')" using inv by (simp add: submissions_inv_def s' deposit_event_def)
  qed
qed

lemma find_quorum_inv:
  assumes inv: "submissions_inv P s" and final: "sm_get (FinalData s) b = None"
    and run: "submit_data_and_find_quorum who b h table (quorum_of s table) q s = Ok (s', r)"
  shows "submissions_inv P s'" "announced (s\<lparr>Submissions := Submissions s'\<rparr>) s'" "user_nonce s' = user_nonce s"
    "\<And>dq. r = Some dq \<Longrightarrow> quorum_recorded s' b dq \<and> quorum_size_ok s dq \<and> dq_table dq = table"
proof -
  note wf = submissions_inv_wf[OF inv, of b h]
  obtain sub where sub: "with_submitter (sm_get_or submitters_default (Submissions s) (b, h)) who q = Ok sub"
    and s': "s' = deposit_event (submission_event who table b h q) (s\<lparr>Submissions := sm_insert (b, h) sub (Submissions s)\<rparr>)"
    and r: "r = (case iqs_of_scope (quorum_of s table) q of None \<Rightarrow> None | Some n \<Rightarrow>
       if unat n < length (sbs_of_scope sub q)
       then Some \<lparr>dq_table = table, dq_batch_id = b, dq_data_hash = h, dq_block_number = ucast (block_number s),
         dq_agreements = sbs_of_scope sub q, dq_dissents = dissenters b h q s', dq_quorum_scope = q\<rparr>
       else None)"
    by (rule submit_data_and_find_quorum_Ok[OF run wf])
  note rec = record_submission_inv[OF inv final sub s']
  show "submissions_inv P s'" by (rule rec)
  show "announced (s\<lparr>Submissions := Submissions s'\<rparr>) s'" by (simp add: announced_def s' deposit_event_def)
  show "user_nonce s' = user_nonce s" by (simp add: fun_eq_iff user_nonce_def s' deposit_event_def)
  show "quorum_recorded s' b dq \<and> quorum_size_ok s dq \<and> dq_table dq = table" if "r = Some dq" for dq
  proof -
    from that r obtain n where n: "iqs_of_scope (quorum_of s table) q = Some n" "unat n < length (sbs_of_scope sub q)"
      and dq: "dq_table dq = table" "dq_batch_id dq = b" "dq_data_hash dq = h" "dq_agreements dq = sbs_of_scope sub q"
        "dq_dissents dq = dissenters b h q s'" "dq_quorum_scope dq = q"
      by (auto split: option.splits if_splits)
    have "submitter_list_wf (sbs_of_scope sub q)"
      by (rule submitters_wf_of_scope[OF with_submitter_wf[OF wf sub]])
    then show ?thesis
      using n rec(2) dissenters_wf[of b h q s'] dissenters_submitted[OF rec(1)]
      by (simp add: quorum_recorded_def quorum_size_ok_def dq)
  qed
qed

lemma announced_inv:
  assumes "submissions_inv P s" "announced s s'"
  shows "submissions_inv P s'"
proof -
  have ev: "set (events s) \<subseteq> set (events s')"
    and same: "Submissions s' = Submissions s" "FinalData s' = FinalData s"
    using assms(2) by (auto simp: announced_def)
  show ?thesis
    using assms(1) submitted_mono[OF _ ev] quorum_recorded_mono[OF _ ev] unfolding submissions_inv_def same by blast
qed

lemma finalized_inv:
  assumes inv: "submissions_inv P s" and dq: "quorum_recorded s b dq" "P dq"
  shows "submissions_inv P (finalized dq s)"
proof -
  have b: "dq_batch_id dq = b" using dq by (simp add: quorum_recorded_def)
  have ev: "events (finalized dq s) = events s" by (simp add: finalized_def)
  have fin: "sm_get (FinalData (finalized dq s)) b' = (if b' = b then Some dq else sm_get (FinalData s) b')" for b'
    by (simp add: finalized_def b)
  have sub: "submitted (finalized dq s) = submitted s" by (simp add: fun_eq_iff submitted_def ev)
  have ok: "quorum_recorded (finalized dq s) = quorum_recorded s" by (simp add: fun_eq_iff quorum_recorded_def sub)
  have "sm_wf (Submissions (finalized dq s))" using inv by (simp add: finalized_def submissions_inv_def)
  then show ?thesis
    using inv dq unfolding submissions_inv_def finalized_submissions b fin sub ok by auto
qed

lemma finalize_quorum_inv:
  assumes "submissions_inv P s" "quorum_recorded s b dq" "P dq" "finalize_quorum E S dq data bn s = Ok s'"
  shows "submissions_inv P s'"
proof -
  obtain t s1 m where s1: "process_insert_and_update_commitments E (dq_table dq) t (finalized dq s) = Ok (s1, m)"
    and s': "announced s1 s'"
    using finalize_quorum_Ok[OF assms(4)] by metis
  obtain c where "s1 = finalized dq s\<lparr>CommitmentStorageMap := c\<rparr>" using process_insert_frame[OF s1] by blast
  then have "submissions_inv P s1"
    using finalized_inv[OF assms(1-3)]
    by (simp add: submissions_inv_def quorum_recorded_def submitted_def cong: conj_cong)
  then show ?thesis using s' by (rule announced_inv)
qed

text \<open>The rights to submit.\<close>

definition can_submit :: "('x, 'a) indexing_state_scheme \<Rightarrow> origin \<Rightarrow> table_identifier \<Rightarrow> quorum_scope \<Rightarrow> bool" where
  "can_submit s orig table q \<longleftrightarrow> (\<exists>n. iqs_of_scope (quorum_of s table) q = Some n)
     \<and> permitted s orig (IndexingPallet (case q of Public \<Rightarrow> SubmitDataForPublicQuorum
         | Privileged \<Rightarrow> SubmitDataForPrivilegedQuorum table))"

definition submit_if ::
    "bool \<Rightarrow> account_id \<Rightarrow> batch_id \<Rightarrow> bytes \<Rightarrow> table_identifier \<Rightarrow> insert_quorum_size \<Rightarrow> quorum_scope
     \<Rightarrow> ('x, 'a) indexing_state_scheme \<Rightarrow> (('x, 'a) indexing_state_scheme \<times> data_quorum option) dispatch_result" where
  "submit_if c who b h table tq q s = (if c then submit_data_and_find_quorum who b h table tq q s else Ok (s, None))"

lemma submit_data_inner_eq:
  "submit_data_inner E S hash orig table b data bn s =
     bind_res (ensure_signed orig) (\<lambda>who.
     bind_res (ensure (can_submit s orig table Public \<or> can_submit s orig table Privileged)
       (IndexingError UnauthorizedSubmitter)) (\<lambda>_.
     bind_res (validate_submission table b data s) (\<lambda>_.
     bind_res (submit_if (can_submit s orig table Public) who b (hash data bn) table (quorum_of s table) Public s) (\<lambda>(s1, r1).
     bind_res (submit_if (can_submit s orig table Privileged) who b (hash data bn) table (quorum_of s table) Privileged s1) (\<lambda>(s2, r2).
     case (case r1 of Some q \<Rightarrow> Some q | None \<Rightarrow> r2) of
       Some dq \<Rightarrow> finalize_quorum E S dq data bn s2 | None \<Rightarrow> Ok s2)))))"
  by (simp add: submit_data_inner_def Let_def can_submit_def quorum_of_def is_ok_ensure_root_or_permissioned submit_if_def conj_commute)

lemma submit_if_inv:
  assumes "submissions_inv P s" "sm_get (FinalData s) b = None"
    and "submit_if c who b h table (quorum_of s table) q s = Ok (s', r)"
  shows "submissions_inv P s'" "announced (s\<lparr>Submissions := Submissions s'\<rparr>) s'" "quorum_of s' table = quorum_of s table"
    "user_nonce s' = user_nonce s" "\<And>dq. r = Some dq \<Longrightarrow> quorum_recorded s' b dq \<and> quorum_size_ok s dq \<and> dq_table dq = table"
proof -
  have "submissions_inv P s' \<and> announced (s\<lparr>Submissions := Submissions s'\<rparr>) s' \<and> user_nonce s' = user_nonce s
      \<and> (\<forall>dq. r = Some dq \<longrightarrow> quorum_recorded s' b dq \<and> quorum_size_ok s dq \<and> dq_table dq = table)"
  proof (cases c)
    case True
    then have run: "submit_data_and_find_quorum who b h table (quorum_of s table) q s = Ok (s', r)"
      using assms(3) by (simp add: submit_if_def)
    show ?thesis using find_quorum_inv[OF assms(1,2) run] by blast
  qed (use assms in \<open>simp add: submit_if_def\<close>)
  then show "submissions_inv P s'" "announced (s\<lparr>Submissions := Submissions s'\<rparr>) s'" "user_nonce s' = user_nonce s"
    "\<And>dq. r = Some dq \<Longrightarrow> quorum_recorded s' b dq \<and> quorum_size_ok s dq \<and> dq_table dq = table" "quorum_of s' table = quorum_of s table"
    by (auto simp: announced_def quorum_of_def)
qed

lemma validate_submission_Ok:
  "validate_submission table b data s = Ok u \<longleftrightarrow> sm_get (FinalData s) b = None \<and> ti_namespace table \<noteq> [] \<and> ti_name table \<noteq> []
     \<and> data \<noteq> [] \<and> b \<noteq> [] \<and> sm_contains (Schemas s) (ti_namespace table, ti_name table)"
  by (auto simp: validate_submission_def sm_contains_def res_Ok_iff split: if_splits)

lemma submit_data_inner_Ok:
  assumes run: "submit_data_inner E S hash orig table b data bn s = Ok s'" and inv: "submissions_inv P s"
  obtains who s2 where "orig = Signed who" "can_submit s orig table Public \<or> can_submit s orig table Privileged"
    "validate_submission table b data s = Ok ()"
    "submissions_inv P s2" "announced (s\<lparr>Submissions := Submissions s2\<rparr>) s2" "user_nonce s2 = user_nonce s"
    "s' = s2 \<or> (\<exists>dq. quorum_recorded s2 b dq \<and> quorum_size_ok s dq \<and> dq_table dq = table \<and> finalize_quorum E S dq data bn s2 = Ok s')"
proof -
  obtain who s1 r1 s2 r2 where o: "orig = Signed who"
    and c: "can_submit s orig table Public \<or> can_submit s orig table Privileged"
    and v: "validate_submission table b data s = Ok ()"
    and r1: "submit_if (can_submit s orig table Public) who b (hash data bn) table (quorum_of s table) Public s = Ok (s1, r1)"
    and r2: "submit_if (can_submit s orig table Privileged) who b (hash data bn) table (quorum_of s table) Privileged s1 = Ok (s2, r2)"
    and f: "(case (case r1 of Some q \<Rightarrow> Some q | None \<Rightarrow> r2) of
       Some dq \<Rightarrow> finalize_quorum E S dq data bn s2 | None \<Rightarrow> Ok s2) = Ok s'"
    using run by (auto simp: submit_data_inner_eq res_Ok_iff ensure_signed_Ok_iff)
  have final: "sm_get (FinalData s) b = None" using v by (simp add: validate_submission_Ok)
  note i1 = submit_if_inv[OF inv final r1]
  have "sm_get (FinalData s1) b = None" using i1(2) final by (simp add: announced_def)
  note i2 = submit_if_inv[OF i1(1) this r2[folded i1(3)]]
  have a: "announced (s\<lparr>Submissions := Submissions s2\<rparr>) s2"
    using i1(2) i2(2) by (auto simp: announced_def intro: order_trans)
  have up: "quorum_recorded s2 b dq" if "quorum_recorded s1 b dq" for dq
    using that i2(2) by (intro quorum_recorded_mono[OF that]) (auto simp: announced_def)
  have sz: "quorum_size_ok s1 = quorum_size_ok s" using i1(2) by (intro quorum_size_ok_cong) (simp add: announced_def)
  have "s' = s2 \<or> (\<exists>dq. quorum_recorded s2 b dq \<and> quorum_size_ok s dq \<and> dq_table dq = table \<and> finalize_quorum E S dq data bn s2 = Ok s')"
  proof (cases r1)
    case (Some dq)
    then show ?thesis using f i1(5)[OF Some] up by auto
  next
    case None
    show ?thesis
    proof (cases r2)
      case (Some dq)
      then show ?thesis using f i2(5)[OF Some] \<open>r1 = None\<close> sz by auto
    qed (use f None in simp)
  qed
  then show ?thesis by (rule that[OF o c v i2(1) a i2(4)[unfolded i1(4)]])
qed

lemma submit_data_inner_submissions:
  assumes "submissions_inv P s" "\<And>dq. quorum_size_ok s dq \<Longrightarrow> P dq" "submit_data_inner E S hash orig table b data bn s = Ok s'"
  shows "submissions_inv P s'"
  by (rule submit_data_inner_Ok[OF assms(3,1)]) (auto intro: finalize_quorum_inv assms(2))

lemma finalize_quorum_kept:
  assumes "finalize_quorum E S dq data bn s = Ok s'"
  shows "kept_storage s' = kept_storage s \<and> (\<exists>ev. events s' = events s @ ev) \<and> user_nonce s a \<le> user_nonce s' a
    \<and> FinalData s' = sm_insert (dq_batch_id dq) dq (FinalData s)"
proof (rule finalize_quorum_Ok[OF assms])
  fix t s1 m assume "process_insert_and_update_commitments E (dq_table dq) t (finalized dq s) = Ok (s1, m)" "announced s1 s'"
  moreover from this(1) obtain c where "s1 = finalized dq s\<lparr>CommitmentStorageMap := c\<rparr>" using process_insert_frame by blast
  ultimately show ?thesis by (auto simp: announced_def finalized_def user_nonce_def)
qed

lemma submit_data_inner_kept:
  assumes "submissions_inv P s" "submit_data_inner E S hash orig table b data bn s = Ok s'"
  shows "kept_storage s' = kept_storage s \<and> (\<exists>ev. events s' = events s @ ev) \<and> user_nonce s a \<le> user_nonce s' a"
proof (rule submit_data_inner_Ok[OF assms(2,1)])
  fix s2 assume a: "announced (s\<lparr>Submissions := Submissions s2\<rparr>) s2"
    and f: "s' = s2 \<or> (\<exists>dq. quorum_recorded s2 b dq \<and> quorum_size_ok s dq \<and> dq_table dq = table
      \<and> finalize_quorum E S dq data bn s2 = Ok s')"
    and n: "user_nonce s2 = user_nonce s"
  from f have "kept_storage s' = kept_storage s2 \<and> (\<exists>ev. events s' = events s2 @ ev) \<and> user_nonce s2 a \<le> user_nonce s' a"
    using finalize_quorum_kept by blast
  with a n show ?thesis by (auto simp: announced_def)
qed

lemma submit_data_inner_quorums:
  assumes "submissions_inv P s" "submit_data_inner E S hash orig table b data bn s = Ok s'"
  shows "TableInsertQuorums s' = TableInsertQuorums s"
  using submit_data_inner_kept[OF assms] by simp

lemma submit_data_inner_inv:
  assumes "indexing_inv s" "submit_data_inner E S hash orig table b data bn s = Ok s'"
  shows "indexing_inv s'"
  using submit_data_inner_submissions[OF assms(1)[unfolded indexing_inv_def] _ assms(2)]
    quorum_size_ok_cong[OF submit_data_inner_quorums[OF assms(1)[unfolded indexing_inv_def] assms(2)]]
  by (simp add: indexing_inv_def)

fun indexing_allowed :: "indexing_call \<Rightarrow> origin \<Rightarrow> ('x, 'a) indexing_state_scheme \<Rightarrow> bool" where
  "indexing_allowed (SubmitData table b data) orig s \<longleftrightarrow> (\<exists>who q. orig = Signed who \<and> can_submit s orig table q)"
| "indexing_allowed (SubmitBlockchainData table b data bn) orig s \<longleftrightarrow> (\<exists>who q. orig = Signed who \<and> can_submit s orig table q)"

lemma submit_data_inner_denied:
  "\<not> (\<exists>who q. orig = Signed who \<and> can_submit s orig table q) \<Longrightarrow> \<exists>e. submit_data_inner E S hash orig table b data bn s = Err e"
  by (cases orig) (auto simp: submit_data_inner_eq)

interpretation indexing: invariant_pallet "indexing_dispatch E S hash" indexing_inv for E S hash
proof (unfold_locales, goal_cases)
  case (1 s c orig s')
  then show ?case
    by (cases c) (auto simp: submit_data_def submit_blockchain_data_def intro: submit_data_inner_inv)
qed

interpretation indexing_guard: guarded_pallet "indexing_dispatch E S hash" indexing_allowed for E S hash
proof (unfold_locales, goal_cases)
  case (1 c orig s)
  then show ?case
    by (cases c) (auto simp: submit_data_def submit_blockchain_data_def intro!: submit_data_inner_denied)
qed

section \<open>Decided batches\<close>

text \<open>
  C6. Quorums are sound: after any sequence of submissions, from whatever origins, every decided
  batch was decided by more distinct submitters than the quorum size of its table, each on record
  with the same data of that batch in that scope; its dissenters are on record with other
  data; a batch still open has at most 32 submitters per data and scope, all on record, and no
  submissions of a decided batch remain. Origins without the right to submit for a table with
  a quorum size change nothing.
\<close>

theorem quorum_sound:
  assumes "indexing_inv s"
  shows "indexing_inv (run_extrinsics (indexing_dispatch E S hash) xs s)
     \<and> (list_all (\<lambda>(c, orig). \<not> indexing_allowed c orig s) xs \<longrightarrow> run_extrinsics (indexing_dispatch E S hash) xs s = s)"
  using indexing.run_inv[OF assms, of E S hash xs] indexing_guard.run_denied[of xs s E S hash]
  by (auto simp: list_all_iff)

lemma submit_data_inner_final:
  assumes run: "submit_data_inner E S hash orig table b data bn s = Ok s'" and inv: "submissions_inv P s"
    and final: "sm_get (FinalData s) b' = Some dq"
  shows "sm_get (FinalData s') b' = Some dq"
proof (rule submit_data_inner_Ok[OF run inv])
  fix s2 assume v: "validate_submission table b data s = Ok ()" and a: "announced (s\<lparr>Submissions := Submissions s2\<rparr>) s2"
    and fin: "s' = s2 \<or> (\<exists>dq. quorum_recorded s2 b dq \<and> quorum_size_ok s dq \<and> dq_table dq = table \<and> finalize_quorum E S dq data bn s2 = Ok s')"
  have b: "b' \<noteq> b" using v final by (auto simp: validate_submission_Ok)
  have s2: "sm_get (FinalData s2) b' = Some dq" using a final by (simp add: announced_def)
  from fin show ?thesis
  proof (elim disjE exE conjE)
    fix dq' assume q: "quorum_recorded s2 b dq'" and f: "finalize_quorum E S dq' data bn s2 = Ok s'"
    obtain t s1 m where s1: "process_insert_and_update_commitments E (dq_table dq') t (finalized dq' s2) = Ok (s1, m)"
      and s': "announced s1 s'"
      using finalize_quorum_Ok[OF f] by metis
    have "FinalData s' = sm_insert b dq' (FinalData s2)"
      using process_insert_frame[OF s1] s' q by (auto simp: announced_def finalized_def quorum_recorded_def)
    then show ?thesis using s2 b by simp
  qed (use s2 in simp)
qed

text \<open>A decision is final: no sequence of submissions changes the quorum of a decided batch.\<close>

theorem decided_batch_final:
  assumes "indexing_inv s" "sm_get (FinalData s) b = Some dq"
  shows "sm_get (FinalData (run_extrinsics (indexing_dispatch E S hash) xs s)) b = Some dq"
proof -
  let ?P = "\<lambda>s. indexing_inv s \<and> sm_get (FinalData s) b = Some dq"
  have "?P (run_extrinsics (indexing_dispatch E S hash) xs s)"
  proof (rule run_extrinsics_preserves[where P = ?P])
    fix x and s s' assume "?P s" "indexing_dispatch E S hash (fst x) (snd x) s = Ok s'"
    then show "?P s'"
      by (cases "fst x") (auto simp: submit_data_def submit_blockchain_data_def
          intro: submit_data_inner_inv submit_data_inner_final[OF _ indexing_invD])
  qed (use assms in simp)
  then show ?thesis by blast
qed

section \<open>Reaching a quorum\<close>

lemma submit_new_submitter:
  assumes wf: "submitters_wf (sm_get_or submitters_default (Submissions s) (b, h))"
    and new: "who \<notin> set (submitters s b h q)" and room: "length (submitters s b h q) < 32"
    and size: "iqs_of_scope tq q = Some n"
  shows "\<exists>s' r. submit_data_and_find_quorum who b h table tq q s = Ok (s', r)
     \<and> (r \<noteq> None \<longleftrightarrow> unat n \<le> length (submitters s b h q))
     \<and> (\<forall>dq. r = Some dq \<longrightarrow> dq_table dq = table \<and> dq_batch_id dq = b \<and> dq_data_hash dq = h
          \<and> set (dq_agreements dq) = insert who (set (submitters s b h q)))
     \<and> submitters_wf (sm_get_or submitters_default (Submissions s') (b, h))
     \<and> set (submitters s' b h q) = insert who (set (submitters s b h q))
     \<and> length (submitters s' b h q) = Suc (length (submitters s b h q))"
proof -
  let ?m = "sm_get_or submitters_default (Submissions s) (b, h)"
  have len: "length (submitters s b h q) = len_of_scope ?m q" by (simp add: submitters_def len_of_scope_length)
  obtain sub where sub: "with_submitter ?m who q = Ok sub"
  proof (cases "with_submitter ?m who q")
    case (Err e)
    obtain m x where "e = (m, x)" by (cases e)
    with Err have "MAX_SUBMITTERS \<le> len_of_scope ?m q" using with_submitter_Err by blast
    with room len show ?thesis by (simp add: MAX_SUBMITTERS_def)
  qed (use with_submitter_not_Panic in auto)
  have "bt_set (sbs_of_scope ?m q)" using submitters_wf_of_scope[OF wf, of q] by (simp add: submitter_list_wf_def)
  from with_submitter_member[OF this sub] have suc: "length (sbs_of_scope sub q) = Suc (length (submitters s b h q))"
    using new by (simp add: submitters_def len_of_scope_length)
  have set: "set (sbs_of_scope sub q) = insert who (set (submitters s b h q))"
    using with_submitter_Ok(1)[OF sub] by (simp add: submitters_def)
  have lt: "length (sbs_of_scope sub q) < 256" using suc room by simp
  note wf' = with_submitter_wf[OF wf sub]
  have ne: "len_of_scope sub q \<noteq> len_of_scope ?m q" using suc len by (simp add: len_of_scope_length)
  show ?thesis
    using ne lt suc set wf' size word_of_nat_u8_less[OF lt, of n]
    by (auto simp: submit_data_and_find_quorum_def sub Let_def submitters_def[of _ b h q] len_of_scope_length deposit_event_def)
qed

lemma submit_all_quorum:
  assumes "iqs_of_scope tq q = Some n" "unat n < 32"
  shows "\<lbrakk>submitters_wf (sm_get_or submitters_default (Submissions s) (b, h)); distinct whos; whos \<noteq> [];
    set whos \<inter> set (submitters s b h q) = {}; length (submitters s b h q) + length whos = Suc (unat n)\<rbrakk> \<Longrightarrow>
    \<exists>s' dq. collect_state (\<lambda>s who. submit_data_and_find_quorum who b h table tq q s) s whos =
        Ok (s', replicate (length whos - 1) None @ [Some dq])
      \<and> dq_table dq = table \<and> dq_batch_id dq = b \<and> dq_data_hash dq = h
      \<and> set (dq_agreements dq) = set whos \<union> set (submitters s b h q)"
proof (induction whos arbitrary: s)
  case (Cons who whos)
  obtain s1 r where run: "submit_data_and_find_quorum who b h table tq q s = Ok (s1, r)"
    and r: "r \<noteq> None \<longleftrightarrow> unat n \<le> length (submitters s b h q)"
    and dq: "\<And>dq. r = Some dq \<Longrightarrow> dq_table dq = table \<and> dq_batch_id dq = b \<and> dq_data_hash dq = h
          \<and> set (dq_agreements dq) = insert who (set (submitters s b h q))"
    and s1: "submitters_wf (sm_get_or submitters_default (Submissions s1) (b, h))"
      "set (submitters s1 b h q) = insert who (set (submitters s b h q))"
      "length (submitters s1 b h q) = Suc (length (submitters s b h q))"
    using submit_new_submitter[OF Cons.prems(1) _ _ assms(1), of who table] Cons.prems(4,5) assms(2) by auto
  show ?case
  proof (cases "whos = []")
    case True
    then obtain d where "r = Some d" using r Cons.prems(5) by auto
    with dq[OF this] run True show ?thesis by simp
  next
    case False
    have "r = None" using r Cons.prems(5) False by (cases r; cases whos) auto
    moreover obtain s' dq' where "collect_state (\<lambda>s who. submit_data_and_find_quorum who b h table tq q s) s1 whos =
        Ok (s', replicate (length whos - 1) None @ [Some dq'])"
      "dq_table dq' = table" "dq_batch_id dq' = b" "dq_data_hash dq' = h"
      "set (dq_agreements dq') = set whos \<union> set (submitters s1 b h q)"
      using Cons.IH[OF s1(1) _ False] Cons.prems(2,4,5) s1(2,3) by auto
    ultimately show ?thesis
      using run s1(2) False by (cases whos) auto
  qed
qed simp


text \<open>
  Submissions are filed under batch and data only: an account's submission for one table counts
  as an agreement when another account's submission of the same batch and data decides the
  batch for a different table, although privileged rights are given per table.
\<close>

theorem cross_table_agreement:
  assumes "indexing_inv s" "sm_get (FinalData s) b = None"
    and "submit_data_and_find_quorum who1 b h table1 (quorum_of s table1) q s = Ok (s1, r1)"
    and "submit_data_and_find_quorum who2 b h table2 tq q s1 = Ok (s2, Some dq)"
  shows "dq_table dq = table2 \<and> who1 \<in> set (dq_agreements dq) \<and> who2 \<in> set (dq_agreements dq)"
proof -
  obtain sub1 where sub1: "with_submitter (sm_get_or submitters_default (Submissions s) (b, h)) who1 q = Ok sub1"
    and s1: "s1 = deposit_event (submission_event who1 table1 b h q) (s\<lparr>Submissions := sm_insert (b, h) sub1 (Submissions s)\<rparr>)"
    by (rule submit_data_and_find_quorum_Ok[OF assms(3) indexing_inv_submissions_wf[OF assms(1)]])
  have get: "sm_get_or submitters_default (Submissions s1) (b, h) = sub1" by (simp add: s1 deposit_event_def)
  have wf: "submitters_wf (sm_get_or submitters_default (Submissions s1) (b, h))"
    unfolding get by (rule with_submitter_wf[OF indexing_inv_submissions_wf[OF assms(1)] sub1])
  obtain sub2 where sub2: "with_submitter sub1 who2 q = Ok sub2"
    and dq: "Some dq = (case iqs_of_scope tq q of None \<Rightarrow> None | Some n \<Rightarrow>
       if unat n < length (sbs_of_scope sub2 q)
       then Some \<lparr>dq_table = table2, dq_batch_id = b, dq_data_hash = h, dq_block_number = ucast (block_number s1),
         dq_agreements = sbs_of_scope sub2 q, dq_dissents = dissenters b h q s2, dq_quorum_scope = q\<rparr>
       else None)"
    by (rule submit_data_and_find_quorum_Ok[OF assms(4) wf, unfolded get])
  show ?thesis
    using dq with_submitter_Ok(1)[OF sub1] with_submitter_Ok(1)[OF sub2] by (auto split: option.splits if_splits)
qed

section \<open>Decided data is committed\<close>

lemma from_bytes_insert_ok:
  assumes "on_chain_table_from_bytes E tb = Ok t" "table_num_rows t = (Ok r :: (nat, unit) result)"
  shows "insert_ok (ex_uc E) t r"
  using assms try_from_iter_wf by (auto simp: on_chain_table_from_bytes_def insert_ok_def res_Ok_iff)

text \<open>The table some submitted bytes stand for, and its number of rows.\<close>

definition submitted_rows :: "('h, 'uh, 'sh, 'd, 'ud, 'sd) sxt_ext \<Rightarrow> row_data \<Rightarrow> nat option" where
  "submitted_rows E data =
     (case record_batch_to_onchain E data of Ok tb \<Rightarrow>
        (case on_chain_table_from_bytes E tb of Ok t \<Rightarrow>
           (case (table_num_rows t :: (nat, unit) result) of Ok r \<Rightarrow> Some r | _ \<Rightarrow> None)
         | _ \<Rightarrow> None)
      | _ \<Rightarrow> None)"

lemma submitted_rows_Some:
  assumes "submitted_rows E data = Some r"
  obtains tb t where "record_batch_to_onchain E data = Ok tb" "on_chain_table_from_bytes E tb = Ok t"
    "insert_ok (ex_uc E) t r"
  using assms by (auto simp: submitted_rows_def dest: from_bytes_insert_ok split: result.splits)

lemma announce_quorum_returns:
  assumes uc: "unicode_upper (ex_uc E)" and S: "substrate_returns S" and ins: "insert_ok (ex_uc E) t r"
    and nonce: "\<forall>a. user_nonce s a + r < 2 ^ 256"
  shows "\<exists>s'. announce_quorum E S dq bn t bytes s = Ok s'"
proof -
  obtain c cs where "t = c # cs" using ins by (cases t) (auto simp: insert_ok_def table_wf_def)
  with ins have n: "table_num_rows t = (Ok r :: _ dispatch_result)"
    by (auto simp: insert_ok_def table_num_rows_def split: prod.splits)
  obtain s1 where nn: "user_nonce s1 = user_nonce s" and run: "announce_quorum E S dq bn t bytes s = (if is_staking_table (dq_table dq)
      then (case process_system_table (ex_uc E) S (dq_table dq) t s1 of
             Err e \<Rightarrow> Ok (deposit_event (SystemTableError (dq_table dq) e bytes) s1)
           | Ok s' \<Rightarrow> Ok (deposit_event (SystemTableUpdate (dq_table dq) bytes) s')
           | Panic \<Rightarrow> Panic)
      else Ok s1)"
    by (rule announce_quorum_eq[OF n])
  have "request_size (ex_uc E) t (dq_table dq) \<le> r"
    using ins by (intro request_size_le[OF uc]) (auto simp: insert_ok_def)
  then have "user_nonce s1 a + request_size (ex_uc E) t (dq_table dq) < 2 ^ 256" for a
    using nonce[rule_format, of a] by (simp add: nn)
  then obtain s2 where "process_system_table (ex_uc E) S (dq_table dq) t s1 = Ok s2"
    using process_system_table_runs[OF uc S, of s1 t "dq_table dq"] by blast
  then show ?thesis by (simp add: run)
qed

lemma finalize_quorum_cases:
  assumes E: "ext_laws E" and S: "substrate_returns S" and agree: "stored_agree E s (dq_table dq) n order"
    and rows: "submitted_rows E data = Some r" and b: "n + r < 2 ^ 63" and nonce: "\<forall>a. user_nonce s a + r < 2 ^ 256"
  shows "case finalize_quorum E S dq data bn s of
      Ok s' \<Rightarrow> stored_agree E s' (dq_table dq) (n + r) order \<and> (\<forall>t. t = dq_table dq \<or> stored s' t = stored s t)
        \<and> sm_get (FinalData s') (dq_batch_id dq) = Some dq
    | Err e \<Rightarrow> True
    | Panic \<Rightarrow> False"
proof -
  obtain tb t where tb: "record_batch_to_onchain E data = Ok tb" "on_chain_table_from_bytes E tb = Ok t"
    and ins: "insert_ok (ex_uc E) t r"
    by (rule submitted_rows_Some[OF rows])
  have uc: "unicode_upper (ex_uc E)" using E by (simp add: ext_laws_def)
  have eq: "CommitmentStorageMap (finalized dq s) = CommitmentStorageMap s" by (simp add: finalized_def)
  note c = insert_and_update_cases[OF E ins b agree[folded stored_frame(2)[OF eq]], unfolded stored_frame(1)[OF eq]]
  show ?thesis
  proof (cases "process_insert_and_update_commitments E (dq_table dq) t (finalized dq s)")
    case (Ok x)
    obtain s1 m where x: "x = (s1, m)" by (cases x)
    obtain cm where s1: "s1 = finalized dq s\<lparr>CommitmentStorageMap := cm\<rparr>" using process_insert_frame Ok x by blast
    have nonce1: "\<forall>a. user_nonce s1 a + r < 2 ^ 256" using nonce by (simp add: s1 finalized_def user_nonce_def)
    have run: "finalize_quorum E S dq data bn s =
        bind_res (ok_or (ex_table_encode E (icm_insert_with_meta_columns m)) (IndexingError TableSerializationError)) (\<lambda>bytes.
        bind_res (bounded_try_from DATA_MAX_LEN bytes (IndexingError TableSerializationError)) (\<lambda>bytes.
        announce_quorum E S dq bn t bytes s1))"
      using Ok by (simp add: finalize_quorum_def Let_def tb finalized_def x)
    have fin: "stored_agree E s' (dq_table dq) (n + r) order \<and> (\<forall>t. t = dq_table dq \<or> stored s' t = stored s t)
        \<and> sm_get (FinalData s') (dq_batch_id dq) = Some dq" if "announce_quorum E S dq bn t bytes s1 = Ok s'" for bytes s'
    proof -
      have a: "announced s1 s'" using that by (rule announce_quorum_announced)
      then have cs: "CommitmentStorageMap s' = CommitmentStorageMap s1" by (simp add: announced_def)
      have "sm_get (FinalData s') (dq_batch_id dq) = Some dq" using a by (simp add: announced_def s1 finalized_def)
      then show ?thesis using c unfolding Ok x stored_frame[OF cs] by simp
    qed
    show ?thesis
    proof (cases "ex_table_encode E (icm_insert_with_meta_columns m)")
      case (Some bytes)
      obtain s' where "announce_quorum E S dq bn t bytes s1 = Ok s'"
        using announce_quorum_returns[OF uc S ins nonce1] by blast
      with fin[OF this] Some show ?thesis unfolding run by (simp add: bounded_try_from_def)
    qed (simp add: run)
  next
    case (Err e)
    then show ?thesis by (simp add: finalize_quorum_def Let_def tb finalized_def)
  next
    case Panic
    then show ?thesis using c by simp
  qed
qed

lemma submit_data_and_find_quorum_not_Panic: "submit_data_and_find_quorum who b h table tq q s \<noteq> Panic"
  by (auto simp: submit_data_and_find_quorum_def Let_def split: option.split)

lemma submit_if_not_Panic [simp]: "submit_if c who b h table tq q s \<noteq> Panic"
  by (simp add: submit_if_def submit_data_and_find_quorum_not_Panic)

lemma submit_data_inner_Panic:
  assumes run: "submit_data_inner E S hash orig table b data bn s = Panic" and inv: "submissions_inv P s"
  obtains dq s2 where "announced (s\<lparr>Submissions := Submissions s2\<rparr>) s2" "user_nonce s2 = user_nonce s" "dq_table dq = table"
    "finalize_quorum E S dq data bn s2 = Panic"
proof -
  obtain who where o: "orig = Signed who" using run by (cases orig) (auto simp: submit_data_inner_eq)
  have c: "can_submit s orig table Public \<or> can_submit s orig table Privileged"
    using run by (auto simp: submit_data_inner_eq o ensure_def split: if_splits)
  have v: "validate_submission table b data s = Ok ()"
    using run c by (auto simp: submit_data_inner_eq o validate_submission_def ensure_def split: if_splits)
  have final: "sm_get (FinalData s) b = None" using v by (simp add: validate_submission_Ok)
  obtain s1 r1 where r1: "submit_if (can_submit s orig table Public) who b (hash data bn) table (quorum_of s table) Public s = Ok (s1, r1)"
    using run c v by (auto simp: submit_data_inner_eq o bind_res_def split: result.splits)
  note i1 = submit_if_inv[OF inv final r1]
  obtain s2 r2 where r2: "submit_if (can_submit s orig table Privileged) who b (hash data bn) table (quorum_of s table) Privileged s1 = Ok (s2, r2)"
    using run c v r1 by (auto simp: submit_data_inner_eq o bind_res_def split: result.splits)
  have "sm_get (FinalData s1) b = None" using i1(2) final by (simp add: announced_def)
  note i2 = submit_if_inv[OF i1(1) this r2[folded i1(3)]]
  have a: "announced (s\<lparr>Submissions := Submissions s2\<rparr>) s2" using i1(2) i2(2) by (auto simp: announced_def intro: order_trans)
  have "(case (case r1 of Some q \<Rightarrow> Some q | None \<Rightarrow> r2) of
      Some dq \<Rightarrow> finalize_quorum E S dq data bn s2 | None \<Rightarrow> Ok s2) = Panic"
    using run c v r1 r2 by (auto simp: submit_data_inner_eq o)
  then obtain dq where "(r1 = Some dq \<or> r2 = Some dq)" "finalize_quorum E S dq data bn s2 = Panic"
    by (auto split: option.splits)
  with i1(5) i2(5) have "dq_table dq = table" "finalize_quorum E S dq data bn s2 = Panic" by auto
  then show ?thesis by (intro that[OF a]) (simp_all add: i1(4) i2(4))
qed


section \<open>An example chain\<close>

definition demo_batch :: record_batch where
  "demo_batch = \<lparr>rb_fields = [''B'', ''A''], rb_columns = [plain_array DTUtf8 (StringArray [Some ''x'', Some ''y'']),
     plain_array DTInt64 (Int64Array [7, 8])]\<rparr>"

definition demo_indexing_ext :: "(nat \<times> ident list, unit, u256, nat \<times> ident list, unit, u256) sxt_ext" where
  "demo_indexing_ext = demo_ext\<lparr>ex_stream_read := (\<lambda>_. StreamBatch demo_batch)\<rparr>"

definition demo_indexing_state :: "(account_id \<Rightarrow> u128) indexing_state" where
  "demo_indexing_state = system_tables_state.extend (demo_system_state\<lparr>
       Permissions := [(''alice'', [IndexingPallet SubmitDataForPublicQuorum])],
       TableInsertQuorums := [(demo_table_id, \<lparr>iqs_public = Some 0, iqs_privileged = None\<rparr>)]\<rparr>)
     (indexing_state.fields [] [] [])"

lemmas demo_indexing_defs = demo_indexing_state_def demo_system_state_def demo_tables_state_def
  system_tables_state.defs tables_state.defs indexing_state.defs

lemma demo_indexing_inv: "indexing_inv demo_indexing_state"
  by (simp add: indexing_inv_def submissions_inv_def demo_indexing_defs)

theorem quorum_sound_witness:
  "indexing_inv (run_extrinsics (indexing_dispatch demo_indexing_ext demo_substrate (\<lambda>d _. d))
     [(SubmitData demo_table_id ''b'' ''d'', Signed ''alice''), (SubmitData demo_table_id ''b'' ''e'', Root)] demo_indexing_state)"
  using quorum_sound[OF demo_indexing_inv] by blast

definition demo_quorum :: data_quorum where
  "demo_quorum = \<lparr>dq_table = demo_table_id, dq_batch_id = ''b'', dq_data_hash = ''d'', dq_block_number = 1,
     dq_agreements = [''alice''], dq_dissents = [], dq_quorum_scope = Public\<rparr>"

definition demo_decided_state :: "(account_id \<Rightarrow> u128) indexing_state" where
  "demo_decided_state = demo_indexing_state\<lparr>FinalData := [(''b'', demo_quorum)],
     events := [submission_event ''alice'' demo_table_id ''b'' ''d'' Public]\<rparr>"

lemma demo_decided_inv: "indexing_inv demo_decided_state"
  by (auto simp: indexing_inv_def submissions_inv_def demo_decided_state_def demo_indexing_defs quorum_recorded_def quorum_size_ok_def demo_quorum_def quorum_of_def
      submitter_list_wf_def bt_set_def MAX_SUBMITTERS_def submitted_def sm_get_def sm_get_or_def split: if_splits)

theorem decided_batch_final_witness:
  "sm_get (FinalData (run_extrinsics (indexing_dispatch demo_indexing_ext demo_substrate (\<lambda>d _. d))
     [(SubmitBlockchainData demo_table_id ''b'' ''e'' 7, Signed ''alice'')] demo_decided_state)) ''b'' = Some demo_quorum"
  by (rule decided_batch_final[OF demo_decided_inv]) (simp add: demo_decided_state_def sm_get_def)


definition demo_other_table :: table_identifier where
  "demo_other_table = \<lparr>ti_name = ''U'', ti_namespace = ''N''\<rparr>"

theorem cross_table_agreement_witness:
  "\<exists>s1 s2 dq. submit_data_and_find_quorum ''alice'' ''b'' ''d'' demo_table_id (quorum_of demo_indexing_state demo_table_id) Privileged
       demo_indexing_state = Ok (s1, None)
     \<and> submit_data_and_find_quorum ''bob'' ''b'' ''d'' demo_other_table \<lparr>iqs_public = None, iqs_privileged = Some 1\<rparr> Privileged s1 =
         Ok (s2, Some dq)
     \<and> dq_table dq = demo_other_table \<and> ''alice'' \<in> set (dq_agreements dq)"
proof -
  have q: "quorum_of demo_indexing_state demo_table_id = \<lparr>iqs_public = Some 0, iqs_privileged = None\<rparr>"
    by (simp add: quorum_of_def demo_indexing_defs sm_get_or_def sm_get_def)
  obtain s1 where s1: "submit_data_and_find_quorum ''alice'' ''b'' ''d'' demo_table_id (quorum_of demo_indexing_state demo_table_id)
      Privileged demo_indexing_state = Ok (s1, None)"
    and sub: "sm_get_or submitters_default (Submissions s1) (''b'', ''d'') = \<lparr>sbs_public = [], sbs_privileged = [''alice'']\<rparr>"
    unfolding q by (auto simp: submit_data_and_find_quorum_def Let_def demo_indexing_defs sm_get_or_def submitters_default_def
        bounded_set_try_insert_def MAX_SUBMITTERS_def deposit_event_def)
  obtain s2 dq where s2: "submit_data_and_find_quorum ''bob'' ''b'' ''d'' demo_other_table \<lparr>iqs_public = None, iqs_privileged = Some 1\<rparr>
      Privileged s1 = Ok (s2, Some dq)"
    by (auto simp: submit_data_and_find_quorum_def Let_def sub bounded_set_try_insert_def MAX_SUBMITTERS_def)
  show ?thesis
    using s1 s2 cross_table_agreement[OF demo_indexing_inv _ s1 s2] by (auto simp: demo_indexing_defs)
qed

lemma demo_indexing_laws: "ext_laws demo_indexing_ext"
  using demo_ext_laws by (simp add: ext_laws_def demo_indexing_ext_def)

lemma demo_submitted: "record_batch_to_onchain demo_indexing_ext data = Ok ''i''" "submitted_rows demo_indexing_ext data = Some 2"
proof -
  have "table_from_record_batch to_ascii_uppercase demo_arrow_ext demo_batch = Ok demo_insert" by code_simp
  then have t: "table_from_record_batch (ex_uc demo_indexing_ext) (ex_arrow demo_indexing_ext) demo_batch = Ok demo_insert"
    by (simp add: demo_indexing_ext_def demo_ext_def)
  have "on_chain_table_to_bytes demo_indexing_ext demo_insert = Ok ''i''"
    using demo_bytes(1) by (simp add: on_chain_table_to_bytes_def demo_indexing_ext_def)
  with t show r: "record_batch_to_onchain demo_indexing_ext data = Ok ''i''"
    by (simp add: record_batch_to_onchain_def) (simp add: demo_indexing_ext_def)
  have "on_chain_table_from_bytes demo_indexing_ext ''i'' = Ok demo_insert"
    using demo_bytes(3) by (simp add: on_chain_table_from_bytes_def demo_indexing_ext_def)
  then show "submitted_rows demo_indexing_ext data = Some 2"
    by (simp add: submitted_rows_def r demo_insert_def table_num_rows_def)
qed

lemma demo_insert_runs:
  assumes "CommitmentStorageMap s = [((demo_table_id, DynamicDory), ''a'')]"
  shows "\<exists>c. process_insert_and_update_commitments demo_indexing_ext demo_table_id demo_insert s =
     Ok (s\<lparr>CommitmentStorageMap := c\<rparr>, \<lparr>icm_insert_with_meta_columns = demo_insert_out, icm_meta_table_inserts = []\<rparr>)"
proof -
  have eq: "process_insert_and_update_commitments demo_indexing_ext demo_table_id demo_insert s =
      process_insert_and_update_commitments demo_ext demo_table_id demo_insert s"
    by (simp add: process_insert_and_update_commitments_def native_process_insert_def on_chain_table_to_bytes_def
        on_chain_table_from_bytes_def demo_indexing_ext_def)
  have "get_commitments storage_map_handler (CommitmentStorageMap s) demo_table_id = \<lparr>pc_hyper_kzg = None, pc_dynamic_dory = Some ''a''\<rparr>"
    unfolding assms by code_simp
  moreover obtain c where "update_commitments storage_map_handler (CommitmentStorageMap s) demo_table_id
      \<lparr>pc_hyper_kzg = None, pc_dynamic_dory = Some ''b''\<rparr> = Ok c"
    using demo_update unfolding assms by (auto simp: is_ok_iff demo_commitments_state_def)
  ultimately show ?thesis
    unfolding eq by (auto simp: process_insert_and_update_commitments_def native_process_insert_def demo_bytes demo_process_insert)
qed

text \<open>Alice's submission decides the batch in every state with the permissions, quorum sizes and commitments of the example.\<close>

definition demo_ready :: "('x, 'a) indexing_state_scheme \<Rightarrow> bool" where
  "demo_ready s \<longleftrightarrow> Permissions s = Permissions demo_indexing_state \<and> TableInsertQuorums s = TableInsertQuorums demo_indexing_state
     \<and> CommitmentStorageMap s = CommitmentStorageMap demo_indexing_state \<and> Schemas s = Schemas demo_indexing_state
     \<and> Submissions s = [] \<and> FinalData s = []"

lemma demo_finalize:
  assumes "dq_table dq = demo_table_id" "CommitmentStorageMap s = [((demo_table_id, DynamicDory), ''a'')]"
  shows "is_ok (finalize_quorum demo_indexing_ext S dq ''d'' None s)"
proof -
  have "on_chain_table_from_bytes demo_indexing_ext ''i'' = Ok demo_insert"
    using demo_bytes(3) by (simp add: on_chain_table_from_bytes_def demo_indexing_ext_def)
  moreover have "ex_table_encode demo_indexing_ext demo_insert_out = Some ''o''"
    by (simp add: demo_indexing_ext_def demo_ext_def demo_insert_out_def demo_insert_def)
  moreover have "\<not> is_staking_table demo_table_id" by (simp add: is_staking_table_def demo_table_id_def)
  moreover have "max_block_number demo_insert = None" "table_num_rows demo_insert = (Ok 2 :: _ dispatch_result)"
    by (simp_all add: max_block_number_def demo_insert_def get_column_def ident_new_def table_num_rows_def)
  ultimately show ?thesis
    using demo_insert_runs[of "finalized dq s"] assms
    by (auto simp: finalize_quorum_def finalized_def demo_submitted announce_quorum_def bounded_try_from_def DATA_MAX_LEN_def)
qed

lemma demo_submission_decides:
  assumes ready: "demo_ready s"
  shows "\<exists>s' dq. submit_data_inner demo_indexing_ext S (\<lambda>d _. d) (Signed ''alice'') demo_table_id ''b'' ''d'' None s = Ok s'
     \<and> sm_get (FinalData s') ''b'' = Some dq"
proof -
  note ready = ready[unfolded demo_ready_def demo_indexing_defs, simplified]
  have c: "can_submit s (Signed ''alice'') demo_table_id Public" "\<not> can_submit s (Signed ''alice'') demo_table_id Privileged"
    and v: "validate_submission demo_table_id ''b'' ''d'' s = Ok ()"
    by (simp_all add: can_submit_def quorum_of_def permitted_def has_permissions_iff validate_submission_Ok ready
        sm_get_or_def sm_contains_def sm_get_def) (simp add: demo_table_id_def)
  obtain s1 dq where s1: "submit_data_and_find_quorum ''alice'' ''b'' ''d'' demo_table_id (quorum_of s demo_table_id) Public s = Ok (s1, Some dq)"
    and dq: "dq_table dq = demo_table_id" "dq_batch_id dq = ''b''" and map: "CommitmentStorageMap s1 = [((demo_table_id, DynamicDory), ''a'')]"
    by (auto simp: submit_data_and_find_quorum_def Let_def ready sm_get_or_def submitters_default_def sm_get_def
        bounded_set_try_insert_def MAX_SUBMITTERS_def deposit_event_def quorum_of_def)
  obtain s' where s': "finalize_quorum demo_indexing_ext S dq ''d'' None s1 = Ok s'"
    using demo_finalize[OF dq(1) map] by (auto simp: is_ok_iff)
  have "FinalData s' = sm_insert ''b'' dq (FinalData s1)" using finalize_quorum_kept[OF s'] dq(2) by simp
  moreover have "submit_data_inner demo_indexing_ext S (\<lambda>d _. d) (Signed ''alice'') demo_table_id ''b'' ''d'' None s = Ok s'"
    by (simp add: submit_data_inner_eq c v submit_if_def s1 s')
  ultimately show ?thesis by simp
qed

lemma demo_submission_ok: "is_ok (submit_data_inner demo_indexing_ext demo_substrate (\<lambda>d _. d) (Signed ''alice'')
    demo_table_id ''b'' ''d'' None demo_indexing_state)"
proof -
  have "demo_ready demo_indexing_state" by (simp add: demo_ready_def) (simp add: demo_indexing_defs)
  from demo_submission_decides[OF this, of demo_substrate] show ?thesis by (auto simp: is_ok_iff)
qed


end
