(* ===== verification/Pallet_Smartcontracts.thy ===== *)
theory Pallet_Smartcontracts
  imports Pallet_Indexing
begin

text \<open>
  \<open>pallets/smartcontracts\<close>: contracts whose events are indexed. Adding a contract creates its
  namespace and tables, removing it drops the tables again.
\<close>

section \<open>State\<close>

record 'x smartcontracts_state = "'x indexing_state" +
  ContractStorage :: "(source, bytes, contract) storage_double_map"
  ContractTables :: "(source, bytes, (table_identifier \<times> table_type) list) storage_double_map"

definition MAX_CONTRACT_TABLES :: nat where "MAX_CONTRACT_TABLES = 1024"

section \<open>Extrinsics\<close>

text \<open>The loop of \<open>remove_smartcontract\<close> over the tables of the contract.\<close>

fun drop_contract_tables ::
    "(table_identifier \<times> table_type) list \<Rightarrow> 'a tables_state_scheme \<Rightarrow> 'a tables_state_scheme dispatch_result" where
  "drop_contract_tables [] s = Ok s"
| "drop_contract_tables ((ident, table_type) # table_ids) s =
     bind_res (drop_single_table table_type ident s) (\<lambda>s. drop_contract_tables table_ids (remove_commits ident s))"

definition remove_smartcontract ::
    "origin \<Rightarrow> source \<Rightarrow> bytes \<Rightarrow> ('x, 'a) smartcontracts_state_scheme \<Rightarrow> ('x, 'a) smartcontracts_state_scheme dispatch_result" where
  "remove_smartcontract orig source address s =
     bind_res (ensure_root_or_permissioned s orig (SmartContractsPallet UpdateABI)) (\<lambda>owner.
     let s = s\<lparr>ContractStorage := sm_remove (source, address) (ContractStorage s)\<rparr> in
     bind_res (case sm_get (ContractTables s) (source, address) of
         Some table_ids \<Rightarrow>
           drop_contract_tables table_ids (s\<lparr>ContractTables := sm_remove (source, address) (ContractTables s)\<rparr>)
       | None \<Rightarrow> Ok s) (\<lambda>s.
     Ok (deposit_event (SmartContractRemoved owner source address) s)))"

fun contract_details_of :: "contract \<Rightarrow> contract_details" where
  "contract_details_of (Normal details) = details"
| "contract_details_of (Proxy details _) = details"

definition add_smartcontract ::
    "('h, 'uh, 'sh, 'd, 'ud, 'sd) sxt_ext \<Rightarrow> sql_ext \<Rightarrow> origin \<Rightarrow> contract \<Rightarrow> update_table list
     \<Rightarrow> ('x, 'a) smartcontracts_state_scheme \<Rightarrow> ('x, 'a) smartcontracts_state_scheme dispatch_result" where
  "add_smartcontract E X orig contract tables s =
     bind_res (ensure_root_or_permissioned s orig (SmartContractsPallet UpdateABI)) (\<lambda>owner.
     let details = contract_details_of contract; source = cd_source details; address = cd_address details in
     bind_res (ensure (\<not> sm_contains (ContractStorage s) (source, address)) (SmartContractsError ExistingContractError)) (\<lambda>_.
     let s = s\<lparr>ContractStorage := sm_insert (source, address) contract (ContractStorage s)\<rparr> in
     bind_res (bounded_try_from MAX_CONTRACT_TABLES (map (\<lambda>t. (ut_ident t, ut_table_type t)) tables)
       (SmartContractsError TooManyTables)) (\<lambda>table_ids.
     let s = s\<lparr>ContractTables := sm_insert (source, address) table_ids (ContractTables s)\<rparr>;
         s = (case cd_starting_block details of
                Some start_block \<Rightarrow> s\<lparr>BlockNumbers := fold (\<lambda>(ident, _). sm_insert ident start_block) table_ids (BlockNumbers s)\<rparr>
              | None \<Rightarrow> s) in
     bind_res (ok_or (cd_target_schema details) (SmartContractsError MissingTargetSchema)) (\<lambda>target_schema.
     bind_res (ok_or (cd_ddl_statement details) (SmartContractsError MissingDdlStatement)) (\<lambda>ddl_statement.
     bind_res (create_namespace X orig target_schema 0 ddl_statement SCI source s) (\<lambda>s.
     create_tables_inner E X orig tables (deposit_event (SmartContractAdded owner source address) s)))))))"

datatype smartcontracts_call =
    RemoveSmartcontract source bytes
  | AddSmartcontract contract "update_table list"

fun smartcontracts_dispatch ::
    "('h, 'uh, 'sh, 'd, 'ud, 'sd) sxt_ext \<Rightarrow> sql_ext \<Rightarrow> smartcontracts_call \<Rightarrow> origin
     \<Rightarrow> ('x, 'a) smartcontracts_state_scheme \<Rightarrow> ('x, 'a) smartcontracts_state_scheme dispatch_result" where
  "smartcontracts_dispatch E X (RemoveSmartcontract source address) orig s = remove_smartcontract orig source address s"
| "smartcontracts_dispatch E X (AddSmartcontract contract tables) orig s = add_smartcontract E X orig contract tables s"

section \<open>Dropping the tables of a contract\<close>

definition dropped :: "'a tables_state_scheme \<Rightarrow> 'a tables_state_scheme \<Rightarrow> bool" where
  "dropped s s' \<longleftrightarrow> (\<exists>a b c d. s' = s\<lparr>Identifiers := a, Schemas := b, TableInsertQuorums := c, CommitmentStorageMap := d\<rparr>)"

lemma dropped_refl: "dropped s s"
proof -
  have "s = s\<lparr>Identifiers := Identifiers s, Schemas := Schemas s, TableInsertQuorums := TableInsertQuorums s,
      CommitmentStorageMap := CommitmentStorageMap s\<rparr>" by simp
  then show ?thesis unfolding dropped_def by blast
qed

lemma dropped_trans: "dropped s s1 \<Longrightarrow> dropped s1 s2 \<Longrightarrow> dropped s s2"
proof -
  assume "dropped s s1" "dropped s1 s2"
  then obtain a b c d a' b' c' d' where
    s1: "s1 = s\<lparr>Identifiers := a, Schemas := b, TableInsertQuorums := c, CommitmentStorageMap := d\<rparr>"
    and s2: "s2 = s1\<lparr>Identifiers := a', Schemas := b', TableInsertQuorums := c', CommitmentStorageMap := d'\<rparr>"
    unfolding dropped_def by blast
  have "s2 = s\<lparr>Identifiers := a', Schemas := b', TableInsertQuorums := c', CommitmentStorageMap := d'\<rparr>"
    by (simp add: s1 s2)
  then show ?thesis unfolding dropped_def by blast
qed

lemma drop_single_table_dropped:
  assumes "drop_single_table ty ident s = Ok s1"
  shows "dropped s (remove_commits ident s1)"
proof -
  obtain m where m: "remove_commits ident s1 = s1\<lparr>CommitmentStorageMap := m\<rparr>" using remove_commits_frame by blast
  have "\<exists>a b c. s1 = s\<lparr>Identifiers := a, Schemas := b, TableInsertQuorums := c\<rparr>"
  proof -
    have "s\<lparr>Identifiers := a, Schemas := b\<rparr> = s\<lparr>Identifiers := a, Schemas := b, TableInsertQuorums := TableInsertQuorums s\<rparr>" for a b
      by simp
    then show ?thesis using assms unfolding drop_single_table_Ok by metis
  qed
  then show ?thesis unfolding dropped_def m by auto
qed

lemma schema_of_remove_commits: "schema_of (remove_commits ident s) = schema_of s"
  using remove_commits_frame[of ident s] by (auto simp: schema_of_def fun_eq_iff)

lemma drop_contract_tables_Ok:
  assumes "drop_contract_tables ts s = Ok s'"
  shows "schema_of s' = (\<lambda>t. if t \<in> fst ` set ts then None else schema_of s t)
    \<and> stored s' = (\<lambda>t. if t \<in> fst ` set ts then per_default else stored s t)
    \<and> distinct (map fst ts) \<and> (\<forall>t \<in> fst ` set ts. schema_of s t \<noteq> None) \<and> dropped s s'"
  using assms
proof (induction ts arbitrary: s)
  case (Cons x ts)
  obtain ident ty where x: "x = (ident, ty)" by (cases x)
  obtain s1 where s1: "drop_single_table ty ident s = Ok s1" and rest: "drop_contract_tables ts (remove_commits ident s1) = Ok s'"
    using Cons.prems by (auto simp: x bind_res_Ok_iff)
  note e = drop_single_table_effect[OF s1]
  have st: "stored (remove_commits ident s1) = (stored s)(ident := per_default)"
    using stored_remove_commits[of ident s1] stored_frame(1)[OF e(10)] by simp
  have IH: "schema_of s' = (\<lambda>t. if t \<in> fst ` set ts then None else ((schema_of s)(ident := None)) t)"
    "stored s' = (\<lambda>t. if t \<in> fst ` set ts then per_default else ((stored s)(ident := per_default)) t)"
    "distinct (map fst ts)" "\<forall>t \<in> fst ` set ts. ((schema_of s)(ident := None)) t \<noteq> None" "dropped (remove_commits ident s1) s'"
    using Cons.IH[OF rest] unfolding schema_of_remove_commits e(4) st by blast+
  have new: "ident \<notin> fst ` set ts" using IH(4) by auto
  moreover have "schema_of s t \<noteq> None" if "t \<in> fst ` set ts" for t
    using IH(4) that new by (metis fun_upd_other)
  ultimately show ?case
    using IH(1-3) e(2) dropped_trans[OF drop_single_table_dropped[OF s1] IH(5)] by (auto simp: x fun_eq_iff)
qed (simp add: dropped_refl)

lemma drop_contract_tables_Err: "drop_contract_tables ts s = Err e \<Longrightarrow> e = TablesError TableNotFound"
  by (induction ts arbitrary: s)
    (auto simp: bind_res_def drop_single_table_def Let_def split: result.splits if_splits)

lemma drop_contract_tables_not_Panic: "drop_contract_tables ts s \<noteq> Panic"
proof (induction ts arbitrary: s)
  case (Cons x ts)
  have "drop_single_table ty ident s \<noteq> Panic" for ty ident
    by (auto simp: drop_single_table_def Let_def bind_res_def split: result.splits if_splits)
  then show ?case using Cons by (cases x) (auto simp: bind_res_def split: result.splits)
qed simp

section \<open>Effects of the calls\<close>

text \<open>The tables recorded for a contract.\<close>

definition contract_tables :: "('x, 'a) smartcontracts_state_scheme \<Rightarrow> source \<Rightarrow> bytes \<Rightarrow> (table_identifier \<times> table_type) list" where
  "contract_tables s source address = sm_get_or [] (ContractTables s) (source, address)"

lemma create_one_table_contracts:
  assumes "create_one_table E X s table = Ok (s', table')"
  shows "ContractStorage s' = ContractStorage s \<and> ContractTables s' = ContractTables s \<and> BlockNumbers s' = BlockNumbers s"
  using assms
  by (rule create_one_table_Ok) (auto simp: insert_table_uuid_def insert_schema_def Let_def)

lemma create_tables_inner_contracts:
  assumes "create_tables_inner E X orig tables s = Ok s'"
  shows "ContractStorage s' = ContractStorage s \<and> ContractTables s' = ContractTables s \<and> BlockNumbers s' = BlockNumbers s"
proof -
  obtain s1 out e where c: "collect_state (create_one_table E X) s tables = Ok (s1, out)" and s': "s' = deposit_event e s1"
    using assms by (auto simp: create_tables_inner_def res_Ok_iff)
  let ?I = "\<lambda>s1. ContractStorage s1 = ContractStorage s \<and> ContractTables s1 = ContractTables s \<and> BlockNumbers s1 = BlockNumbers s"
  have "?I s1"
    by (rule collect_state_invariant[where I = ?I, OF _ _ c]) (auto dest: create_one_table_contracts)
  then show ?thesis by (simp add: s' deposit_event_def)
qed

lemma create_namespace_frame:
  "create_namespace X orig nam v st ty src s = Ok s' \<Longrightarrow>
     permitted s orig (TablesPallet EditSchema) \<and> (\<exists>e m. s' = deposit_event e (s\<lparr>NamespaceVersions := m\<rparr>))"
  by (auto simp: create_namespace_def insert_namespace_uuid_def bind_res_Ok_iff ensure_root_or_permissioned_Ok split: if_splits)

lemma add_smartcontract_Ok:
  assumes "add_smartcontract E X orig contract tables s = Ok s'"
  defines "k \<equiv> (cd_source (contract_details_of contract), cd_address (contract_details_of contract))"
  obtains s2 where "permitted s orig (SmartContractsPallet UpdateABI)" "permitted s orig (TablesPallet EditSchema)"
    "\<not> sm_contains (ContractStorage s) k" "length tables \<le> MAX_CONTRACT_TABLES"
    "create_tables_inner E X orig tables s2 = Ok s'"
    "ContractStorage s' = sm_insert k contract (ContractStorage s)"
    "ContractTables s' = sm_insert k (map (\<lambda>t. (ut_ident t, ut_table_type t)) tables) (ContractTables s)"
    "tables_inv s2 = tables_inv s"
proof -
  let ?ids = "map (\<lambda>t. (ut_ident t, ut_table_type t)) tables"
  define s1 where "s1 = (let s = s\<lparr>ContractStorage := sm_insert k contract (ContractStorage s)\<rparr>;
       s = s\<lparr>ContractTables := sm_insert k ?ids (ContractTables s)\<rparr>
     in (case cd_starting_block (contract_details_of contract) of
          Some b \<Rightarrow> s\<lparr>BlockNumbers := fold (\<lambda>(ident, _). sm_insert ident b) ?ids (BlockNumbers s)\<rparr>
        | None \<Rightarrow> s))"
  obtain owner nam st s2 where
    p: "ensure_root_or_permissioned s orig (SmartContractsPallet UpdateABI) = Ok owner"
    and k: "\<not> sm_contains (ContractStorage s) k" and len: "length tables \<le> MAX_CONTRACT_TABLES"
    and ns: "create_namespace X orig nam 0 st SCI (fst k) s1 = Ok s2"
    and run: "create_tables_inner E X orig tables (deposit_event (SmartContractAdded owner (fst k) (snd k)) s2) = Ok s'"
    using assms(1) unfolding add_smartcontract_def
    by (auto simp: Let_def res_Ok_iff bounded_try_from_Ok_iff s1_def k_def)
  obtain e m where s2: "s2 = deposit_event e (s1\<lparr>NamespaceVersions := m\<rparr>)" and ed: "permitted s1 orig (TablesPallet EditSchema)"
    using create_namespace_frame[OF ns] by blast
  have s1: "ContractStorage s1 = sm_insert k contract (ContractStorage s)" "ContractTables s1 = sm_insert k ?ids (ContractTables s)"
    "tables_inv s1 = tables_inv s" "permitted s1 orig q = permitted s orig q" for q
    by (simp_all add: s1_def Let_def tables_inv_def schema_of_def permitted_def has_permissions_iff split: option.split origin.split)
  have "permitted s orig (SmartContractsPallet UpdateABI)" using p by (auto simp: ensure_root_or_permissioned_Ok)
  then show ?thesis
    using ed s1 create_tables_inner_contracts[OF run] tables_inv_frame(3,4)
    by (intro that[OF _ _ k len run]) (simp_all add: s2, simp_all add: deposit_event_def)
qed

lemma dropped_contracts:
  "dropped s s' \<Longrightarrow> ContractStorage s' = ContractStorage s \<and> ContractTables s' = ContractTables s"
  by (auto simp: dropped_def)

lemma remove_smartcontract_Ok:
  assumes "remove_smartcontract orig source address s = Ok s'"
  obtains s1 where "permitted s orig (SmartContractsPallet UpdateABI)"
    "drop_contract_tables (contract_tables s source address)
       (s\<lparr>ContractStorage := sm_remove (source, address) (ContractStorage s), ContractTables := ContractTables s1\<rparr>) = Ok s1"
    "sm_get (ContractTables s1) = (sm_get (ContractTables s))((source, address) := None)"
    "ContractStorage s1 = sm_remove (source, address) (ContractStorage s)"
    "\<exists>e. s' = deposit_event e s1"
proof -
  obtain owner where p: "permitted s orig (SmartContractsPallet UpdateABI)"
    "ensure_root_or_permissioned s orig (SmartContractsPallet UpdateABI) = Ok owner"
    using assms by (auto simp: remove_smartcontract_def bind_res_Ok_iff ensure_root_or_permissioned_Ok)
  let ?s = "s\<lparr>ContractStorage := sm_remove (source, address) (ContractStorage s)\<rparr>"
  show ?thesis
  proof (cases "sm_get (ContractTables s) (source, address)")
    case None
    then have "s' = deposit_event (SmartContractRemoved owner source address) ?s"
      using assms p(2) by (simp add: remove_smartcontract_def)
    with None show ?thesis
      by (intro that[OF p(1), of ?s]) (auto simp: contract_tables_def sm_get_or_def)
  next
    case (Some ts)
    let ?s2 = "?s\<lparr>ContractTables := sm_remove (source, address) (ContractTables s)\<rparr>"
    obtain s1 where s1: "drop_contract_tables ts ?s2 = Ok s1" "s' = deposit_event (SmartContractRemoved owner source address) s1"
      using assms p(2) Some by (auto simp: remove_smartcontract_def bind_res_Ok_iff)
    have "dropped ?s2 s1" using drop_contract_tables_Ok[OF s1(1)] by blast
    then have "ContractStorage s1 = sm_remove (source, address) (ContractStorage s)"
      "ContractTables s1 = sm_remove (source, address) (ContractTables s)"
      using dropped_contracts by fastforce+
    with s1 Some show ?thesis
      by (intro that[OF p(1), of s1]) (auto simp: contract_tables_def sm_get_or_def fun_eq_iff)
  qed
qed

lemma drop_contract_tables_inv: "tables_inv s \<Longrightarrow> drop_contract_tables ts s = Ok s' \<Longrightarrow> tables_inv s'"
proof (induction ts arbitrary: s)
  case (Cons x ts)
  obtain ident ty where x: "x = (ident, ty)" by (cases x)
  obtain s1 where "drop_single_table ty ident s = Ok s1" "drop_contract_tables ts (remove_commits ident s1) = Ok s'"
    using Cons.prems(2) by (auto simp: x bind_res_Ok_iff)
  then show ?case using Cons.IH[of "remove_commits ident s1"] drop_single_table_inv[OF Cons.prems(1)] by simp
qed simp

lemma remove_smartcontract_not_Panic: "remove_smartcontract orig source address s \<noteq> Panic"
  by (cases "ensure_root_or_permissioned s orig (SmartContractsPallet UpdateABI)")
    (auto simp: remove_smartcontract_def Let_def bind_res_def drop_contract_tables_not_Panic split: option.splits result.splits)

section \<open>Invariant\<close>

definition smartcontracts_inv :: "('x, 'a) smartcontracts_state_scheme \<Rightarrow> bool" where
  "smartcontracts_inv s \<longleftrightarrow> tables_inv s
     \<and> (\<forall>k. sm_contains (ContractStorage s) k \<longleftrightarrow> sm_contains (ContractTables s) k)
     \<and> (\<forall>k ts. sm_get (ContractTables s) k = Some ts \<longrightarrow> length ts \<le> MAX_CONTRACT_TABLES)"

fun smartcontracts_allowed :: "smartcontracts_call \<Rightarrow> origin \<Rightarrow> ('x, 'a) smartcontracts_state_scheme \<Rightarrow> bool" where
  "smartcontracts_allowed (RemoveSmartcontract _ _) orig s \<longleftrightarrow> permitted s orig (SmartContractsPallet UpdateABI)"
| "smartcontracts_allowed (AddSmartcontract _ _) orig s \<longleftrightarrow> permitted s orig (SmartContractsPallet UpdateABI)"

lemma remove_smartcontract_inv:
  assumes "smartcontracts_inv s" "remove_smartcontract orig source address s = Ok s'"
  shows "smartcontracts_inv s'"
proof (rule remove_smartcontract_Ok[OF assms(2)])
  fix s1 assume run: "drop_contract_tables (contract_tables s source address)
       (s\<lparr>ContractStorage := sm_remove (source, address) (ContractStorage s), ContractTables := ContractTables s1\<rparr>) = Ok s1"
    and t: "sm_get (ContractTables s1) = (sm_get (ContractTables s))((source, address) := None)"
    and c: "ContractStorage s1 = sm_remove (source, address) (ContractStorage s)" and s': "\<exists>e. s' = deposit_event e s1"
  have "tables_inv s1"
    by (rule drop_contract_tables_inv[OF _ run]) (use assms(1) in \<open>simp add: smartcontracts_inv_def tables_inv_def schema_of_def\<close>)
  moreover have "ContractStorage s' = ContractStorage s1" "ContractTables s' = ContractTables s1" "tables_inv s' = tables_inv s1"
    using s' by (auto simp: deposit_event_def[of _ s1] tables_inv_frame(4)[unfolded deposit_event_def])
  ultimately show ?thesis
    using assms(1) t c by (auto simp: smartcontracts_inv_def sm_contains_def)
qed

lemma add_smartcontract_inv:
  assumes "smartcontracts_inv s" "add_smartcontract E X orig contract tables s = Ok s'"
  shows "smartcontracts_inv s'"
proof (rule add_smartcontract_Ok[OF assms(2)])
  fix s2 assume "length tables \<le> MAX_CONTRACT_TABLES" "create_tables_inner E X orig tables s2 = Ok s'" "tables_inv s2 = tables_inv s"
    "ContractStorage s' = sm_insert (cd_source (contract_details_of contract), cd_address (contract_details_of contract)) contract (ContractStorage s)"
    "ContractTables s' = sm_insert (cd_source (contract_details_of contract), cd_address (contract_details_of contract))
       (map (\<lambda>t. (ut_ident t, ut_table_type t)) tables) (ContractTables s)"
  then show ?thesis using assms(1) create_tables_inner_inv[of s2] by (auto simp: smartcontracts_inv_def split: if_splits)
qed

interpretation smartcontracts: invariant_pallet "smartcontracts_dispatch E X" smartcontracts_inv for E X
proof (unfold_locales, goal_cases)
  case (1 s c orig s')
  then show ?case by (cases c) (auto intro: remove_smartcontract_inv add_smartcontract_inv)
qed

interpretation smartcontracts_guard: guarded_pallet "smartcontracts_dispatch E X" smartcontracts_allowed for E X
proof (unfold_locales, goal_cases)
  case (1 c orig s)
  then show ?case
    by (cases c) (auto simp: remove_smartcontract_def add_smartcontract_def intro: bind_permission_denied)
qed

section \<open>Properties\<close>

text \<open>
  Contracts and their tables stay in step under every sequence of additions and removals: a
  contract is stored exactly when its list of tables is, a list has at most 1024 tables, and the
  storage of the tables pallet stays consistent. Origins without the right to update ABIs
  change nothing.
\<close>

theorem smartcontracts_consistent:
  assumes "smartcontracts_inv s"
  shows "smartcontracts_inv (run_extrinsics (smartcontracts_dispatch E X) xs s)
     \<and> (list_ex (\<lambda>(c, orig). smartcontracts_allowed c orig s) xs \<or> run_extrinsics (smartcontracts_dispatch E X) xs s = s)"
  using smartcontracts.run_inv[OF assms] smartcontracts_guard.run_denied[of xs s E X] by (auto simp: list_ex_iff)

text \<open>
  C32. Removing a contract: with the right to update ABIs it succeeds when every table recorded for it
  can be dropped, one after the other. Then the contract and its list are gone, each of its tables
  has lost schema and commitments, and no other contract or table has changed. Otherwise the
  call fails because a table was not found, and it never panics.
\<close>

theorem remove_smartcontract_correct:
  "case remove_smartcontract orig source address s of
     Ok s' \<Rightarrow> permitted s orig (SmartContractsPallet UpdateABI)
       \<and> distinct (map fst (contract_tables s source address))
       \<and> list_all (\<lambda>(t, _). schema_of s t \<noteq> None) (contract_tables s source address)
       \<and> schema_of s' = (\<lambda>t. if t \<in> fst ` set (contract_tables s source address) then None else schema_of s t)
       \<and> stored s' = (\<lambda>t. if t \<in> fst ` set (contract_tables s source address) then per_default else stored s t)
       \<and> sm_get (ContractStorage s') = (sm_get (ContractStorage s))((source, address) := None)
       \<and> sm_get (ContractTables s') = (sm_get (ContractTables s))((source, address) := None)
   | Err e \<Rightarrow> (if permitted s orig (SmartContractsPallet UpdateABI) then e = TablesError TableNotFound
       else ensure_root_or_permissioned s orig (SmartContractsPallet UpdateABI) = Err e)
   | Panic \<Rightarrow> False"
proof (cases "remove_smartcontract orig source address s")
  case (Ok s')
  show ?thesis
  proof (rule remove_smartcontract_Ok[OF Ok])
    fix s1 assume p: "permitted s orig (SmartContractsPallet UpdateABI)" and run: "drop_contract_tables (contract_tables s source address)
         (s\<lparr>ContractStorage := sm_remove (source, address) (ContractStorage s), ContractTables := ContractTables s1\<rparr>) = Ok s1"
      and t: "sm_get (ContractTables s1) = (sm_get (ContractTables s))((source, address) := None)"
      and c: "ContractStorage s1 = sm_remove (source, address) (ContractStorage s)" and s': "\<exists>e. s' = deposit_event e s1"
    let ?s = "s\<lparr>ContractStorage := sm_remove (source, address) (ContractStorage s), ContractTables := ContractTables s1\<rparr>"
    have same: "schema_of ?s = schema_of s" "stored ?s = stored s" by (simp_all add: schema_of_def fun_eq_iff)
    have after: "schema_of s' = schema_of s1" "stored s' = stored s1" "ContractStorage s' = ContractStorage s1"
      "ContractTables s' = ContractTables s1"
      using s' by (auto simp: deposit_event_def schema_of_def fun_eq_iff)
    show ?thesis
      using drop_contract_tables_Ok[OF run, unfolded same] p t
      by (simp add: Ok after c list_all_iff case_prod_beta fun_eq_iff)
  qed
next
  case (Err e)
  show ?thesis
  proof (cases "permitted s orig (SmartContractsPallet UpdateABI)")
    case True
    then obtain owner where "ensure_root_or_permissioned s orig (SmartContractsPallet UpdateABI) = Ok owner"
      by (auto simp: ensure_root_or_permissioned_Ok)
    with Err have "e = TablesError TableNotFound"
      by (auto simp: remove_smartcontract_def Let_def bind_res_def split: option.splits result.splits dest: drop_contract_tables_Err)
    with Err True show ?thesis by simp
  next
    case False
    with Err show ?thesis
      using ensure_root_or_permissioned_denied[OF False] by (auto simp: remove_smartcontract_def)
  qed
next
  case Panic
  then show ?thesis using remove_smartcontract_not_Panic by blast
qed

text \<open>
  C35. A contract gets stuck once one of its tables has been dropped through the tables pallet: every
  removal fails, by root too, and so does every attempt to add the contract again.
\<close>

theorem contract_stuck:
  assumes "sm_contains (ContractStorage s) (source, address)"
    and "list_ex (\<lambda>(t, _). schema_of s t = None) (contract_tables s source address)"
    and "cd_source (contract_details_of contract) = source" "cd_address (contract_details_of contract) = address"
  shows "(\<exists>e. remove_smartcontract orig source address s = Err e) \<and> (\<exists>e. add_smartcontract E X orig contract tables s = Err e)"
proof
  have "remove_smartcontract orig source address s \<noteq> Ok s'" for s'
  proof
    assume run: "remove_smartcontract orig source address s = Ok s'"
    show False
    proof (rule remove_smartcontract_Ok[OF run])
      fix s1 assume r: "drop_contract_tables (contract_tables s source address)
           (s\<lparr>ContractStorage := sm_remove (source, address) (ContractStorage s), ContractTables := ContractTables s1\<rparr>) = Ok s1"
      show False
        using drop_contract_tables_Ok[OF r] assms(2) by (auto simp: list_ex_iff schema_of_def)
    qed
  qed
  moreover have "remove_smartcontract orig source address s \<noteq> Panic" by (rule remove_smartcontract_not_Panic)
  ultimately show "\<exists>e. remove_smartcontract orig source address s = Err e"
    by (cases "remove_smartcontract orig source address s") auto
  show "\<exists>e. add_smartcontract E X orig contract tables s = Err e"
    using assms by (cases "ensure_root_or_permissioned s orig (SmartContractsPallet UpdateABI)")
      (auto simp: add_smartcontract_def Let_def)
qed

section \<open>An example chain\<close>

definition demo_details :: contract_details where
  "demo_details = \<lparr>cd_source = Ethereum, cd_address = ''0xA'', cd_abi = None, cd_starting_block = Some 5, cd_target_schema = Some ''N'',
     cd_contract_name = None, cd_event_details = None, cd_ddl_statement = Some ''s''\<rparr>"

definition demo_contract_state :: "(account_id \<Rightarrow> u128) smartcontracts_state" where
  "demo_contract_state = indexing_state.extend demo_indexing_state (smartcontracts_state.fields
     [((Ethereum, ''0xA''), Normal demo_details)] [((Ethereum, ''0xA''), [(demo_other_table, SCI)])])"

lemmas demo_contract_defs = demo_contract_state_def smartcontracts_state.defs demo_indexing_defs

lemma demo_contract_inv: "smartcontracts_inv demo_contract_state"
proof -
  have "schema_of demo_contract_state t = (if t = demo_table_id then Some ''s'' else None)" for t
    by (cases t) (auto simp: schema_of_def demo_contract_defs sm_get_def demo_table_id_def)
  then show ?thesis
    by (auto simp: smartcontracts_inv_def tables_inv_def sm_contains_def)
      (auto simp: demo_contract_defs sm_get_def MAX_IDENTIFIERS_PER_SOURCE_AND_MODE_def CREATE_STMNT_LENGTH_def
        MAX_CONTRACT_TABLES_def split: if_splits)
qed

theorem smartcontracts_consistent_witness:
  "smartcontracts_inv (run_extrinsics (smartcontracts_dispatch demo_ext demo_sql)
     [(AddSmartcontract (Normal demo_details) [], Root), (RemoveSmartcontract Ethereum ''0xB'', Root)] demo_contract_state)"
  using smartcontracts_consistent[OF demo_contract_inv] by blast

theorem contract_stuck_witness:
  "(\<exists>e. remove_smartcontract Root Ethereum ''0xA'' demo_contract_state = Err e)
     \<and> (\<exists>e. add_smartcontract demo_ext demo_sql Root (Normal demo_details) [] demo_contract_state = Err e)"
  by (rule contract_stuck)
    (simp_all add: demo_contract_defs demo_details_def sm_contains_def sm_get_def contract_tables_def sm_get_or_def
      schema_of_def demo_other_table_def)

end
