(* ===== verification/Pallet_Rewards.thy ===== *)
theory Pallet_Rewards
  imports Pallet_Smartcontracts
begin

text \<open>
  \<open>pallets/rewards\<close>: at the start of every block, validators that still have unpaid pages of
  rewards for the oldest unpaid era are paid a page each, at most three per block, and the era is
  closed when none is left.
\<close>

section \<open>External code\<close>

record weight =
  ref_time :: u64
  proof_size :: u64

definition weight_zero :: weight where
  "weight_zero = \<lparr>ref_time = 0, proof_size = 0\<rparr>"

definition weight_saturating_add :: "weight \<Rightarrow> weight \<Rightarrow> weight" where
  "weight_saturating_add a b =
     \<lparr>ref_time = saturating_add (ref_time a) (ref_time b), proof_size = saturating_add (proof_size a) (proof_size b)\<rparr>"

text \<open>The staking pallet: active era, reward points of an era, unpaid pages, and the payout of a page.\<close>

record 'x rewards_ext =
  rx_active_era :: "'x \<Rightarrow> u32 option"
  rx_eras_reward_points :: "'x \<Rightarrow> u32 \<Rightarrow> (account_id \<times> u32) list"
  rx_pending_rewards :: "'x \<Rightarrow> u32 \<Rightarrow> account_id \<Rightarrow> bool"
  rx_payout_stakers :: "account_id \<Rightarrow> account_id \<Rightarrow> u32 \<Rightarrow> ('x, unit) row_step"
  rx_single_call_weight :: weight

section \<open>State\<close>

record 'x rewards_state = "'x smartcontracts_state" +
  NextPaidEra :: u32
  PayerAccount :: "account_id option"

definition MaxPayoutsPerBlock :: nat where "MaxPayoutsPerBlock = 3"

section \<open>Operations\<close>

definition set_payer_account ::
    "origin \<Rightarrow> account_id \<Rightarrow> ('x, 'a) rewards_state_scheme \<Rightarrow> ('x, 'a) rewards_state_scheme dispatch_result" where
  "set_payer_account orig payer s =
     bind_res (ensure_root orig) (\<lambda>_.
     Ok (deposit_event (PayerUpdated payer) (s\<lparr>PayerAccount := Some payer\<rparr>)))"

text \<open>
  The iterator over the validators: filtered, cut off after \<open>max_payouts\<close> and mapped one by one, so
  that each check sees the payouts before it. The weights of the calls are reduced to their sum.
\<close>

fun payouts ::
    "'x rewards_ext \<Rightarrow> account_id \<Rightarrow> u32 \<Rightarrow> nat \<Rightarrow> (account_id \<times> u32) list \<Rightarrow> weight option
     \<Rightarrow> ('x, 'a) rewards_state_scheme \<Rightarrow> (('x, 'a) rewards_state_scheme \<times> weight option) dispatch_result" where
  "payouts R payer era max_payouts [] w s = Ok (s, w)"
| "payouts R payer era max_payouts ((validator, points) # rest) w s =
     (if max_payouts = 0 then Ok (s, w)
      else if rx_pending_rewards R (Substrate s) era validator then
        (let w = Some (case w of None \<Rightarrow> rx_single_call_weight R | Some w \<Rightarrow> weight_saturating_add w (rx_single_call_weight R)) in
         case substrate (rx_payout_stakers R payer validator era) s of
           (s, Ok _) \<Rightarrow> payouts R payer era (max_payouts - 1) rest w (deposit_event (Payout validator) s)
         | (s, Err err) \<Rightarrow> payouts R payer era (max_payouts - 1) rest w (deposit_event (PayoutError validator err) s)
         | (s, Panic) \<Rightarrow> Panic)
      else payouts R payer era max_payouts rest w s)"

definition on_initialize ::
    "'x rewards_ext \<Rightarrow> ('x, 'a) rewards_state_scheme \<Rightarrow> (('x, 'a) rewards_state_scheme \<times> weight) dispatch_result" where
  "on_initialize R s =
     (let total_weight = weight_zero;
          active_era = NextPaidEra s;
          current_era = (case rx_active_era R (Substrate s) of None \<Rightarrow> 0 | Some index \<Rightarrow> index)
      in if active_era \<ge> current_era then Ok (s, total_weight)
         else let s = deposit_event (RewardsStatus current_era active_era) s;
                  rewards_for_era = rx_eras_reward_points R (Substrate s) active_era
              in (case PayerAccount s of
                   None \<Rightarrow> Ok (deposit_event (SetupError (RewardsError NoPayerSet)) s, total_weight)
                 | Some payer \<Rightarrow>
                     bind_res (payouts R payer active_era MaxPayoutsPerBlock rewards_for_era None s) (\<lambda>(s, w).
                     let reward_weight = (case w of None \<Rightarrow> weight_zero | Some w \<Rightarrow> w);
                         s = (if reward_weight = weight_zero
                              then (deposit_event (EraPaid active_era) s)\<lparr>NextPaidEra := active_era + 1\<rparr>
                              else s)
                     in Ok (s, total_weight))))"

section \<open>Blocks\<close>

text \<open>The hook of consecutive blocks.\<close>

fun run_blocks ::
    "'x rewards_ext \<Rightarrow> nat \<Rightarrow> ('x, 'a) rewards_state_scheme \<Rightarrow> ('x, 'a) rewards_state_scheme dispatch_result" where
  "run_blocks R 0 s = Ok s"
| "run_blocks R (Suc n) s = bind_res (on_initialize R s) (\<lambda>(s, _). run_blocks R n s)"

text \<open>
  What the staking pallet documents of paged rewards: a payout of a validator with unpaid pages
  pays one of them, and changes neither the active era nor the reward points.
\<close>

definition staking_laws :: "'x rewards_ext \<Rightarrow> ('x \<Rightarrow> u32 \<Rightarrow> account_id \<Rightarrow> nat) \<Rightarrow> bool" where
  "staking_laws R pages \<longleftrightarrow> rx_single_call_weight R \<noteq> weight_zero
     \<and> (\<forall>x e v. rx_pending_rewards R x e v \<longleftrightarrow> 0 < pages x e v)
     \<and> (\<forall>p x e v. 0 < pages x e v \<longrightarrow> (\<exists>x'. rx_payout_stakers R p v e x = (x', Ok ())
          \<and> pages x' = (pages x)(e := (pages x e)(v := pages x e v - 1))
          \<and> rx_active_era R x' = rx_active_era R x \<and> rx_eras_reward_points R x' = rx_eras_reward_points R x))"

text \<open>The unpaid pages of an era.\<close>

definition unpaid :: "'x rewards_ext \<Rightarrow> ('x \<Rightarrow> u32 \<Rightarrow> account_id \<Rightarrow> nat) \<Rightarrow> 'x \<Rightarrow> u32 \<Rightarrow> nat" where
  "unpaid R pages x e = sum_list (map (\<lambda>(v, _). pages x e v) (rx_eras_reward_points R x e))"

lemma weight_saturating_add_nonzero:
  assumes "a \<noteq> weight_zero"
  shows "weight_saturating_add a b \<noteq> weight_zero"
proof -
  have sat: "saturating_add x y \<noteq> 0" if "x \<noteq> 0" for x y :: u64
  proof
    assume "saturating_add x y = 0"
    then have "min (unat x + unat y) (2 ^ LENGTH(64) - 1) = 0" using unat_saturating_add[of x y] by simp
    then have "unat x = 0" by (simp add: min_def split: if_splits)
    with that show False by (simp add: unat_eq_0)
  qed
  have "ref_time a \<noteq> 0 \<or> proof_size a \<noteq> 0" using assms by (cases a) (auto simp: weight_zero_def)
  then show ?thesis using sat by (auto simp: weight_saturating_add_def weight_zero_def)
qed

text \<open>What paying out for an era leaves alone.\<close>

definition paid :: "'x rewards_ext \<Rightarrow> ('x \<Rightarrow> u32 \<Rightarrow> account_id \<Rightarrow> nat) \<Rightarrow> u32
    \<Rightarrow> ('x, 'a) rewards_state_scheme \<Rightarrow> ('x, 'a) rewards_state_scheme \<Rightarrow> bool" where
  "paid R pages e s s' \<longleftrightarrow> NextPaidEra s' = NextPaidEra s \<and> PayerAccount s' = PayerAccount s
     \<and> rx_active_era R (Substrate s') = rx_active_era R (Substrate s)
     \<and> rx_eras_reward_points R (Substrate s') = rx_eras_reward_points R (Substrate s)
     \<and> (\<forall>e' v. e' = e \<or> pages (Substrate s') e' v = pages (Substrate s) e' v)
     \<and> (\<forall>v. pages (Substrate s') e v \<le> pages (Substrate s) e v)"

lemma paid_refl: "paid R pages e s s"
  by (simp add: paid_def)

lemma paid_trans: "paid R pages e s s1 \<Longrightarrow> paid R pages e s1 s2 \<Longrightarrow> paid R pages e s s2"
  unfolding paid_def using le_trans by (metis (no_types, lifting))

lemma payout_step:
  assumes "staking_laws R pages" "0 < pages (Substrate s) e v"
  obtains s1 where "substrate (rx_payout_stakers R p v e) s = (s1, Ok ())" "paid R pages e s (deposit_event ev s1)"
    "pages (Substrate (deposit_event ev s1)) e v < pages (Substrate s) e v"
proof -
  obtain x where x: "rx_payout_stakers R p v e (Substrate s) = (x, Ok ())"
    "pages x = (pages (Substrate s))(e := (pages (Substrate s) e)(v := pages (Substrate s) e v - 1))"
    "rx_active_era R x = rx_active_era R (Substrate s)" "rx_eras_reward_points R x = rx_eras_reward_points R (Substrate s)"
    using assms unfolding staking_laws_def by blast
  show ?thesis
    using assms(2) x(2-4)
    by (intro that[of "s\<lparr>Substrate := x\<rparr>"]) (auto simp: substrate_def x(1) paid_def deposit_event_def)
qed

lemma payouts_run:
  assumes laws: "staking_laws R pages"
  shows "w \<noteq> Some weight_zero \<Longrightarrow> \<exists>s' w'. payouts R p e k vs w s = Ok (s', w') \<and> paid R pages e s s' \<and> w' \<noteq> Some weight_zero
     \<and> (if k > 0 \<and> (\<exists>v \<in> fst ` set vs. 0 < pages (Substrate s) e v)
         then w' \<noteq> None \<and> (\<exists>v \<in> fst ` set vs. pages (Substrate s') e v < pages (Substrate s) e v)
         else s' = s \<and> w' = w)"
proof (induction vs arbitrary: s w k)
  case Nil
  then show ?case by (simp add: paid_refl)
next
  case (Cons x vs)
  obtain v pts where x: "x = (v, pts)" by (cases x)
  have pend: "rx_pending_rewards R (Substrate s) e v \<longleftrightarrow> 0 < pages (Substrate s) e v"
    using laws by (simp add: staking_laws_def)
  show ?case
  proof (cases "0 < k \<and> 0 < pages (Substrate s) e v")
    case True
    then obtain s1 where s1: "substrate (rx_payout_stakers R p v e) s = (s1, Ok ())" "paid R pages e s (deposit_event (Payout v) s1)"
      "pages (Substrate (deposit_event (Payout v) s1)) e v < pages (Substrate s) e v"
      using payout_step[OF laws] by blast
    let ?w = "Some (case w of None \<Rightarrow> rx_single_call_weight R | Some w \<Rightarrow> weight_saturating_add w (rx_single_call_weight R))"
    have "?w \<noteq> Some weight_zero"
      using laws Cons.prems by (auto simp: staking_laws_def weight_saturating_add_nonzero split: option.split)
    from Cons.IH[OF this, of "k - 1" "deposit_event (Payout v) s1"]
    obtain s' w' where run: "payouts R p e (k - 1) vs ?w (deposit_event (Payout v) s1) = Ok (s', w')"
      and p: "paid R pages e (deposit_event (Payout v) s1) s'" "w' \<noteq> Some weight_zero" "w' \<noteq> None"
      by (auto split: if_splits)
    have "pages (Substrate s') e v < pages (Substrate s) e v"
      using s1(3) p(1) unfolding paid_def by (meson le_less_trans)
    then show ?thesis
      using True pend run s1(1) p paid_trans[OF s1(2) p(1)] by (auto simp: x Let_def)
  next
    case False
    have "payouts R p e k (x # vs) w s = payouts R p e k vs w s"
      using False pend by (cases vs) (auto simp: x)
    moreover have "0 < k \<and> (\<exists>v \<in> fst ` set (x # vs). 0 < pages (Substrate s) e v)
        \<longleftrightarrow> 0 < k \<and> (\<exists>v \<in> fst ` set vs. 0 < pages (Substrate s) e v)"
      using False by (auto simp: x)
    moreover have "fst ` set vs \<subseteq> fst ` set (x # vs)" by auto
    ultimately show ?thesis using Cons.IH[OF Cons.prems, of k s] by (simp only:) (meson subset_iff)
  qed
qed

text \<open>An era with an unpaid page loses one, an era without is closed.\<close>

lemma sum_list_strict_mono_ex:
  fixes f g :: "'b \<Rightarrow> nat"
  assumes "\<And>x. x \<in> set xs \<Longrightarrow> f x \<le> g x" "x \<in> set xs" "f x < g x"
  shows "sum_list (map f xs) < sum_list (map g xs)"
  using assms
proof (induction xs)
  case (Cons y xs)
  have "sum_list (map f xs) \<le> sum_list (map g xs)" using Cons.prems(1) by (intro sum_list_mono) simp
  moreover have "f y \<le> g y" using Cons.prems(1) by simp
  ultimately show ?case using Cons by (cases "x = y") (auto simp: add_less_le_mono add_le_less_mono)
qed simp

lemma on_initialize_step:
  assumes laws: "staking_laws R pages" and payer: "PayerAccount s = Some p"
    and active: "rx_active_era R (Substrate s) = Some a" and less: "NextPaidEra s < a"
  shows "\<exists>s'. on_initialize R s = Ok (s', weight_zero) \<and> PayerAccount s' = Some p \<and> rx_active_era R (Substrate s') = Some a
     \<and> (\<forall>e. e = NextPaidEra s \<or> unpaid R pages (Substrate s') e = unpaid R pages (Substrate s) e)
     \<and> (if unpaid R pages (Substrate s) (NextPaidEra s) = 0 then NextPaidEra s' = NextPaidEra s + 1 \<and> unpaid R pages (Substrate s') (NextPaidEra s) = 0
         else NextPaidEra s' = NextPaidEra s \<and> unpaid R pages (Substrate s') (NextPaidEra s) < unpaid R pages (Substrate s) (NextPaidEra s))"
proof -
  let ?e = "NextPaidEra s" and ?s = "deposit_event (RewardsStatus a (NextPaidEra s)) s"
  let ?vs = "rx_eras_reward_points R (Substrate s) ?e"
  have k: "(MaxPayoutsPerBlock > 0) = True" by (simp add: MaxPayoutsPerBlock_def)
  have same: "Substrate ?s = Substrate s" "PayerAccount ?s = Some p" "NextPaidEra ?s = ?e" using payer by (simp_all add: deposit_event_def)
  obtain s' w' where run: "payouts R p ?e MaxPayoutsPerBlock ?vs None ?s = Ok (s', w')" and pd: "paid R pages ?e ?s s'"
    and w: "w' \<noteq> Some weight_zero"
    and out: "if \<exists>v \<in> fst ` set ?vs. 0 < pages (Substrate s) ?e v
       then w' \<noteq> None \<and> (\<exists>v \<in> fst ` set ?vs. pages (Substrate s') ?e v < pages (Substrate s) ?e v) else s' = ?s \<and> w' = None"
    using payouts_run[OF laws, of None p ?e MaxPayoutsPerBlock ?vs ?s] k by (simp only: same simp_thms option.distinct) blast
  have pts: "rx_eras_reward_points R (Substrate s') = rx_eras_reward_points R (Substrate s)" using pd unfolding paid_def same by blast
  define r where "r = (if w' = None then (deposit_event (EraPaid ?e) s')\<lparr>NextPaidEra := ?e + 1\<rparr> else s')"
  have "on_initialize R s = Ok (r, weight_zero)"
    using less w run by (cases w') (simp_all add: r_def on_initialize_def active Let_def same)
  moreover have "unpaid R pages (Substrate s) ?e = 0 \<longleftrightarrow> w' = None"
    using out by (auto simp: unpaid_def split: if_splits)
  moreover have "unpaid R pages (Substrate r) e = unpaid R pages (Substrate s) e" if "e \<noteq> ?e" for e
  proof -
    have "pages (Substrate s') e = pages (Substrate s) e" using pd that unfolding paid_def same by blast
    then show ?thesis using pts by (simp add: r_def unpaid_def deposit_event_def)
  qed
  moreover have "unpaid R pages (Substrate r) ?e < unpaid R pages (Substrate s) ?e" if "w' \<noteq> None"
  proof -
    obtain y where "y \<in> set ?vs" "pages (Substrate s') ?e (fst y) < pages (Substrate s) ?e (fst y)"
      using out \<open>w' \<noteq> None\<close> by (auto split: if_splits)
    moreover have "pages (Substrate s') ?e v \<le> pages (Substrate s) ?e v" for v using pd unfolding paid_def same by blast
    ultimately have "unpaid R pages (Substrate s') ?e < unpaid R pages (Substrate s) ?e"
      unfolding unpaid_def pts by (intro sum_list_strict_mono_ex[of _ _ _ y]) (auto simp: case_prod_beta)
    then show ?thesis using \<open>w' \<noteq> None\<close> by (auto simp: r_def)
  qed
  moreover have "PayerAccount r = Some p" "rx_active_era R (Substrate r) = Some a" "NextPaidEra r = (if w' = None then ?e + 1 else ?e)"
    using pd active payer unfolding paid_def same by (simp_all add: r_def deposit_event_def)
  moreover have "unpaid R pages (Substrate r) ?e = unpaid R pages (Substrate s) ?e" if "w' = None"
    using out that by (auto simp: r_def same deposit_event_def split: if_splits)
  ultimately show ?thesis by (intro exI[of _ r]) auto
qed

text \<open>
  Blocks that suffice to pay every era before \<open>a\<close>: one for each unpaid page and one to close each era.
\<close>

definition blocks_due ::
    "'x rewards_ext \<Rightarrow> ('x \<Rightarrow> u32 \<Rightarrow> account_id \<Rightarrow> nat) \<Rightarrow> u32 \<Rightarrow> ('x, 'a) rewards_state_scheme \<Rightarrow> nat" where
  "blocks_due R pages a s = (\<Sum>e = unat (NextPaidEra s)..<unat a. unpaid R pages (Substrate s) (word_of_nat e) + 1)"

lemma u32_less_Suc:
  fixes e :: u32
  assumes "e < a"
  shows "x < e + 1 \<longleftrightarrow> x \<le> e"
proof -
  have "unat (e + 1) = Suc (unat e)"
    using assms unsigned_less[where 'a = nat, of a] by (simp add: word_less_nat_alt unat_word_ariths)
  then show ?thesis by (auto simp: word_less_nat_alt word_le_nat_alt)
qed

lemma blocks_due_step:
  assumes "staking_laws R pages" "PayerAccount s = Some p" "rx_active_era R (Substrate s) = Some a" and less: "NextPaidEra s < a"
  shows "\<exists>s'. on_initialize R s = Ok (s', weight_zero) \<and> PayerAccount s' = Some p \<and> rx_active_era R (Substrate s') = Some a
     \<and> NextPaidEra s' \<le> a \<and> blocks_due R pages a s' < blocks_due R pages a s
     \<and> (\<forall>e < NextPaidEra s. unpaid R pages (Substrate s') e = unpaid R pages (Substrate s) e)
     \<and> (NextPaidEra s' = NextPaidEra s \<or> NextPaidEra s' = NextPaidEra s + 1 \<and> unpaid R pages (Substrate s') (NextPaidEra s) = 0)"
proof -
  let ?e = "NextPaidEra s" and ?u = "\<lambda>s e. unpaid R pages (Substrate s) (word_of_nat e) + 1"
  obtain s' where s': "on_initialize R s = Ok (s', weight_zero)" "PayerAccount s' = Some p" "rx_active_era R (Substrate s') = Some a"
    and other: "\<And>e. e \<noteq> ?e \<Longrightarrow> unpaid R pages (Substrate s') e = unpaid R pages (Substrate s) e"
    and this_era: "if unpaid R pages (Substrate s) ?e = 0 then NextPaidEra s' = ?e + 1 \<and> unpaid R pages (Substrate s') ?e = 0
       else NextPaidEra s' = ?e \<and> unpaid R pages (Substrate s') ?e < unpaid R pages (Substrate s) ?e"
    using on_initialize_step[OF assms] by blast
  have lt: "unat ?e < unat a" using less by (simp add: word_less_nat_alt)
  then have suc: "unat (?e + 1) = Suc (unat ?e)" using unsigned_less[where 'a = nat, of a] by (simp add: unat_add_lem[symmetric] unat_word_ariths)
  have rest: "(\<Sum>e = Suc (unat ?e)..<unat a. ?u s' e) = (\<Sum>e = Suc (unat ?e)..<unat a. ?u s e)"
  proof (rule sum.cong[OF refl])
    fix e assume e: "e \<in> {Suc (unat ?e)..<unat a}"
    then have "unat (word_of_nat e :: u32) = e" using unsigned_less[where 'a = nat, of a] by (simp add: unat_of_nat take_bit_nat_eq_self)
    with e have "word_of_nat e \<noteq> ?e" by auto
    then show "?u s' e = ?u s e" using other by simp
  qed
  have due: "blocks_due R pages a s = unpaid R pages (Substrate s) ?e + 1 + (\<Sum>e = Suc (unat ?e)..<unat a. ?u s e)"
    unfolding blocks_due_def using lt by (subst sum.atLeast_Suc_lessThan) simp_all
  have earlier: "\<forall>e < ?e. unpaid R pages (Substrate s') e = unpaid R pages (Substrate s) e" using other by auto
  show ?thesis
  proof (cases "unpaid R pages (Substrate s) ?e = 0")
    case True
    then have n: "NextPaidEra s' = ?e + 1" "unpaid R pages (Substrate s') ?e = 0" using this_era by simp_all
    then have "NextPaidEra s' \<le> a" "blocks_due R pages a s' = (\<Sum>e = Suc (unat ?e)..<unat a. ?u s e)"
      using suc rest lt by (simp_all add: blocks_due_def word_le_nat_alt)
    then show ?thesis using s' due n earlier by auto
  next
    case False
    then have n: "NextPaidEra s' = ?e" "unpaid R pages (Substrate s') ?e < unpaid R pages (Substrate s) ?e" using this_era by simp_all
    then have "blocks_due R pages a s' = unpaid R pages (Substrate s') ?e + 1 + (\<Sum>e = Suc (unat ?e)..<unat a. ?u s e)"
      unfolding blocks_due_def using lt rest by (subst sum.atLeast_Suc_lessThan) simp_all
    then show ?thesis using s' due n less earlier by auto
  qed
qed

lemma run_blocks_pays:
  assumes laws: "staking_laws R pages"
  shows "PayerAccount s = Some p \<Longrightarrow> rx_active_era R (Substrate s) = Some a \<Longrightarrow> NextPaidEra s \<le> a \<Longrightarrow> blocks_due R pages a s \<le> n
     \<Longrightarrow> \<exists>s'. run_blocks R n s = Ok s' \<and> NextPaidEra s' = a
       \<and> (\<forall>e < a. unpaid R pages (Substrate s') e = (if e < NextPaidEra s then unpaid R pages (Substrate s) e else 0))"
proof (induction n arbitrary: s)
  case 0
  then have "\<not> unat (NextPaidEra s) < unat a" by (auto simp: blocks_due_def)
  then have "NextPaidEra s = a" using 0 by (simp add: word_le_nat_alt word_unat_eq_iff)
  then show ?case by simp
next
  case (Suc n)
  show ?case
  proof (cases "NextPaidEra s < a")
    case True
    then obtain s1 where s1: "on_initialize R s = Ok (s1, weight_zero)" "PayerAccount s1 = Some p"
      "rx_active_era R (Substrate s1) = Some a" "NextPaidEra s1 \<le> a" "blocks_due R pages a s1 < blocks_due R pages a s"
      "\<forall>e < NextPaidEra s. unpaid R pages (Substrate s1) e = unpaid R pages (Substrate s) e"
      "NextPaidEra s1 = NextPaidEra s \<or> NextPaidEra s1 = NextPaidEra s + 1 \<and> unpaid R pages (Substrate s1) (NextPaidEra s) = 0"
      using blocks_due_step[OF laws Suc.prems(1,2)] by blast
    then obtain s' where s': "run_blocks R n s1 = Ok s'" "NextPaidEra s' = a"
      "\<forall>e < a. unpaid R pages (Substrate s') e = (if e < NextPaidEra s1 then unpaid R pages (Substrate s1) e else 0)"
      using Suc.IH[OF s1(2-4)] Suc.prems(4) by auto
    have "e < NextPaidEra s + 1 \<longleftrightarrow> e \<le> NextPaidEra s" for e using True by (rule u32_less_Suc)
    then have "(if e < NextPaidEra s1 then unpaid R pages (Substrate s1) e else 0)
        = (if e < NextPaidEra s then unpaid R pages (Substrate s) e else 0)" for e
      using s1(6,7) by (auto simp: order_le_less)
    then show ?thesis using s' s1(1) by simp
  next
    case False
    then have n: "NextPaidEra s = a" using Suc.prems(3) by simp
    then have "blocks_due R pages a s \<le> n" by (simp add: blocks_due_def)
    then show ?thesis using Suc.IH[OF Suc.prems(1-3)] n Suc.prems(2) by (simp add: on_initialize_def)
  qed
qed

section \<open>Properties\<close>


definition demo_rewards_ext :: "(u32 \<Rightarrow> account_id \<Rightarrow> nat) rewards_ext" where
  "demo_rewards_ext =
     \<lparr>rx_active_era = \<lambda>_. Some 2, rx_eras_reward_points = \<lambda>_ _. [(''v'', 10), (''w'', 20)],
      rx_pending_rewards = \<lambda>x e v. 0 < x e v,
      rx_payout_stakers = \<lambda>_ v e x. (x(e := (x e)(v := x e v - 1)), Ok ()),
      rx_single_call_weight = \<lparr>ref_time = 1, proof_size = 1\<rparr>\<rparr>"

definition demo_rewards_state :: "(u32 \<Rightarrow> account_id \<Rightarrow> nat) rewards_state" where
  "demo_rewards_state = smartcontracts_state.extend (indexing_state.extend (system_tables_state.extend
       (tables_state.extend demo_tables_state (system_tables_state.fields 0 0 []
          (\<lambda>e v. if v = ''v'' then 2 else if e = 1 then 1 else 0)))
       (indexing_state.fields [] [] [])) (smartcontracts_state.fields [] [])) (rewards_state.fields 0 (Some ''p''))"

lemmas demo_rewards_defs = demo_rewards_state_def rewards_state.defs smartcontracts_state.defs indexing_state.defs
  system_tables_state.defs tables_state.defs demo_tables_state_def


text \<open>
  The hook reports no weight: the sums of \<open>saturating_add\<close> are computed and dropped, so the total it
  returns is the zero it started from, however many payouts it made.
\<close>

lemma on_initialize_no_weight: "on_initialize R s = Ok (s', w) \<Longrightarrow> w = weight_zero"
  by (auto simp: on_initialize_def Let_def res_Ok_iff split: if_splits option.splits)

text \<open>Only root names the payer, and the payer is all that changes.\<close>

lemma set_payer_account_correct:
  "set_payer_account orig payer s =
     (if ensure_root orig = (Ok () :: unit dispatch_result)
      then Ok (deposit_event (PayerUpdated payer) (s\<lparr>PayerAccount := Some payer\<rparr>)) else Err BadOrigin)"
  by (cases orig) (auto simp: set_payer_account_def)

end
