(* ===== verification/Pallet_System_Contracts.thy ===== *)
theory Pallet_System_Contracts
  imports Pallet_Rewards
begin

text \<open>
  \<open>pallets/system-contracts\<close>: the addresses of the staking and the messaging contract, set at
  genesis and replaced by root. The staking contract becomes part of every attested leaf of a
  staking balance.
\<close>

section \<open>State\<close>

record 'x system_contracts_state = "'x rewards_state" +
  StakingContract :: contract_info
  MessagingContract :: contract_info

section \<open>Genesis\<close>

record system_contracts_genesis =
  gc_staking_contract :: contract_info
  gc_messaging_contract :: contract_info

definition system_contracts_genesis_default :: system_contracts_genesis where
  "system_contracts_genesis_default =
     \<lparr>gc_staking_contract = contract_info_default, gc_messaging_contract = contract_info_default\<rparr>"

definition build_system_contracts ::
    "system_contracts_genesis \<Rightarrow> ('x, 'a) system_contracts_state_scheme \<Rightarrow> ('x, 'a) system_contracts_state_scheme" where
  "build_system_contracts g s =
     s\<lparr>StakingContract := gc_staking_contract g, MessagingContract := gc_messaging_contract g\<rparr>"

section \<open>Operations\<close>

definition set_staking_contract ::
    "origin \<Rightarrow> contract_info \<Rightarrow> ('x, 'a) system_contracts_state_scheme \<Rightarrow> ('x, 'a) system_contracts_state_scheme dispatch_result" where
  "set_staking_contract orig contract_info s =
     bind_res (ensure_root orig) (\<lambda>_.
     Ok (deposit_event (StakingContractUpdated contract_info) (s\<lparr>StakingContract := contract_info\<rparr>)))"

definition set_messaging_contract ::
    "origin \<Rightarrow> contract_info \<Rightarrow> ('x, 'a) system_contracts_state_scheme \<Rightarrow> ('x, 'a) system_contracts_state_scheme dispatch_result" where
  "set_messaging_contract orig contract_info s =
     bind_res (ensure_root orig) (\<lambda>_.
     Ok (deposit_event (MessagingContractUpdated contract_info) (s\<lparr>MessagingContract := contract_info\<rparr>)))"

datatype system_contracts_call =
    SetStakingContract contract_info
  | SetMessagingContract contract_info

fun system_contracts_dispatch ::
    "system_contracts_call \<Rightarrow> origin \<Rightarrow> ('x, 'a) system_contracts_state_scheme
     \<Rightarrow> ('x, 'a) system_contracts_state_scheme dispatch_result" where
  "system_contracts_dispatch (SetStakingContract c) orig s = set_staking_contract orig c s"
| "system_contracts_dispatch (SetMessagingContract c) orig s = set_messaging_contract orig c s"

section \<open>Access\<close>

interpretation system_contracts_guard: guarded_pallet system_contracts_dispatch "\<lambda>c orig s. orig = Root"
proof (unfold_locales, goal_cases)
  case (1 c orig s)
  then show ?case
    by (cases c) (auto simp: set_staking_contract_def set_messaging_contract_def intro: bind_root_denied)
qed

text \<open>The contract in force is the one of the last call of root, or the one of genesis.\<close>

fun last_staking :: "contract_info \<Rightarrow> (system_contracts_call \<times> origin) list \<Rightarrow> contract_info" where
  "last_staking c [] = c"
| "last_staking c ((SetStakingContract c', Root) # xs) = last_staking c' xs"
| "last_staking c (_ # xs) = last_staking c xs"

lemma staking_contract_run:
  "StakingContract (run_extrinsics system_contracts_dispatch xs s) = last_staking (StakingContract s) xs"
  unfolding run_extrinsics_def
proof (induction xs arbitrary: s)
  case (Cons x xs)
  obtain c orig where x: "x = (c, orig)" by (cases x)
  have "StakingContract (dispatch system_contracts_dispatch x s)
      = (case (c, orig) of (SetStakingContract c', Root) \<Rightarrow> c' | _ \<Rightarrow> StakingContract s)"
    by (cases c; cases orig)
      (simp_all add: x dispatch_def set_staking_contract_def set_messaging_contract_def deposit_event_def)
  then show ?case using Cons.IH by (cases c; cases orig) (simp_all add: x)
qed simp

end
