(* ===== verification/Attestation_Tree.thy ===== *)
theory Attestation_Tree
  imports Pallet_System_Contracts
begin

text \<open>
  \<open>attestation_tree\<close>: the Merkle tree over the state that attestors sign. Raw storage entries of the
  commitments and of the balance locks are decoded (\<open>hash_and_key.rs\<close>, \<open>prefix_foliate.rs\<close>), each
  becomes a leaf (\<open>commitment_map_prefix_foliate.rs\<close>, \<open>locks_staking_prefix_foliate.rs\<close>), and the
  tree is built from the hashed leaves (\<open>attestation_tree.rs\<close>), which also proves single leaves.

  The SCALE codec, the storage hashers and the Merkle tree are external; a codec is given by its
  encoding and a decoder that returns the rest of the input.
\<close>

section \<open>External code\<close>

record 'a codec =
  cx_encode :: "'a \<Rightarrow> bytes"
  cx_decode :: "bytes \<Rightarrow> ('a \<times> bytes) option"

text \<open>What is encoded is decoded, for the values \<open>P\<close> of the encoded type.\<close>

definition codec_law :: "('a \<Rightarrow> bool) \<Rightarrow> 'a codec \<Rightarrow> bool" where
  "codec_law P c \<longleftrightarrow> (\<forall>x rest. P x \<longrightarrow> cx_decode c (cx_encode c x @ rest) = Some (x, rest))"

text \<open>Tuples are encoded one component after the other.\<close>

definition codec_pair :: "'a codec \<Rightarrow> 'b codec \<Rightarrow> ('a \<times> 'b) codec" where
  "codec_pair c d =
     \<lparr>cx_encode = \<lambda>(x, y). cx_encode c x @ cx_encode d y,
      cx_decode = \<lambda>bs. case cx_decode c bs of None \<Rightarrow> None
        | Some (x, rest) \<Rightarrow> (case cx_decode d rest of None \<Rightarrow> None | Some (y, rest) \<Rightarrow> Some ((x, y), rest))\<rparr>"

record hasher =
  hx_hash :: "bytes \<Rightarrow> bytes"
  hx_reverse :: "bytes \<Rightarrow> bytes"

text \<open>A reversible hasher ends in the hashed bytes, and reversing removes what is before them.\<close>

definition hasher_law :: "hasher \<Rightarrow> bool" where
  "hasher_law h \<longleftrightarrow> (\<forall>x rest. hx_reverse h (hx_hash h x @ rest) = x @ rest)"

text \<open>The tree works on hexadecimal text: hashing fails on anything else.\<close>

record 't merkle_ext =
  mx_keccak256 :: "bytes \<Rightarrow> (bytes, bytes) result"
  mx_new :: "bytes list \<Rightarrow> ('t, bytes) result"
  mx_locate_leaf :: "'t \<Rightarrow> bytes \<Rightarrow> nat option"
  mx_generate_proof :: "'t \<Rightarrow> nat \<Rightarrow> bytes list"
  mx_root :: "'t \<Rightarrow> bytes option"

section \<open>Storage keys\<close>

text \<open>
  A sequence of hashers and keys, for tuples of any length: the empty sequence and a pair in front
  of a sequence. Keys are nested pairs ending in \<open>()\<close>.
\<close>

record 'k hash_and_key_tuple =
  decode_key_tuple_from_storage_key_suffix :: "bytes \<Rightarrow> ('k \<times> bytes) option"
  storage_key_suffix_from_key_tuple :: "'k \<Rightarrow> bytes"

definition hk_nil :: "unit hash_and_key_tuple" where
  "hk_nil = \<lparr>decode_key_tuple_from_storage_key_suffix = \<lambda>bs. Some ((), bs),
     storage_key_suffix_from_key_tuple = \<lambda>_. []\<rparr>"

definition hk_cons :: "hasher \<Rightarrow> 'a codec \<Rightarrow> 'k hash_and_key_tuple \<Rightarrow> ('a \<times> 'k) hash_and_key_tuple" where
  "hk_cons h c t =
     \<lparr>decode_key_tuple_from_storage_key_suffix = \<lambda>bs.
        (let bs = hx_reverse h bs in
         case cx_decode c bs of None \<Rightarrow> None
         | Some (x, bs) \<Rightarrow>
             (case decode_key_tuple_from_storage_key_suffix t bs of None \<Rightarrow> None | Some (k, bs) \<Rightarrow> Some ((x, k), bs))),
      storage_key_suffix_from_key_tuple = \<lambda>(x, k).
        (let key_bytes = cx_encode c x in hx_hash h key_bytes @ storage_key_suffix_from_key_tuple t k)\<rparr>"

section \<open>Leaves of a storage prefix\<close>

record ('k, 'v) prefix_foliate =
  pf_prefix_hash :: bytes
  pf_hash_and_key_tuple :: "'k hash_and_key_tuple"
  pf_value_codec :: "'v codec"
  leaf_encode_key :: "'k \<Rightarrow> bytes"
  leaf_encode_value :: "'v \<Rightarrow> bytes"

datatype decode_storage_error =
  UnexpectedStoragePrefix | UnexpectedKeyBytes | UnexpectedValueBytes | DecodeError

definition strip_prefix :: "bytes \<Rightarrow> bytes \<Rightarrow> bytes option" where
  "strip_prefix p bs = (if take (length p) bs = p then Some (drop (length p) bs) else None)"

definition decode_storage_key_and_value ::
    "('k, 'v) prefix_foliate \<Rightarrow> bytes \<Rightarrow> bytes \<Rightarrow> ('k \<times> 'v, decode_storage_error) result" where
  "decode_storage_key_and_value PF key_bytes value_bytes =
     (let expected_prefix = pf_prefix_hash PF in
     bind_res (ok_or (strip_prefix expected_prefix key_bytes) UnexpectedStoragePrefix) (\<lambda>key_bytes.
     bind_res (ok_or (decode_key_tuple_from_storage_key_suffix (pf_hash_and_key_tuple PF) key_bytes) DecodeError)
       (\<lambda>(key_tuple, key_bytes).
     if key_bytes \<noteq> [] then Err UnexpectedKeyBytes
     else bind_res (ok_or (cx_decode (pf_value_codec PF) value_bytes) DecodeError) (\<lambda>(v, value_bytes).
     if value_bytes \<noteq> [] then Err UnexpectedValueBytes else Ok (key_tuple, v)))))"

definition encode_key_value_leaf :: "('k, 'v) prefix_foliate \<Rightarrow> 'k \<Rightarrow> 'v \<Rightarrow> bytes" where
  "encode_key_value_leaf PF key v = leaf_encode_key PF key @ leaf_encode_value PF v"

definition encode_prefix_leaves ::
    "('k, 'v) prefix_foliate \<Rightarrow> (bytes \<times> bytes) list \<Rightarrow> (bytes list, decode_storage_error) result" where
  "encode_prefix_leaves PF key_value_pairs =
     collect_res (\<lambda>(key_bytes, value_bytes).
       map_ok (\<lambda>(key_tuple, v). encode_key_value_leaf PF key_tuple v) (decode_storage_key_and_value PF key_bytes value_bytes))
       key_value_pairs"

definition storage_key_for_prefix_key_tuple :: "('k, 'v) prefix_foliate \<Rightarrow> 'k \<Rightarrow> bytes" where
  "storage_key_for_prefix_key_tuple PF key_tuple =
     pf_prefix_hash PF @ storage_key_suffix_from_key_tuple (pf_hash_and_key_tuple PF) key_tuple"

section \<open>The attested storage items\<close>

text \<open>A lock of the balances pallet; codecs, hasher and prefixes of the runtime.\<close>

datatype lock_reasons = Fee | Misc | All

record balance_lock =
  bl_id :: bytes
  bl_amount :: u128
  bl_reasons :: lock_reasons

record storage_ext =
  sx_blake2_128_concat :: hasher
  sx_commitments_prefix :: bytes
  sx_locks_prefix :: bytes
  sx_table_identifier :: "table_identifier codec"
  sx_commitment_scheme :: "commitment_scheme codec"
  sx_table_commitment_bytes :: "table_commitment_bytes codec"
  sx_account_id :: "account_id codec"
  sx_locks :: "balance_lock list codec"
  sx_contract_info :: "contract_info codec"

definition ASCII_PERIOD :: char where "ASCII_PERIOD = CHR 0x2E"

text \<open>\<open>namespace.name\<close>, behind its length as a byte (\<open>as u8\<close> keeps the low eight bits).\<close>

definition commitment_leaf_key :: "commitment_scheme codec \<Rightarrow> table_identifier \<times> commitment_scheme \<times> unit \<Rightarrow> bytes" where
  "commitment_leaf_key scheme_codec = (\<lambda>(ident, commitment_scheme, _).
     (let table_identifier_utf8 = ti_namespace ident @ [ASCII_PERIOD] @ ti_name ident;
          table_identifier_length_prefix = char_of (length table_identifier_utf8 mod 256)
      in [table_identifier_length_prefix] @ table_identifier_utf8 @ cx_encode scheme_codec commitment_scheme))"

definition commitment_map_prefix_foliate ::
    "storage_ext \<Rightarrow> (table_identifier \<times> commitment_scheme \<times> unit, table_commitment_bytes) prefix_foliate" where
  "commitment_map_prefix_foliate L =
     \<lparr>pf_prefix_hash = sx_commitments_prefix L,
      pf_hash_and_key_tuple = hk_cons (sx_blake2_128_concat L) (sx_table_identifier L)
        (hk_cons (sx_blake2_128_concat L) (sx_commitment_scheme L) hk_nil),
      pf_value_codec = sx_table_commitment_bytes L,
      leaf_encode_key = commitment_leaf_key (sx_commitment_scheme L),
      leaf_encode_value = (\<lambda>bytes. bytes)\<rparr>"

definition STAKING_BALANCE_LOCK_ID :: bytes where "STAKING_BALANCE_LOCK_ID = ''staking ''"

definition staking_leaf_value :: "balance_lock list \<times> contract_info \<Rightarrow> bytes" where
  "staking_leaf_value = (\<lambda>(locks, info).
     (let chain_id_bytes = to_be_bytes 32 (unat (ci_chain_id info)) in
      replicate 15 (char_of (0::nat))
      @ to_be_bytes 16 (unat (case map_option bl_amount (List.find (\<lambda>balance_lock. bl_id balance_lock = STAKING_BALANCE_LOCK_ID) locks) of
            Some amount \<Rightarrow> amount | None \<Rightarrow> 0))
      @ chain_id_bytes @ ci_address info))"

definition locks_staking_prefix_foliate ::
    "storage_ext \<Rightarrow> (account_id \<times> unit, balance_lock list \<times> contract_info) prefix_foliate" where
  "locks_staking_prefix_foliate L =
     \<lparr>pf_prefix_hash = sx_locks_prefix L,
      pf_hash_and_key_tuple = hk_cons (sx_blake2_128_concat L) (sx_account_id L) hk_nil,
      pf_value_codec = codec_pair (sx_locks L) (sx_contract_info L),
      leaf_encode_key = (\<lambda>(account, _). cx_encode (sx_account_id L) account),
      leaf_encode_value = staking_leaf_value\<rparr>"

section \<open>The tree\<close>

datatype attestation_tree_error =
  DecodeStorage decode_storage_error | PreHashLeaf bytes | CreateTreeFromLeaves bytes

definition attestation_tree_from_prefixes ::
    "'t merkle_ext \<Rightarrow> storage_ext \<Rightarrow> (bytes \<times> bytes) list \<Rightarrow> (bytes \<times> bytes) list \<Rightarrow> bytes
     \<Rightarrow> ('t, attestation_tree_error) result" where
  "attestation_tree_from_prefixes MT L commitment_prefix_iter locks_prefix_iter staking_contract_info =
     bind_res (map_err DecodeStorage (encode_prefix_leaves (commitment_map_prefix_foliate L) commitment_prefix_iter)) (\<lambda>commitment_leaves.
     bind_res (map_err DecodeStorage (encode_prefix_leaves (locks_staking_prefix_foliate L)
       (map (\<lambda>(key, data). (key, data @ staking_contract_info)) locks_prefix_iter))) (\<lambda>locks_leaves.
     bind_res (map_err PreHashLeaf (collect_res (\<lambda>leaf_bytes. mx_keccak256 MT (hex_encode leaf_bytes))
       (commitment_leaves @ locks_leaves))) (\<lambda>pre_hashed_leaves.
     map_err CreateTreeFromLeaves (mx_new MT pre_hashed_leaves))))"

datatype attestation_tree_proof_error = HashLeaf bytes | NoSuchLeaf

definition prove_leaf_pair ::
    "'t merkle_ext \<Rightarrow> ('k, 'v) prefix_foliate \<Rightarrow> 't \<Rightarrow> 'k \<Rightarrow> 'v \<Rightarrow> (bytes list, attestation_tree_proof_error) result" where
  "prove_leaf_pair MT PF attestation_tree key_tuple v =
     (let bytes = encode_key_value_leaf PF key_tuple v in
     bind_res (map_err HashLeaf (mx_keccak256 MT (hex_encode bytes))) (\<lambda>h.
     bind_res (map_err HashLeaf (mx_keccak256 MT h)) (\<lambda>h.
     bind_res (ok_or (mx_locate_leaf MT attestation_tree h) NoSuchLeaf) (\<lambda>leaf_index.
     Ok (mx_generate_proof MT attestation_tree leaf_index)))))"

section \<open>Values of the encoded types\<close>

definition ident_ok :: "table_identifier \<Rightarrow> bool" where
  "ident_ok t \<longleftrightarrow> length (ti_namespace t) \<le> IDENT_LENGTH \<and> length (ti_name t) \<le> IDENT_LENGTH"

definition commitment_ok :: "table_commitment_bytes \<Rightarrow> bool" where
  "commitment_ok b \<longleftrightarrow> length b \<le> TABLE_COMMITMENT_MAX_LENGTH"

definition account_ok :: "account_id \<Rightarrow> bool" where
  "account_ok a \<longleftrightarrow> length a = 32"

definition locks_ok :: "balance_lock list \<Rightarrow> bool" where
  "locks_ok ls \<longleftrightarrow> length ls \<le> 50 \<and> list_all (\<lambda>l. length (bl_id l) = 8) ls"

definition contract_info_ok :: "contract_info \<Rightarrow> bool" where
  "contract_info_ok i \<longleftrightarrow> length (ci_address i) = 20"

text \<open>An \<open>AccountId32\<close> is encoded as its bytes, and a scheme as one byte.\<close>

definition storage_laws :: "storage_ext \<Rightarrow> bool" where
  "storage_laws L \<longleftrightarrow> hasher_law (sx_blake2_128_concat L)
     \<and> codec_law ident_ok (sx_table_identifier L) \<and> codec_law (\<lambda>_. True) (sx_commitment_scheme L)
     \<and> codec_law commitment_ok (sx_table_commitment_bytes L) \<and> codec_law account_ok (sx_account_id L)
     \<and> codec_law locks_ok (sx_locks L) \<and> codec_law contract_info_ok (sx_contract_info L)
     \<and> (\<forall>a. account_ok a \<longrightarrow> cx_encode (sx_account_id L) a = a)"

text \<open>
  Hexadecimal text can be hashed, to hexadecimal text; a tree locates exactly the hashes of the
  texts it was built from.
\<close>

definition merkle_laws :: "'t merkle_ext \<Rightarrow> bool" where
  "merkle_laws MT \<longleftrightarrow> (\<forall>bs. \<exists>h. mx_keccak256 MT (hex_encode bs) = Ok (hex_encode h))
     \<and> (\<forall>xs t h. mx_new MT xs = Ok t \<longrightarrow> (mx_locate_leaf MT t h \<noteq> None \<longleftrightarrow> (\<exists>x \<in> set xs. mx_keccak256 MT x = Ok h)))"

lemma codec_lawD: "codec_law P c \<Longrightarrow> P x \<Longrightarrow> cx_decode c (cx_encode c x @ rest) = Some (x, rest)"
  by (simp add: codec_law_def)

lemma codec_law_pair: "codec_law P c \<Longrightarrow> codec_law Q d \<Longrightarrow> codec_law (\<lambda>(x, y). P x \<and> Q y) (codec_pair c d)"
  by (auto simp: codec_law_def codec_pair_def)

definition key_tuple_law :: "('k \<Rightarrow> bool) \<Rightarrow> 'k hash_and_key_tuple \<Rightarrow> bool" where
  "key_tuple_law P t \<longleftrightarrow> (\<forall>k rest. P k \<longrightarrow>
     decode_key_tuple_from_storage_key_suffix t (storage_key_suffix_from_key_tuple t k @ rest) = Some (k, rest))"

lemma key_tuple_law_nil: "key_tuple_law (\<lambda>_. True) hk_nil"
  by (simp add: key_tuple_law_def hk_nil_def)

lemma key_tuple_law_cons:
  "hasher_law h \<Longrightarrow> codec_law P c \<Longrightarrow> key_tuple_law Q t \<Longrightarrow> key_tuple_law (\<lambda>(x, k). P x \<and> Q k) (hk_cons h c t)"
  by (auto simp: key_tuple_law_def hk_cons_def hasher_law_def codec_law_def Let_def)

section \<open>Interface: leaves of a storage prefix\<close>

text \<open>
  What a prefix promises under \<open>law\<close>, the known facts on external code: entries with keys and
  values of the right types are read back from raw storage. Then the leaves of a storage are the
  leaves of its entries.
\<close>

definition storage_entry :: "('k, 'v) prefix_foliate \<Rightarrow> 'k \<times> 'v \<Rightarrow> bytes \<times> bytes" where
  "storage_entry PF = (\<lambda>(k, v). (storage_key_for_prefix_key_tuple PF k, cx_encode (pf_value_codec PF) v))"

locale prefix_leaves =
  fixes PF :: "('k, 'v) prefix_foliate" and law :: bool and ok :: "'k \<times> 'v \<Rightarrow> bool"
  assumes keys: "law \<Longrightarrow> key_tuple_law (\<lambda>k. \<exists>v. ok (k, v)) (pf_hash_and_key_tuple PF)"
    and vals: "law \<Longrightarrow> codec_law (\<lambda>v. \<exists>k. ok (k, v)) (pf_value_codec PF)"
begin

lemma decode_entry:
  assumes law "ok (k, v)"
  shows "decode_storage_key_and_value PF (storage_key_for_prefix_key_tuple PF k) (cx_encode (pf_value_codec PF) v) = Ok (k, v)"
proof -
  have "decode_key_tuple_from_storage_key_suffix (pf_hash_and_key_tuple PF)
      (storage_key_suffix_from_key_tuple (pf_hash_and_key_tuple PF) k @ []) = Some (k, [])"
    using keys[OF assms(1)] assms(2) unfolding key_tuple_law_def by blast
  moreover have "cx_decode (pf_value_codec PF) (cx_encode (pf_value_codec PF) v @ []) = Some (v, [])"
    using vals[OF assms(1)] assms(2) unfolding codec_law_def by blast
  ultimately show ?thesis
    by (simp add: decode_storage_key_and_value_def storage_key_for_prefix_key_tuple_def strip_prefix_def Let_def)
qed

lemma leaves_of_entries:
  "law \<Longrightarrow> list_all ok kvs \<Longrightarrow>
     encode_prefix_leaves PF (map (storage_entry PF) kvs) = Ok (map (\<lambda>(k, v). encode_key_value_leaf PF k v) kvs)"
  unfolding encode_prefix_leaves_def
  by (induction kvs) (auto simp: storage_entry_def decode_entry)

end

interpretation commitment_leaves: prefix_leaves "commitment_map_prefix_foliate L" "storage_laws L"
  "\<lambda>((t, _), b). ident_ok t \<and> commitment_ok b" for L
proof (unfold_locales, goal_cases)
  case 1
  then have "key_tuple_law (\<lambda>(t, k). ident_ok t \<and> (case k of (sch, u) \<Rightarrow> True \<and> True))
      (pf_hash_and_key_tuple (commitment_map_prefix_foliate L))"
    unfolding commitment_map_prefix_foliate_def prefix_foliate.simps storage_laws_def
    by (intro key_tuple_law_cons key_tuple_law_nil) simp_all
  then show ?case by (auto simp: key_tuple_law_def)
next
  case 2
  then show ?case by (auto simp: storage_laws_def codec_law_def commitment_map_prefix_foliate_def)
qed

interpretation staking_leaves: prefix_leaves "locks_staking_prefix_foliate L" "storage_laws L"
  "\<lambda>((a, _), (ls, i)). account_ok a \<and> locks_ok ls \<and> contract_info_ok i" for L
proof (unfold_locales, goal_cases)
  case 1
  then have "key_tuple_law (\<lambda>(a, u). account_ok a \<and> True) (pf_hash_and_key_tuple (locks_staking_prefix_foliate L))"
    unfolding locks_staking_prefix_foliate_def prefix_foliate.simps storage_laws_def
    by (intro key_tuple_law_cons key_tuple_law_nil) simp_all
  then show ?case by (auto simp: key_tuple_law_def)
next
  case 2
  then have "codec_law (\<lambda>(x, y). locks_ok x \<and> contract_info_ok y) (codec_pair (sx_locks L) (sx_contract_info L))"
    by (intro codec_law_pair) (simp_all add: storage_laws_def)
  then show ?case by (auto simp: codec_law_def locks_staking_prefix_foliate_def)
qed

section \<open>What a leaf determines\<close>

definition ident_text :: "table_identifier \<Rightarrow> bytes" where
  "ident_text t = ti_namespace t @ [ASCII_PERIOD] @ ti_name t"

definition staked :: "balance_lock list \<Rightarrow> u128" where
  "staked ls = (case List.find (\<lambda>l. bl_id l = STAKING_BALANCE_LOCK_ID) ls of Some l \<Rightarrow> bl_amount l | None \<Rightarrow> 0)"

abbreviation commitment_leaf :: "storage_ext \<Rightarrow> table_identifier \<Rightarrow> commitment_scheme \<Rightarrow> table_commitment_bytes \<Rightarrow> bytes" where
  "commitment_leaf L t sch b \<equiv> encode_key_value_leaf (commitment_map_prefix_foliate L) (t, sch, ()) b"

abbreviation staking_leaf :: "storage_ext \<Rightarrow> account_id \<Rightarrow> balance_lock list \<Rightarrow> contract_info \<Rightarrow> bytes" where
  "staking_leaf L a ls i \<equiv> encode_key_value_leaf (locks_staking_prefix_foliate L) (a, ()) (ls, i)"

lemma commitment_leaf_eq:
  "commitment_leaf L t sch b = char_of (length (ident_text t) mod 256) # ident_text t @ cx_encode (sx_commitment_scheme L) sch @ b"
  by (simp add: encode_key_value_leaf_def commitment_map_prefix_foliate_def commitment_leaf_key_def ident_text_def Let_def)

lemma staking_leaf_eq:
  "storage_laws L \<Longrightarrow> account_ok a \<Longrightarrow> staking_leaf L a ls i =
     a @ replicate 15 (char_of (0::nat)) @ to_be_bytes 16 (unat (staked ls)) @ to_be_bytes 32 (unat (ci_chain_id i)) @ ci_address i"
  by (simp add: encode_key_value_leaf_def locks_staking_prefix_foliate_def staking_leaf_value_def staked_def storage_laws_def
      Let_def split: option.split)

lemma ident_text_length: "ident_ok t \<Longrightarrow> 0 < length (ident_text t) \<and> length (ident_text t) < 256"
  by (simp add: ident_ok_def ident_text_def IDENT_LENGTH_def)

lemma char_of_length_inj: "n < 256 \<Longrightarrow> m < 256 \<Longrightarrow> char_of n = char_of m \<longleftrightarrow> n = m" for n m :: nat
  by (simp add: char_of_eq_iff take_bit_eq_mod)

lemma commitment_leaf_inj:
  assumes "storage_laws L" "ident_ok t" "ident_ok t'"
  shows "commitment_leaf L t sch b = commitment_leaf L t' sch' b' \<longleftrightarrow> ident_text t = ident_text t' \<and> sch = sch' \<and> b = b'"
proof
  assume eq: "commitment_leaf L t sch b = commitment_leaf L t' sch' b'"
  then have "length (ident_text t) = length (ident_text t')"
    using ident_text_length[OF assms(2)] ident_text_length[OF assms(3)] by (simp add: commitment_leaf_eq char_of_length_inj)
  then have text_eq: "ident_text t = ident_text t'"
    and rest: "cx_encode (sx_commitment_scheme L) sch @ b = cx_encode (sx_commitment_scheme L) sch' @ b'"
    using eq by (simp_all add: commitment_leaf_eq)
  have "cx_decode (sx_commitment_scheme L) (cx_encode (sx_commitment_scheme L) x @ y) = Some (x, y)" for x y
    using assms(1) by (simp add: storage_laws_def codec_law_def)
  then have "Some (sch, b) = Some (sch', b')" using rest by metis
  then show "ident_text t = ident_text t' \<and> sch = sch' \<and> b = b'" using text_eq by simp
qed (simp add: commitment_leaf_eq)

lemma to_be_bytes_word_inj:
  fixes v w :: "'a::len word"
  assumes "2 ^ LENGTH('a) \<le> (256::nat) ^ n" "to_be_bytes n (unat v) = to_be_bytes n (unat w)"
  shows "v = w"
  using to_be_bytes_inj[of "unat v" n "unat w"] assms unsigned_less[where 'a = nat, of v] unsigned_less[where 'a = nat, of w]
  by (metis less_le_trans unsigned_word_eqI)

lemma staking_leaf_inj:
  assumes "storage_laws L" "account_ok a" "account_ok a'"
  shows "staking_leaf L a ls i = staking_leaf L a' ls' i' \<longleftrightarrow> a = a' \<and> staked ls = staked ls' \<and> i = i'"
proof
  assume "staking_leaf L a ls i = staking_leaf L a' ls' i'"
  then have "a = a'" "to_be_bytes 16 (unat (staked ls)) = to_be_bytes 16 (unat (staked ls'))"
    "to_be_bytes 32 (unat (ci_chain_id i)) = to_be_bytes 32 (unat (ci_chain_id i'))" "ci_address i = ci_address i'"
    using assms by (simp_all add: staking_leaf_eq account_ok_def)
  moreover have "staked ls = staked ls'" by (rule to_be_bytes_word_inj[OF _ calculation(2)]) simp
  moreover have "ci_chain_id i = ci_chain_id i'" by (rule to_be_bytes_word_inj[OF _ calculation(3)]) simp
  ultimately show "a = a' \<and> staked ls = staked ls' \<and> i = i'" by simp
qed (simp add: staking_leaf_eq assms)

text \<open>The length in front of a commitment leaf is never zero, the first byte of an Ethereum account is.\<close>

lemma leaf_kinds_differ:
  assumes "storage_laws L" "ident_ok t" "account_ok a" "hd a = char_of (0::nat)"
  shows "commitment_leaf L t sch b \<noteq> staking_leaf L a ls i"
proof
  assume eq: "commitment_leaf L t sch b = staking_leaf L a ls i"
  have "a \<noteq> []" using assms(3) by (auto simp: account_ok_def)
  then have "hd (staking_leaf L a ls i) = char_of (0::nat)" using assms by (simp add: staking_leaf_eq)
  then have "char_of (length (ident_text t)) = char_of (0::nat)"
    using arg_cong[OF eq, of hd] ident_text_length[OF assms(2)] by (simp add: commitment_leaf_eq)
  then show False using ident_text_length[OF assms(2)] by (simp add: char_of_length_inj)
qed

text \<open>Two tables whose names differ only in where the period stands have the same leaves.\<close>

lemma commitment_leaf_ambiguous:
  "commitment_leaf L \<lparr>ti_name = ''C'', ti_namespace = ''A.B''\<rparr> sch b = commitment_leaf L \<lparr>ti_name = ''B.C'', ti_namespace = ''A''\<rparr> sch b"
  by (simp add: commitment_leaf_eq ident_text_def ASCII_PERIOD_def)

section \<open>The tree of a state\<close>

text \<open>
  The storage entries the tree is built from: the commitments of the state, the locks of the
  balances pallet as given, and the encoded staking contract.
\<close>

definition attestation_tree ::
    "'t merkle_ext \<Rightarrow> storage_ext \<Rightarrow> ('x, 'a) system_contracts_state_scheme \<Rightarrow> (account_id \<times> balance_lock list) list
     \<Rightarrow> ('t, attestation_tree_error) result" where
  "attestation_tree MT L s locks =
     attestation_tree_from_prefixes MT L
       (map (\<lambda>((t, sch), b). storage_entry (commitment_map_prefix_foliate L) ((t, sch, ()), b)) (CommitmentStorageMap s))
       (map (\<lambda>(a, ls). (storage_key_for_prefix_key_tuple (locks_staking_prefix_foliate L) (a, ()), cx_encode (sx_locks L) ls)) locks)
       (cx_encode (sx_contract_info L) (StakingContract s))"

definition storage_typed :: "('x, 'a) system_contracts_state_scheme \<Rightarrow> (account_id \<times> balance_lock list) list \<Rightarrow> bool" where
  "storage_typed s locks \<longleftrightarrow> contract_info_ok (StakingContract s)
     \<and> list_all (\<lambda>((t, sch), b). ident_ok t \<and> commitment_ok b) (CommitmentStorageMap s)
     \<and> list_all (\<lambda>(a, ls). account_ok a \<and> locks_ok ls) locks"

definition attested_leaves ::
    "storage_ext \<Rightarrow> ('x, 'a) system_contracts_state_scheme \<Rightarrow> (account_id \<times> balance_lock list) list \<Rightarrow> bytes list" where
  "attested_leaves L s locks =
     map (\<lambda>((t, sch), b). commitment_leaf L t sch b) (CommitmentStorageMap s)
     @ map (\<lambda>(a, ls). staking_leaf L a ls (StakingContract s)) locks"

lemma collect_res_Ok_map: "(\<And>x. f x = Ok (g x)) \<Longrightarrow> collect_res f xs = Ok (map g xs)"
  by (induction xs) simp_all

lemma commitment_entries_leaves:
  assumes "storage_laws L" "storage_typed s locks"
  shows "encode_prefix_leaves (commitment_map_prefix_foliate L)
      (map (\<lambda>((t, sch), b). storage_entry (commitment_map_prefix_foliate L) ((t, sch, ()), b)) (CommitmentStorageMap s))
    = Ok (map (\<lambda>((t, sch), b). commitment_leaf L t sch b) (CommitmentStorageMap s))"
  using commitment_leaves.leaves_of_entries[OF assms(1), of "map (\<lambda>((t, sch), b). ((t, sch, ()), b)) (CommitmentStorageMap s)"]
    assms(2) by (simp add: storage_typed_def list_all_iff case_prod_unfold comp_def)

lemma lock_entries_leaves:
  assumes "storage_laws L" "storage_typed s locks"
  shows "encode_prefix_leaves (locks_staking_prefix_foliate L) (map (\<lambda>(key, data). (key, data @ cx_encode (sx_contract_info L) (StakingContract s)))
      (map (\<lambda>(a, ls). (storage_key_for_prefix_key_tuple (locks_staking_prefix_foliate L) (a, ()), cx_encode (sx_locks L) ls)) locks))
    = Ok (map (\<lambda>(a, ls). staking_leaf L a ls (StakingContract s)) locks)"
proof -
  have "cx_encode (pf_value_codec (locks_staking_prefix_foliate L)) (ls, i) = cx_encode (sx_locks L) ls @ cx_encode (sx_contract_info L) i" for ls i
    by (simp add: locks_staking_prefix_foliate_def codec_pair_def)
  then show ?thesis
    using staking_leaves.leaves_of_entries[OF assms(1), of "map (\<lambda>(a, ls). ((a, ()), (ls, StakingContract s))) locks"] assms(2)
    by (simp add: storage_typed_def list_all_iff case_prod_unfold comp_def storage_entry_def)
qed

text \<open>With hashing total, the tree is the one over the hashed leaves.\<close>

lemma attestation_tree_eq:
  assumes "storage_laws L" "storage_typed s locks" "\<And>bs. mx_keccak256 MT (hex_encode bs) = Ok (hex_encode (f bs))"
  shows "attestation_tree MT L s locks
    = map_err CreateTreeFromLeaves (mx_new MT (map (\<lambda>x. hex_encode (f x)) (attested_leaves L s locks)))"
  unfolding attestation_tree_def attestation_tree_from_prefixes_def commitment_entries_leaves[OF assms(1,2)]
    lock_entries_leaves[OF assms(1,2)]
  by (simp add: attested_leaves_def collect_res_Ok_map[where g = "\<lambda>x. hex_encode (f x)"] assms(3))

definition leaf_hash :: "'t merkle_ext \<Rightarrow> bytes \<Rightarrow> (bytes, bytes) result" where
  "leaf_hash MT leaf = bind_res (mx_keccak256 MT (hex_encode leaf)) (mx_keccak256 MT)"

lemma prove_leaf_pair_iff:
  assumes "merkle_laws MT" "storage_laws L" "storage_typed s locks" "attestation_tree MT L s locks = Ok t"
  shows "is_ok (prove_leaf_pair MT PF t k v)
    \<longleftrightarrow> (\<exists>x \<in> set (attested_leaves L s locks). leaf_hash MT x = leaf_hash MT (encode_key_value_leaf PF k v))"
proof -
  obtain f where f: "\<And>bs. mx_keccak256 MT (hex_encode bs) = Ok (hex_encode (f bs))"
    using assms(1) unfolding merkle_laws_def by metis
  have new: "mx_new MT (map (\<lambda>x. hex_encode (f x)) (attested_leaves L s locks)) = Ok t"
    using assms(4) attestation_tree_eq[OF assms(2,3) f] by (simp add: map_err_def split: result.splits)
  have loc: "mx_locate_leaf MT t h \<noteq> None
      \<longleftrightarrow> (\<exists>x \<in> set (map (\<lambda>x. hex_encode (f x)) (attested_leaves L s locks)). mx_keccak256 MT x = Ok h)" for h
    using assms(1) new unfolding merkle_laws_def by blast
  have "is_ok (prove_leaf_pair MT PF t k v) \<longleftrightarrow> mx_locate_leaf MT t (hex_encode (f (f (encode_key_value_leaf PF k v)))) \<noteq> None"
    by (auto simp: prove_leaf_pair_def Let_def f is_ok_def ok_or_def split: option.split)
  then show ?thesis unfolding loc by (simp add: f leaf_hash_def)
qed

lemma attestation_tree_failure:
  assumes "merkle_laws MT" "storage_laws L" "storage_typed s locks"
  shows "(attestation_tree MT L s locks = Err e \<longrightarrow> (\<exists>xs m. e = CreateTreeFromLeaves m \<and> mx_new MT xs = Err m))
    \<and> (attestation_tree MT L s locks = Panic \<longrightarrow> (\<exists>xs. mx_new MT xs = Panic))"
proof -
  obtain f where f: "\<And>bs. mx_keccak256 MT (hex_encode bs) = Ok (hex_encode (f bs))"
    using assms(1) unfolding merkle_laws_def by metis
  show ?thesis
    unfolding attestation_tree_eq[OF assms(2,3) f] by (simp add: map_err_def split: result.split) blast
qed

lemma attested_commitment:
  "sm_get (CommitmentStorageMap s) (t, sch) = Some b \<Longrightarrow> commitment_leaf L t sch b \<in> set (attested_leaves L s locks)"
  using sm_get_Some_in[of "CommitmentStorageMap s" "(t, sch)" b]
  by (auto simp: attested_leaves_def intro: rev_image_eqI)

lemma attested_stake:
  "(a, ls) \<in> set locks \<Longrightarrow> staking_leaf L a ls (StakingContract s) \<in> set (attested_leaves L s locks)"
  by (auto simp: attested_leaves_def intro: rev_image_eqI)

lemma proved_leaf_in_tree:
  assumes "merkle_laws MT" "storage_laws L" "storage_typed s locks" "attestation_tree MT L s locks = Ok t"
    and "\<forall>x \<in> set (attested_leaves L s locks). leaf_hash MT x = leaf_hash MT leaf \<longrightarrow> x = leaf"
    and "is_ok (prove_leaf_pair MT PF t k v)" "leaf = encode_key_value_leaf PF k v"
  shows "leaf \<in> set (attested_leaves L s locks)"
  using assms(5,6) unfolding prove_leaf_pair_iff[OF assms(1-4)] assms(7)[symmetric] by blast

lemma attested_leaf_cases:
  assumes "storage_typed s locks" "list_all (\<lambda>(a, ls). hd a = char_of (0::nat)) locks" "leaf \<in> set (attested_leaves L s locks)"
  obtains (commitment) t sch b where "((t, sch), b) \<in> set (CommitmentStorageMap s)" "ident_ok t" "leaf = commitment_leaf L t sch b"
  | (staking) a ls where "(a, ls) \<in> set locks" "account_ok a" "hd a = char_of (0::nat)" "leaf = staking_leaf L a ls (StakingContract s)"
proof -
  consider t sch b where "((t, sch), b) \<in> set (CommitmentStorageMap s)" "leaf = commitment_leaf L t sch b"
    | a ls where "(a, ls) \<in> set locks" "leaf = staking_leaf L a ls (StakingContract s)"
    using assms(3) by (auto simp: attested_leaves_def)
  then show ?thesis
  proof cases
    case (1 t sch b)
    moreover have "ident_ok t" using assms(1) 1(1) by (auto simp: storage_typed_def list_all_iff)
    ultimately show ?thesis using commitment by blast
  next
    case (2 a ls)
    moreover have "account_ok a" "hd a = char_of (0::nat)"
      using assms(1,2) 2(1) by (auto simp: storage_typed_def list_all_iff)
    ultimately show ?thesis using staking by blast
  qed
qed

lemma commitment_leaf_attested:
  assumes "storage_laws L" "storage_typed s locks" "list_all (\<lambda>(a, ls). hd a = char_of (0::nat)) locks"
    and "commitment_leaf L table sch b \<in> set (attested_leaves L s locks)" "ident_ok table"
  shows "\<exists>table'. ident_text table' = ident_text table \<and> ((table', sch), b) \<in> set (CommitmentStorageMap s)"
  using assms(2-4)
proof (cases rule: attested_leaf_cases)
  case (commitment t sch' b')
  then show ?thesis by (auto simp: commitment_leaf_inj[OF assms(1,5) commitment(2)])
next
  case (staking a ls)
  then show ?thesis using leaf_kinds_differ[OF assms(1,5) staking(2,3), of sch b ls "StakingContract s"] by simp
qed

lemma staking_leaf_attested:
  assumes "storage_laws L" "storage_typed s locks" "list_all (\<lambda>(a, ls). hd a = char_of (0::nat)) locks"
    and "staking_leaf L a ls i \<in> set (attested_leaves L s locks)" "account_ok a" "hd a = char_of (0::nat)"
  shows "i = StakingContract s \<and> (\<exists>ls'. staked ls' = staked ls \<and> (a, ls') \<in> set locks)"
  using assms(2-4)
proof (cases rule: attested_leaf_cases)
  case (commitment t sch' b')
  then show ?thesis using leaf_kinds_differ[OF assms(1) commitment(2) assms(5,6), of sch' b' ls i] by simp
next
  case (staking a' ls')
  then show ?thesis by (auto simp: staking_leaf_inj[OF assms(1,5) staking(2)])
qed

section \<open>Properties\<close>

text \<open>
  C4. Everything attested can be proved: raw storage that holds the commitments of a state, the locks
  of accounts and the staking contract always decodes into leaves, so that building the tree
  fails only if the Merkle tree does. In the tree every stored commitment has a proof, and so has
  the locked balance of every account together with the staking contract in force.
\<close>

theorem stored_pairs_provable:
  assumes "merkle_laws MT" "storage_laws L" "storage_typed s locks"
  shows "case attestation_tree MT L s locks of
      Ok t \<Rightarrow>
        (\<forall>table sch b. sm_get (CommitmentStorageMap s) (table, sch) = Some b \<longrightarrow>
           is_ok (prove_leaf_pair MT (commitment_map_prefix_foliate L) t (table, sch, ()) b))
        \<and> (\<forall>a ls. (a, ls) \<in> set locks \<longrightarrow>
           is_ok (prove_leaf_pair MT (locks_staking_prefix_foliate L) t (a, ()) (ls, StakingContract s)))
    | Err e \<Rightarrow> (\<exists>xs m. e = CreateTreeFromLeaves m \<and> mx_new MT xs = Err m)
    | Panic \<Rightarrow> (\<exists>xs. mx_new MT xs = Panic)"
proof (cases "attestation_tree MT L s locks")
  case (Ok t)
  show ?thesis
    unfolding Ok result.case prove_leaf_pair_iff[OF assms Ok] by (blast intro: attested_commitment attested_stake)
next
  case (Err e)
  then show ?thesis using attestation_tree_failure[OF assms] by simp
next
  case Panic
  then show ?thesis using attestation_tree_failure[OF assms] by simp
qed


section \<open>Concrete codecs and a concrete tree\<close>

definition fixed_codec :: "nat \<Rightarrow> ('a \<Rightarrow> bytes) \<Rightarrow> (bytes \<Rightarrow> 'a) \<Rightarrow> 'a codec" where
  "fixed_codec n f g =
     \<lparr>cx_encode = f, cx_decode = \<lambda>bs. if length bs < n then None else Some (g (take n bs), drop n bs)\<rparr>"

lemma fixed_codec_law: "(\<And>x. P x \<Longrightarrow> length (f x) = n \<and> g (f x) = x) \<Longrightarrow> codec_law P (fixed_codec n f g)"
  by (auto simp: codec_law_def fixed_codec_def)

definition iso_codec :: "('b \<Rightarrow> 'a) \<Rightarrow> ('a \<Rightarrow> 'b) \<Rightarrow> 'a codec \<Rightarrow> 'b codec" where
  "iso_codec f g c = \<lparr>cx_encode = \<lambda>x. cx_encode c (f x), cx_decode = \<lambda>bs. map_option (\<lambda>(x, rest). (g x, rest)) (cx_decode c bs)\<rparr>"

lemma iso_codec_law: "codec_law Q c \<Longrightarrow> (\<And>x. P x \<Longrightarrow> Q (f x) \<and> g (f x) = x) \<Longrightarrow> codec_law P (iso_codec f g c)"
  by (auto simp: codec_law_def iso_codec_def)

text \<open>A list is its elements behind a byte 1 each, and a byte 0 at the end.\<close>

fun list_encode :: "'a codec \<Rightarrow> 'a list \<Rightarrow> bytes" where
  "list_encode c [] = [CHR 0x00]"
| "list_encode c (x # xs) = CHR 0x01 # cx_encode c x @ list_encode c xs"

fun list_decode :: "'a codec \<Rightarrow> nat \<Rightarrow> bytes \<Rightarrow> ('a list \<times> bytes) option" where
  "list_decode c 0 bs = None"
| "list_decode c (Suc n) [] = None"
| "list_decode c (Suc n) (b # bs) =
     (if b = CHR 0x00 then Some ([], bs)
      else case cx_decode c bs of None \<Rightarrow> None
        | Some (x, rest) \<Rightarrow> map_option (\<lambda>(xs, rest). (x # xs, rest)) (list_decode c n rest))"

definition list_codec :: "'a codec \<Rightarrow> 'a list codec" where
  "list_codec c = \<lparr>cx_encode = list_encode c, cx_decode = \<lambda>bs. list_decode c (length bs) bs\<rparr>"

lemma list_decode_encode:
  "codec_law P c \<Longrightarrow> list_all P xs \<Longrightarrow> length xs < n \<Longrightarrow> list_decode c n (list_encode c xs @ rest) = Some (xs, rest)"
proof (induction xs arbitrary: n)
  case Nil
  then show ?case by (cases n) simp_all
next
  case (Cons x xs)
  then show ?case by (cases n) (simp_all add: codec_lawD)
qed

lemma length_list_encode: "length xs < length (list_encode c xs)"
  by (induction xs) simp_all

lemma list_codec_law: "codec_law P c \<Longrightarrow> codec_law (list_all P) (list_codec c)"
  unfolding codec_law_def[of "list_all P"] list_codec_def
  by (simp add: list_decode_encode length_list_encode trans_less_add1)

definition word_codec :: "nat \<Rightarrow> 'a::len word codec" where
  "word_codec n = fixed_codec n (\<lambda>w. to_be_bytes n (unat w)) (\<lambda>bs. word_of_nat (from_be_bytes 0 bs))"

lemma word_codec_law: "2 ^ LENGTH('a) \<le> (256::nat) ^ n \<Longrightarrow> codec_law P (word_codec n :: 'a::len word codec)"
  unfolding word_codec_def
proof (rule fixed_codec_law)
  fix w :: "'a word" assume "2 ^ LENGTH('a) \<le> (256::nat) ^ n"
  then have "unat w < 256 ^ n" using unsigned_less[where 'a = nat, of w] by linarith
  then show "length (to_be_bytes n (unat w)) = n \<and> word_of_nat (from_be_bytes 0 (to_be_bytes n (unat w))) = w"
    by (simp add: from_to_be_bytes)
qed

definition bytes_codec :: "bytes codec" where
  "bytes_codec = list_codec (fixed_codec 1 (\<lambda>c. [c]) hd)"

lemma bytes_codec_law: "codec_law P bytes_codec"
proof -
  have "codec_law (list_all (\<lambda>_. True)) bytes_codec"
    unfolding bytes_codec_def by (intro list_codec_law fixed_codec_law) simp
  moreover have "list_all (\<lambda>_. True) x" for x :: bytes by (simp add: list_all_iff)
  ultimately show ?thesis unfolding codec_law_def by blast
qed

definition demo_storage_ext :: storage_ext where
  "demo_storage_ext =
     \<lparr>sx_blake2_128_concat = \<lparr>hx_hash = \<lambda>x. replicate 16 (CHR ''h'') @ x, hx_reverse = drop 16\<rparr>,
      sx_commitments_prefix = ''commitments'', sx_locks_prefix = ''locks'',
      sx_table_identifier = iso_codec (\<lambda>t. (ti_name t, ti_namespace t)) (\<lambda>(n, ns). \<lparr>ti_name = n, ti_namespace = ns\<rparr>)
        (codec_pair bytes_codec bytes_codec),
      sx_commitment_scheme = fixed_codec 1 (\<lambda>c. if c = HyperKzg then [CHR 0x00] else [CHR 0x01])
        (\<lambda>bs. if bs = [CHR 0x00] then HyperKzg else DynamicDory),
      sx_table_commitment_bytes = bytes_codec,
      sx_account_id = fixed_codec 32 (\<lambda>a. a) (\<lambda>a. a),
      sx_locks = list_codec (iso_codec (\<lambda>l. (bl_id l, bl_amount l, bl_reasons l)) (\<lambda>(i, a, r). \<lparr>bl_id = i, bl_amount = a, bl_reasons = r\<rparr>)
        (codec_pair bytes_codec (codec_pair (word_codec 16)
          (fixed_codec 1 (case_lock_reasons [CHR ''f''] [CHR ''m''] [CHR ''a''])
             (\<lambda>bs. if bs = [CHR ''f''] then Fee else if bs = [CHR ''m''] then Misc else All))))),
      sx_contract_info = iso_codec (\<lambda>i. (ci_chain_id i, ci_address i)) (\<lambda>(c, a). \<lparr>ci_chain_id = c, ci_address = a\<rparr>)
        (codec_pair (word_codec 32) bytes_codec)\<rparr>"

lemma demo_storage_laws: "storage_laws demo_storage_ext"
proof -
  let ?T = "\<lambda>_. True"
  have "codec_law ident_ok (sx_table_identifier demo_storage_ext)"
    unfolding demo_storage_ext_def storage_ext.simps
    by (rule iso_codec_law[OF codec_law_pair[OF bytes_codec_law[of ?T] bytes_codec_law[of ?T]]]) simp
  moreover have "codec_law ?T (sx_commitment_scheme demo_storage_ext)"
    unfolding demo_storage_ext_def storage_ext.simps
  proof (rule fixed_codec_law)
    fix c :: commitment_scheme
    show "length (if c = HyperKzg then [CHR 0x00] else [CHR 0x01]) = 1
        \<and> (if (if c = HyperKzg then [CHR 0x00] else [CHR 0x01]) = [CHR 0x00] then HyperKzg else DynamicDory) = c"
      by (cases c) simp_all
  qed
  moreover have "codec_law locks_ok (sx_locks demo_storage_ext)"
  proof -
    have r: "codec_law ?T (fixed_codec 1 (case_lock_reasons [CHR ''f''] [CHR ''m''] [CHR ''a''])
        (\<lambda>bs. if bs = [CHR ''f''] then Fee else if bs = [CHR ''m''] then Misc else All))"
      by (rule fixed_codec_law) (simp split: lock_reasons.split)
    have "codec_law (list_all ?T) (sx_locks demo_storage_ext)"
      unfolding demo_storage_ext_def storage_ext.simps
      by (rule list_codec_law, rule iso_codec_law[OF codec_law_pair[OF bytes_codec_law[of ?T] codec_law_pair[OF word_codec_law[of _ ?T] r]]])
        simp_all
    then show ?thesis by (simp add: codec_law_def list_all_iff)
  qed
  moreover have "codec_law contract_info_ok (sx_contract_info demo_storage_ext)"
    unfolding demo_storage_ext_def storage_ext.simps
    by (rule iso_codec_law[OF codec_law_pair[OF word_codec_law[of _ ?T] bytes_codec_law[of ?T]]]) simp_all
  moreover have "codec_law account_ok (sx_account_id demo_storage_ext)"
    unfolding demo_storage_ext_def storage_ext.simps by (rule fixed_codec_law) (simp add: account_ok_def)
  moreover have "codec_law commitment_ok (sx_table_commitment_bytes demo_storage_ext)"
    unfolding demo_storage_ext_def storage_ext.simps by (rule bytes_codec_law)
  moreover have "hasher_law (sx_blake2_128_concat demo_storage_ext)"
    by (simp add: demo_storage_ext_def hasher_law_def)
  ultimately show ?thesis by (simp add: storage_laws_def demo_storage_ext_def fixed_codec_def)
qed

definition demo_merkle :: "bytes list merkle_ext" where
  "demo_merkle =
     \<lparr>mx_keccak256 = Ok, mx_new = Ok,
      mx_locate_leaf = \<lambda>t h. if h \<in> set t then Some (length (takeWhile (\<lambda>x. x \<noteq> h) t)) else None,
      mx_generate_proof = \<lambda>t i. take i t @ drop (Suc i) t,
      mx_root = \<lambda>t. Some (hex_encode (replicate 32 (CHR ''r'')))\<rparr>"

lemma demo_merkle_laws: "merkle_laws demo_merkle"
  by (auto simp: merkle_laws_def demo_merkle_def)

lemma hex_encode_inj: "hex_encode x = hex_encode y \<longleftrightarrow> x = y"
  by (metis hex_decode_encode option.inject)

definition demo_contract_info :: contract_info where
  "demo_contract_info = \<lparr>ci_chain_id = 1028, ci_address = replicate 20 (CHR ''c'')\<rparr>"

definition demo_contracts_state :: "(u32 \<Rightarrow> account_id \<Rightarrow> nat) system_contracts_state" where
  "demo_contracts_state = rewards_state.extend demo_rewards_state (system_contracts_state.fields demo_contract_info demo_contract_info)"

lemmas demo_contracts_defs = demo_contracts_state_def system_contracts_state.defs demo_rewards_defs demo_contract_info_def

definition demo_locks :: "(account_id \<times> balance_lock list) list" where
  "demo_locks = [(eth_account (replicate 20 (CHR ''a'')),
     [\<lparr>bl_id = ''otherloc'', bl_amount = 515, bl_reasons = All\<rparr>, \<lparr>bl_id = ''staking '', bl_amount = 257, bl_reasons = All\<rparr>])]"

lemma demo_storage_typed: "storage_typed demo_contracts_state demo_locks"
  by (simp add: storage_typed_def demo_contracts_defs contract_info_ok_def ident_ok_def commitment_ok_def account_ok_def locks_ok_def
      demo_locks_def demo_table_id_def IDENT_LENGTH_def TABLE_COMMITMENT_MAX_LENGTH_def eth_account_def)

lemma demo_tree_exists: "\<exists>t. attestation_tree demo_merkle demo_storage_ext demo_contracts_state demo_locks = Ok t"
  using attestation_tree_failure[OF demo_merkle_laws demo_storage_laws demo_storage_typed]
  by (cases "attestation_tree demo_merkle demo_storage_ext demo_contracts_state demo_locks") (auto simp: demo_merkle_def)

theorem stored_pairs_provable_witness:
  "\<exists>t. attestation_tree demo_merkle demo_storage_ext demo_contracts_state demo_locks = Ok t
    \<and> is_ok (prove_leaf_pair demo_merkle (commitment_map_prefix_foliate demo_storage_ext) t (demo_table_id, DynamicDory, ()) ''a'')
    \<and> is_ok (prove_leaf_pair demo_merkle (locks_staking_prefix_foliate demo_storage_ext) t
        (fst (hd demo_locks), ()) (snd (hd demo_locks), demo_contract_info))"
proof -
  obtain t where t: "attestation_tree demo_merkle demo_storage_ext demo_contracts_state demo_locks = Ok t"
    using demo_tree_exists by blast
  have "sm_get (CommitmentStorageMap demo_contracts_state) (demo_table_id, DynamicDory) = Some ''a''"
    "StakingContract demo_contracts_state = demo_contract_info"
    by (simp_all add: demo_contracts_defs sm_get_def)
  moreover have "(fst (hd demo_locks), snd (hd demo_locks)) \<in> set demo_locks" by (simp add: demo_locks_def)
  ultimately show ?thesis
    using stored_pairs_provable[OF demo_merkle_laws demo_storage_laws demo_storage_typed] t
    by (simp only: result.case) metis
qed


end
