(* ===== verification/Sxt_Runtime.thy ===== *)
theory Sxt_Runtime
  imports Attestation_Tree
begin

text \<open>
  \<open>runtime/src/lib.rs\<close>: the pallets of the repository composed into one chain. An extrinsic names a
  pallet and one of its calls; a new block runs the hooks, of which the rewards pallet has the
  only one among these pallets. The pallets of Substrate are the abstract part of the state, and
  what they do between the steps of these pallets is an arbitrary function on it.
\<close>

section \<open>Calls and blocks\<close>

datatype runtime_call =
    is_PermissionsCall: PermissionsCall permissions_call
  | is_TablesCall: TablesCall tables_call
  | is_IndexingCall: IndexingCall indexing_call
  | is_AttestationsCall: AttestationsCall attestation_call
  | is_KeystoreCall: KeystoreCall keystore_call
  | is_SmartcontractsCall: SmartcontractsCall smartcontracts_call
  | is_SystemTablesCall: SystemTablesCall bytes u64
  | is_SystemContractsCall: SystemContractsCall system_contracts_call
  | is_RewardsCall: RewardsCall account_id

record ('h, 'uh, 'sh, 'd, 'ud, 'sd, 'g, 'k, 'p, 'x) runtime_ext =
  rt_ext :: "('h, 'uh, 'sh, 'd, 'ud, 'sd) sxt_ext"
  rt_sql :: sql_ext
  rt_crypto :: "('g, 'k, 'p) crypto_ext"
  rt_substrate :: "'x substrate_ext"
  rt_rewards :: "'x rewards_ext"
  rt_hash :: "row_data \<Rightarrow> u64 option \<Rightarrow> bytes"

fun runtime_dispatch ::
    "('h, 'uh, 'sh, 'd, 'ud, 'sd, 'g, 'k, 'p, 'x) runtime_ext \<Rightarrow> runtime_call \<Rightarrow> origin
     \<Rightarrow> ('x, 'a) system_contracts_state_scheme \<Rightarrow> ('x, 'a) system_contracts_state_scheme dispatch_result" where
  "runtime_dispatch RT (PermissionsCall c) orig s = permissions_dispatch c orig s"
| "runtime_dispatch RT (TablesCall c) orig s = tables_dispatch (rt_ext RT) (rt_sql RT) c orig s"
| "runtime_dispatch RT (IndexingCall c) orig s = indexing_dispatch (rt_ext RT) (rt_substrate RT) (rt_hash RT) c orig s"
| "runtime_dispatch RT (AttestationsCall c) orig s = attestation_dispatch (rt_crypto RT) c orig s"
| "runtime_dispatch RT (KeystoreCall c) orig s = keystore_dispatch (rt_crypto RT) c orig s"
| "runtime_dispatch RT (SmartcontractsCall c) orig s = smartcontracts_dispatch (rt_ext RT) (rt_sql RT) c orig s"
| "runtime_dispatch RT (SystemTablesCall wallet nonce) orig s = set_last_nonce orig wallet nonce s"
| "runtime_dispatch RT (SystemContractsCall c) orig s = system_contracts_dispatch c orig s"
| "runtime_dispatch RT (RewardsCall payer) orig s = set_payer_account orig payer s"

text \<open>
  A step of the chain: an extrinsic, a new block with the hooks, offenders reported to the system
  tables pallet, or anything the Substrate pallets do on their own.
\<close>

datatype 'x chain_action =
    Extrinsic runtime_call origin
  | NewBlock
  | Offence "account_id list"
  | SubstrateStep "'x \<Rightarrow> 'x"

definition initialize_block ::
    "'x rewards_ext \<Rightarrow> ('x, 'a) system_contracts_state_scheme \<Rightarrow> ('x, 'a) system_contracts_state_scheme dispatch_result" where
  "initialize_block R s =
     bind_res (on_initialize R (s\<lparr>block_number := block_number s + 1\<rparr>)) (\<lambda>(s, _). Ok s)"

fun chain_step ::
    "('h, 'uh, 'sh, 'd, 'ud, 'sd, 'g, 'k, 'p, 'x) runtime_ext \<Rightarrow> 'x chain_action
     \<Rightarrow> ('x, 'a) system_contracts_state_scheme \<Rightarrow> ('x, 'a) system_contracts_state_scheme dispatch_result" where
  "chain_step RT (Extrinsic c orig) s = runtime_dispatch RT c orig s"
| "chain_step RT NewBlock s = initialize_block (rt_rewards RT) s"
| "chain_step RT (Offence offenders) s = Ok (fst (on_offence (rt_substrate RT) offenders s))"
| "chain_step RT (SubstrateStep f) s = Ok (s\<lparr>Substrate := f (Substrate s)\<rparr>)"

definition run_chain ::
    "('h, 'uh, 'sh, 'd, 'ud, 'sd, 'g, 'k, 'p, 'x) runtime_ext \<Rightarrow> 'x chain_action list
     \<Rightarrow> ('x, 'a) system_contracts_state_scheme \<Rightarrow> ('x, 'a) system_contracts_state_scheme" where
  "run_chain RT xs s = fold (\<lambda>x s. case chain_step RT x s of Ok s' \<Rightarrow> s' | _ \<Rightarrow> s) xs s"

section \<open>Frames\<close>

text \<open>What an operation of the tables pallet leaves alone.\<close>

definition tables_only :: "'a tables_state_scheme \<Rightarrow> 'a tables_state_scheme \<Rightarrow> bool" where
  "tables_only s s' \<longleftrightarrow>
     (block_number s', Permissions s', Keys s', AttestationKeys s', Attestations s', LastForwardedBlock s', DefaultCommitmentSchemes s')
       = (block_number s, Permissions s, Keys s, AttestationKeys s, Attestations s, LastForwardedBlock s, DefaultCommitmentSchemes s)
     \<and> tables_state.more s' = tables_state.more s \<and> (\<exists>ev. events s' = events s @ ev)"

lemma tables_only_refl [simp]: "tables_only s s"
  by (simp add: tables_only_def)

lemma tables_only_trans: "tables_only s s1 \<Longrightarrow> tables_only s1 s2 \<Longrightarrow> tables_only s s2"
  by (auto simp: tables_only_def)

lemma tables_only_deposit [simp]: "tables_only s (deposit_event e s)"
  by (simp add: tables_only_def deposit_event_def)

lemma tables_only_dropped: "dropped s s' \<Longrightarrow> tables_only s s'"
  by (auto simp: tables_only_def dropped_def)

lemma tables_only_collect:
  assumes "collect_state f s xs = Ok (s', ys)" "\<And>s x s' y. f s x = Ok (s', y) \<Longrightarrow> tables_only s s'"
  shows "tables_only s s'"
  by (rule collect_state_invariant[where I = "tables_only s", OF _ _ assms(1)])
    (auto intro: tables_only_trans assms(2))

lemma create_one_table_only: "create_one_table E X s table = Ok (s', t) \<Longrightarrow> tables_only s s'"
  by (erule create_one_table_Ok) (auto simp: tables_only_def insert_table_uuid_def insert_schema_def Let_def)

lemma create_tables_inner_only: "create_tables_inner E X orig tables s = Ok s' \<Longrightarrow> tables_only s s'"
  unfolding create_tables_inner_def
  by (auto simp: res_Ok_iff intro: tables_only_trans[OF tables_only_collect] create_one_table_only)

lemma create_table_with_snapshot_only:
  "create_table_with_snapshot E X sam s t = Ok (s', out) \<Longrightarrow> tables_only s s'"
  by (auto simp: create_table_with_snapshot_def bind_res_Ok_iff tables_only_def insert_schema_def Let_def
      dest!: insert_initial_commitment_frame)

lemma remove_commits_only: "tables_only s (remove_commits ident s)"
  using remove_commits_frame[of ident s] by (auto simp: tables_only_def)

lemma tables_dispatch_only:
  assumes "tables_dispatch E X c orig s = Ok s'"
  shows "tables_only s s'"
proof -
  have run: "tables_call_run E X c orig s = Ok s'"
    using assms by (auto simp: tables_dispatch_def split: if_splits)
  show ?thesis
  proof (cases c)
    case (CreateTables ts)
    then show ?thesis using run by (auto simp: create_tables_def intro: create_tables_inner_only)
  next
    case (CreateTablesWithSnapshot sam ts)
    then show ?thesis
      using run by (auto simp: create_tables_with_snapshot_and_commitment_def res_Ok_iff
          intro: tables_only_trans[OF tables_only_collect] create_table_with_snapshot_only)
  next
    case (DropTable ty t src)
    then show ?thesis
      using run by (auto simp: drop_table_def bind_res_Ok_iff Let_def
          intro: tables_only_trans[OF tables_only_dropped[OF drop_single_table_dropped]])
  next
    case (UpdateTableUuid t v u)
    then show ?thesis using run by (auto simp: tables_only_def deposit_event_def elim!: update_table_uuid_Ok)
  next
    case (CreateNamespace n v st ty src)
    then show ?thesis using run by (auto simp: tables_only_def deposit_event_def dest!: create_namespace_frame)
  next
    case (DropInvalidCommits t)
    then show ?thesis using run by (auto simp: drop_invalid_commits_def bind_res_Ok_iff remove_commits_only)
  qed (use run in \<open>auto simp: tables_only_def deposit_event_def clear_tables_Ok update_namespace_uuid_def
      bind_res_Ok_iff Let_def\<close>)
qed

text \<open>The storage of the pallets above the tables pallet, and what a call of the contracts pallet leaves alone.\<close>

lemma tables_only_above:
  fixes s s' :: "('x, 'a) system_contracts_state_scheme"
  assumes "tables_only s s'"
  shows "(LastProcessedUserNonce s', Submissions s', FinalData s', ContractStorage s', ContractTables s', NextPaidEra s')
    = (LastProcessedUserNonce s, Submissions s, FinalData s, ContractStorage s, ContractTables s, NextPaidEra s)"
  using assms by (cases s; cases s') (simp add: tables_only_def)

definition contracts_only :: "('x, 'a) system_contracts_state_scheme \<Rightarrow> ('x, 'a) system_contracts_state_scheme \<Rightarrow> bool" where
  "contracts_only s s' \<longleftrightarrow>
     (Permissions s', Keys s', Attestations s', LastProcessedUserNonce s', Submissions s', FinalData s', NextPaidEra s')
       = (Permissions s, Keys s, Attestations s, LastProcessedUserNonce s, Submissions s, FinalData s, NextPaidEra s)
     \<and> (\<exists>ev. events s' = events s @ ev)"

lemma tables_only_contracts: "tables_only s s' \<Longrightarrow> contracts_only s s'"
  using tables_only_above[of s s'] by (auto simp: contracts_only_def tables_only_def)

lemma contracts_only_trans: "contracts_only s s1 \<Longrightarrow> contracts_only s1 s2 \<Longrightarrow> contracts_only s s2"
  by (auto simp: contracts_only_def)

lemma add_smartcontract_only:
  assumes "add_smartcontract E X orig contract tables s = Ok s'"
  shows "contracts_only s s'"
proof -
  let ?d = "contract_details_of contract"
  define s1 where "s1 = (let s = s\<lparr>ContractStorage := sm_insert (cd_source ?d, cd_address ?d) contract (ContractStorage s)\<rparr>;
       s = s\<lparr>ContractTables := sm_insert (cd_source ?d, cd_address ?d) (map (\<lambda>t. (ut_ident t, ut_table_type t)) tables) (ContractTables s)\<rparr>
     in (case cd_starting_block ?d of
          Some b \<Rightarrow> s\<lparr>BlockNumbers := fold (\<lambda>(ident, _). sm_insert ident b) (map (\<lambda>t. (ut_ident t, ut_table_type t)) tables) (BlockNumbers s)\<rparr>
        | None \<Rightarrow> s))"
  obtain nam st ty src s2 e where ns: "create_namespace X orig nam 0 st ty src s1 = Ok s2"
    and run: "create_tables_inner E X orig tables (deposit_event e s2) = Ok s'"
    using assms unfolding add_smartcontract_def by (auto simp: Let_def res_Ok_iff bounded_try_from_Ok_iff s1_def)
  have "contracts_only s s1" by (simp add: s1_def Let_def contracts_only_def split: option.split)
  moreover have "tables_only s1 s2"
    using create_namespace_frame[OF ns] by (auto simp: tables_only_def deposit_event_def)
  then have "tables_only s1 s'"
    using create_tables_inner_only[OF run] tables_only_deposit[of s2 e] tables_only_trans by blast
  ultimately show ?thesis using tables_only_contracts contracts_only_trans by blast
qed

lemma remove_smartcontract_only:
  assumes "remove_smartcontract orig source address s = Ok s'"
  shows "contracts_only s s'"
proof (rule remove_smartcontract_Ok[OF assms])
  fix s1 assume run: "drop_contract_tables (contract_tables s source address)
       (s\<lparr>ContractStorage := sm_remove (source, address) (ContractStorage s), ContractTables := ContractTables s1\<rparr>) = Ok s1"
    and s': "\<exists>e. s' = deposit_event e s1"
  have "tables_only (s\<lparr>ContractStorage := sm_remove (source, address) (ContractStorage s), ContractTables := ContractTables s1\<rparr>) s1"
    using drop_contract_tables_Ok[OF run] tables_only_dropped by blast
  then have "tables_only (s\<lparr>ContractStorage := sm_remove (source, address) (ContractStorage s), ContractTables := ContractTables s1\<rparr>) s'"
    using s' tables_only_deposit tables_only_trans by blast
  from tables_only_contracts[OF this] show ?thesis by (simp add: contracts_only_def)
qed

section \<open>One step\<close>

abbreviation contract_storage :: "('x, 'a) system_contracts_state_scheme \<Rightarrow> _" where
  "contract_storage s \<equiv> (Identifiers s, Schemas s, TableInsertQuorums s, TableSources s, ColumnVersions s, TableVersions s,
     ContractStorage s, ContractTables s)"

text \<open>Which calls write which part of the storage.\<close>

definition written_by :: "runtime_call \<Rightarrow> ('x, 'a) system_contracts_state_scheme \<Rightarrow> ('x, 'a) system_contracts_state_scheme \<Rightarrow> bool" where
  "written_by c s s' \<longleftrightarrow>
     (is_PermissionsCall c \<or> Permissions s' = Permissions s)
     \<and> (is_KeystoreCall c \<or> Keys s' = Keys s)
     \<and> (is_AttestationsCall c \<or> Attestations s' = Attestations s)
     \<and> (is_TablesCall c \<or> is_SmartcontractsCall c \<or> contract_storage s' = contract_storage s)
     \<and> (is_TablesCall c \<longrightarrow> ContractStorage s' = ContractStorage s \<and> ContractTables s' = ContractTables s)
     \<and> (is_IndexingCall c \<or> Submissions s' = Submissions s \<and> FinalData s' = FinalData s)
     \<and> (is_SystemTablesCall c \<or> (\<forall>a. user_nonce s a \<le> user_nonce s' a))
     \<and> NextPaidEra s' = NextPaidEra s \<and> (\<exists>ev. events s' = events s @ ev)"

lemma indexing_written:
  assumes "submissions_inv P s" "indexing_dispatch E S hash c orig s = Ok s'"
  shows "written_by (IndexingCall c) s s'"
proof -
  obtain table b data bn where "submit_data_inner E S hash orig table b data bn s = Ok s'"
    using assms(2) by (cases c) (auto simp: submit_data_def submit_blockchain_data_def)
  note kept = submit_data_inner_kept[OF assms(1) this]
  then have "ContractStorage s' = ContractStorage s \<and> ContractTables s' = ContractTables s \<and> NextPaidEra s' = NextPaidEra s"
    by (cases s; cases s') simp
  with kept show ?thesis by (simp add: written_by_def)
qed

lemma keystore_dispatch_frame:
  assumes "keystore_dispatch X c orig s = Ok s'"
  shows "\<exists>ks e. s' = deposit_event e (s\<lparr>Keys := ks\<rparr>)"
proof (cases c)
  case (RegisterKey who r)
  then show ?thesis using assms by (cases r) (auto simp: register_key_Ok)
next
  case (UnregisterKey who r)
  then show ?thesis using assms by (cases r) (auto dest!: unregister_key_Ok)
qed

lemma runtime_written:
  assumes inv: "submissions_inv P s" and run: "runtime_dispatch RT c orig s = Ok s'"
  shows "written_by c s s'"
proof (cases c)
  case (TablesCall x)
  then have t: "tables_only s s'" using run tables_dispatch_only by simp
  then show ?thesis
    using tables_only_above[OF t] by (simp add: TablesCall written_by_def tables_only_def user_nonce_def)
next
  case (IndexingCall x)
  then show ?thesis using run indexing_written[OF inv] by simp
next
  case (SmartcontractsCall x)
  then have "contracts_only s s'" using run by (cases x) (auto intro: add_smartcontract_only remove_smartcontract_only)
  then show ?thesis by (simp add: SmartcontractsCall written_by_def contracts_only_def user_nonce_def)
next
  case (PermissionsCall x)
  then show ?thesis using run
    by (cases x) (auto simp: written_by_def set_permissions_def clear_permissions_def add_proxy_permission_Ok Let_def res_Ok_iff
        deposit_event_def user_nonce_def split: if_splits)
next
  case (KeystoreCall x)
  then show ?thesis using run
    by (auto simp: written_by_def deposit_event_def user_nonce_def dest!: keystore_dispatch_frame)
next
  case (AttestationsCall x)
  then show ?thesis using run
    by (cases x) (auto simp: written_by_def attest_block_Ok mark_block_forwarded_def deposit_event_def user_nonce_def res_Ok_iff)
next
  case (SystemTablesCall w n)
  then show ?thesis using run by (auto simp: written_by_def set_last_nonce_def res_Ok_iff)
next
  case (SystemContractsCall x)
  then show ?thesis using run
    by (cases x) (auto simp: written_by_def set_staking_contract_def set_messaging_contract_def deposit_event_def user_nonce_def res_Ok_iff)
next
  case (RewardsCall x)
  then show ?thesis using run
    by (auto simp: written_by_def set_payer_account_def deposit_event_def user_nonce_def res_Ok_iff)
qed

text \<open>What the hooks, offences and the Substrate pallets leave alone.\<close>

definition outside :: "('x, 'a) system_contracts_state_scheme \<Rightarrow> ('x, 'a) system_contracts_state_scheme \<Rightarrow> bool" where
  "outside s s' \<longleftrightarrow>
     (Permissions s', Keys s', Attestations s', contract_storage s', Submissions s', FinalData s', LastProcessedUserNonce s')
       = (Permissions s, Keys s, Attestations s, contract_storage s, Submissions s, FinalData s, LastProcessedUserNonce s)
     \<and> NextPaidEra s \<le> NextPaidEra s' \<and> (\<exists>ev. events s' = events s @ ev)"

lemma outside_refl [simp]: "outside s s"
  by (simp add: outside_def)

lemma outside_trans: "outside s s1 \<Longrightarrow> outside s1 s2 \<Longrightarrow> outside s s2"
  by (auto simp: outside_def)

lemma outside_simps [simp]:
  "outside s (deposit_event e s)" "outside s (s\<lparr>Substrate := x\<rparr>)" "outside s (s\<lparr>block_number := n\<rparr>)"
  "outside s (fst (substrate f s))"
  by (simp_all add: outside_def deposit_event_def substrate_def case_prod_unfold)

lemma payouts_outside: "payouts R payer era k vs w s = Ok (s', w') \<Longrightarrow> outside s s'"
proof (induction R payer era k vs w s rule: payouts.induct)
  case (2 R payer era k v points rest w s)
  show ?case
  proof (cases "k = 0 \<or> \<not> rx_pending_rewards R (Substrate s) era v")
    case True
    then show ?thesis using 2 by (cases "k = 0") auto
  next
    case False
    obtain s1 r where p: "substrate (rx_payout_stakers R payer v era) s = (s1, r)" by fastforce
    then have s1: "outside s s1" by (metis outside_simps(4) fst_conv)
    then have "outside s (deposit_event e s1)" for e using outside_trans outside_simps(1) by blast
    then show ?thesis
      using 2 False p by (cases r) (fastforce simp: Let_def intro: outside_trans)+
  qed
qed simp

lemma next_era_outside: "NextPaidEra s < e \<Longrightarrow> outside s (s\<lparr>NextPaidEra := NextPaidEra s + 1\<rparr>)"
  using u32_less_Suc[of "NextPaidEra s" e "NextPaidEra s"] by (auto simp: outside_def intro: less_imp_le)

lemma payouts_era: "payouts R payer era k vs w s = Ok (s', w') \<Longrightarrow> NextPaidEra s' = NextPaidEra s"
proof (induction R payer era k vs w s rule: payouts.induct)
  case (2 R payer era k v points rest w s)
  obtain s1 r where p: "substrate (rx_payout_stakers R payer v era) s = (s1, r)" by fastforce
  then have "NextPaidEra s1 = NextPaidEra s" by (auto simp: substrate_def case_prod_unfold)
  then show ?case
    using 2 p by (cases r) (auto simp: Let_def deposit_event_def split: if_splits)
qed simp

lemma on_initialize_outside:
  assumes "on_initialize R s = Ok (s', w)"
  shows "outside s s'"
proof (cases "NextPaidEra s \<ge> (case rx_active_era R (Substrate s) of None \<Rightarrow> 0 | Some index \<Rightarrow> index)")
  case True
  then show ?thesis using assms by (simp add: on_initialize_def)
next
  case False
  define s1 where "s1 = deposit_event (RewardsStatus (case rx_active_era R (Substrate s) of None \<Rightarrow> 0 | Some index \<Rightarrow> index) (NextPaidEra s)) s"
  have s1: "outside s s1" "NextPaidEra s1 = NextPaidEra s" by (simp add: s1_def, simp add: s1_def deposit_event_def)
  consider "s' = deposit_event (SetupError (RewardsError NoPayerSet)) s1"
    | payer vs w' s2 where "payouts R payer (NextPaidEra s) MaxPayoutsPerBlock vs None s1 = Ok (s2, w')"
        "s' = s2 \<or> s' = (deposit_event (EraPaid (NextPaidEra s)) s2)\<lparr>NextPaidEra := NextPaidEra s + 1\<rparr>"
    using assms False by (auto simp: on_initialize_def Let_def bind_res_Ok_iff s1_def split: option.splits if_splits)
  then show ?thesis
  proof cases
    case 1
    then show ?thesis using s1(1) outside_trans outside_simps(1) by blast
  next
    case 2
    have "outside s s2" using payouts_outside[OF 2(1)] s1(1) outside_trans by blast
    moreover have "NextPaidEra s2 = NextPaidEra s" using payouts_era[OF 2(1)] s1(2) by simp
    then have "outside s2 ((deposit_event (EraPaid (NextPaidEra s)) s2)\<lparr>NextPaidEra := NextPaidEra s + 1\<rparr>)"
      using next_era_outside[of "deposit_event (EraPaid (NextPaidEra s)) s2"] False outside_trans outside_simps(1)
      by (fastforce simp: deposit_event_def not_le)
    ultimately show ?thesis using 2(2) outside_trans by blast
  qed
qed

lemma on_offence_outside: "outside s (fst (on_offence S offenders s))"
proof -
  have "outside s (fst (fold (\<lambda>validator (s, weight).
         let s = deposit_event (ValidatorForceChilled validator) s;
             (s, result) = substrate (sk_chill S validator) s
         in (s, weight + 10000)) offenders (t, w)))" if "outside s t" for t and w :: u64
    using that
  proof (induction offenders arbitrary: t w)
    case (Cons v vs)
    have "outside s (fst (substrate (sk_chill S v) (deposit_event (ValidatorForceChilled v) t)))"
      using Cons.prems outside_trans outside_simps by blast
    then show ?case using Cons.IH by (simp add: Let_def case_prod_unfold)
  qed simp
  then show ?thesis by (simp add: on_offence_def)
qed

section \<open>Invariant\<close>

definition runtime_inv :: "('g, 'k, 'p) crypto_ext \<Rightarrow> ('x, 'a) system_contracts_state_scheme \<Rightarrow> bool" where
  "runtime_inv C s \<longleftrightarrow> permissions_inv s \<and> keystore_inv C s \<and> attestation_inv C s \<and> smartcontracts_inv s
     \<and> submissions_inv (\<lambda>dq. dq_agreements dq \<noteq> []) s"

lemma invariants_cong:
  "Permissions s' = Permissions s \<Longrightarrow> permissions_inv s' = permissions_inv s"
  "Keys t' = Keys t \<Longrightarrow> keystore_inv C t' = keystore_inv C t"
  "Attestations u' = Attestations u \<Longrightarrow> attestation_inv C u' = attestation_inv C u"
  by (simp_all add: permissions_inv_def keystore_inv_def registered_key_def attestation_inv_def)

lemma smartcontracts_inv_cong: "contract_storage s' = contract_storage s \<Longrightarrow> smartcontracts_inv s' = smartcontracts_inv s"
  by (simp add: smartcontracts_inv_def tables_inv_def schema_of_def)

lemma submissions_inv_grow:
  assumes "submissions_inv P s" "Submissions s' = Submissions s" "FinalData s' = FinalData s" "\<exists>ev. events s' = events s @ ev"
  shows "submissions_inv P s'"
proof -
  have ev: "set (events s) \<subseteq> set (events s')" using assms(4) by auto
  show ?thesis
    using assms(1) submitted_mono[OF _ ev] quorum_recorded_mono[OF _ ev]
    unfolding submissions_inv_def assms(2,3) by blast
qed

lemma runtime_inv_outside: "runtime_inv C s \<Longrightarrow> outside s s' \<Longrightarrow> runtime_inv C s'"
  using invariants_cong(1)[of s' s] invariants_cong(2)[of s' s C] invariants_cong(3)[of s' s C]
    smartcontracts_inv_cong[of s' s] submissions_inv_grow[of _ s s']
  by (simp add: runtime_inv_def outside_def)

lemma indexing_submissions:
  assumes "submissions_inv (\<lambda>dq. dq_agreements dq \<noteq> []) s" "indexing_dispatch E S hash c orig s = Ok s'"
  shows "submissions_inv (\<lambda>dq. dq_agreements dq \<noteq> []) s'"
proof -
  have "dq_agreements dq \<noteq> []" if "quorum_size_ok s dq" for dq using that by (auto simp: quorum_size_ok_def)
  then show ?thesis
    using assms by (cases c) (auto simp: submit_data_def submit_blockchain_data_def intro: submit_data_inner_submissions)
qed

lemma runtime_dispatch_inv:
  assumes inv: "runtime_inv (rt_crypto RT) s" and run: "runtime_dispatch RT c orig s = Ok s'"
  shows "runtime_inv (rt_crypto RT) s'"
proof -
  note i = inv[unfolded runtime_inv_def]
  have w: "written_by c s s'" using runtime_written[OF _ run] i by blast
  have "permissions_inv s'"
    using i w run invariants_cong(1)[of s' s] permissions_dispatch_inv[of s] by (cases c) (auto simp: written_by_def)
  moreover have "keystore_inv (rt_crypto RT) s'"
    using i w run invariants_cong(2)[of s' s] keystore_dispatch_inv[of _ s] by (cases c) (auto simp: written_by_def)
  moreover have "attestation_inv (rt_crypto RT) s'"
    using i w run invariants_cong(3)[of s' s] attestation_dispatch_inv[of _ s] by (cases c) (auto simp: written_by_def)
  moreover have "smartcontracts_inv s'"
  proof (cases c)
    case (TablesCall x)
    then have "tables_inv s'" using i run tables_dispatch_inv[of s] by (auto simp: smartcontracts_inv_def)
    then show ?thesis using i w TablesCall by (simp add: smartcontracts_inv_def written_by_def)
  next
    case (SmartcontractsCall x)
    then show ?thesis using i run smartcontracts.call_inv by auto
  qed (use i w smartcontracts_inv_cong[of s' s] in \<open>simp_all add: written_by_def\<close>)
  moreover have "submissions_inv (\<lambda>dq. dq_agreements dq \<noteq> []) s'"
    using i w run submissions_inv_grow[of _ s s'] indexing_submissions[of s] by (cases c) (auto simp: written_by_def)
  ultimately show ?thesis by (simp add: runtime_inv_def)
qed

lemma chain_step_outside:
  assumes "chain_step RT x s = Ok s'" "\<nexists>c orig. x = Extrinsic c orig"
  shows "outside s s'"
proof (cases x)
  case NewBlock
  then obtain w where "on_initialize (rt_rewards RT) (s\<lparr>block_number := block_number s + 1\<rparr>) = Ok (s', w)"
    using assms(1) by (auto simp: initialize_block_def bind_res_Ok_iff)
  then show ?thesis using on_initialize_outside outside_trans outside_simps(3) by blast
qed (use assms on_offence_outside in auto)

lemma chain_step_inv:
  assumes "runtime_inv (rt_crypto RT) s" "chain_step RT x s = Ok s'"
  shows "runtime_inv (rt_crypto RT) s'"
proof (cases x)
  case (Extrinsic c orig)
  then show ?thesis using assms runtime_dispatch_inv by auto
qed (use assms chain_step_outside[OF assms(2)] runtime_inv_outside in auto)

fun runtime_allowed :: "runtime_call \<Rightarrow> origin \<Rightarrow> ('x, 'a) system_contracts_state_scheme \<Rightarrow> bool" where
  "runtime_allowed (PermissionsCall c) orig s \<longleftrightarrow> permitted s orig (required_permission c)"
| "runtime_allowed (TablesCall c) orig s \<longleftrightarrow> tables_allowed c orig s"
| "runtime_allowed (IndexingCall c) orig s \<longleftrightarrow> indexing_allowed c orig s"
| "runtime_allowed (AttestationsCall c) orig s \<longleftrightarrow> permitted s orig (attestation_permission c)"
| "runtime_allowed (KeystoreCall c) orig s \<longleftrightarrow> orig = Root"
| "runtime_allowed (SmartcontractsCall c) orig s \<longleftrightarrow> smartcontracts_allowed c orig s"
| "runtime_allowed (SystemTablesCall w n) orig s \<longleftrightarrow> orig = Root"
| "runtime_allowed (SystemContractsCall c) orig s \<longleftrightarrow> orig = Root"
| "runtime_allowed (RewardsCall p) orig s \<longleftrightarrow> orig = Root"

interpretation runtime: invariant_pallet "runtime_dispatch RT" "runtime_inv (rt_crypto RT)" for RT
  by unfold_locales (rule runtime_dispatch_inv)

interpretation runtime_guard: guarded_pallet "runtime_dispatch RT" runtime_allowed for RT
proof (unfold_locales, goal_cases)
  case (1 c orig s)
  then show ?case
    using permissions_dispatch_denied[of s orig] tables_dispatch_denied[of _ orig s] indexing_guard.denied[of _ orig s]
      attestation_dispatch_denied[of s orig] keystore_dispatch_denied[of orig] smartcontracts_guard.denied[of _ orig s]
      system_contracts_guard.denied[of orig]
    by (cases c; cases orig) (auto simp: set_last_nonce_def set_payer_account_def)
qed

section \<open>Runs of the chain\<close>

lemma run_chain_Nil [simp]: "run_chain RT [] s = s"
  by (simp add: run_chain_def)

lemma run_chain_snoc:
  "run_chain RT (xs @ [x]) s = (case chain_step RT x (run_chain RT xs s) of Ok s' \<Rightarrow> s' | _ \<Rightarrow> run_chain RT xs s)"
  unfolding run_chain_def by simp

lemma run_chain_preserves:
  assumes "I s" "\<And>x s s'. x \<in> set xs \<Longrightarrow> I s \<Longrightarrow> chain_step RT x s = Ok s' \<Longrightarrow> I s'"
  shows "I (run_chain RT xs s)"
  using assms(2)
proof (induction xs rule: rev_induct)
  case (snoc x xs)
  have I: "I (run_chain RT xs s)" by (rule snoc.IH) (use snoc.prems in auto)
  show ?case
    using I snoc.prems[of x "run_chain RT xs s"] by (cases "chain_step RT x (run_chain RT xs s)") (simp_all add: run_chain_snoc)
qed (use assms(1) in simp)

lemma run_chain_inv: "runtime_inv (rt_crypto RT) s \<Longrightarrow> runtime_inv (rt_crypto RT) (run_chain RT xs s)"
  by (rule run_chain_preserves) (auto intro: chain_step_inv)

text \<open>Whatever holds after a run and did not before came about in one of its steps.\<close>

lemma run_chain_change:
  assumes "\<not> Q s" "Q (run_chain RT xs s)"
  obtains ys x zs s' where "xs = ys @ x # zs" "chain_step RT x (run_chain RT ys s) = Ok s'"
    "\<not> Q (run_chain RT ys s)" "Q s'" "run_chain RT (ys @ [x]) s = s'"
  using assms(2)
proof (induction xs arbitrary: thesis rule: rev_induct)
  case (snoc x xs)
  show ?case
  proof (cases "Q (run_chain RT xs s)")
    case True
    then obtain ys y zs s' where "xs = ys @ y # zs" "chain_step RT y (run_chain RT ys s) = Ok s'"
      "\<not> Q (run_chain RT ys s)" "Q s'" "run_chain RT (ys @ [y]) s = s'"
      using snoc.IH by blast
    then show ?thesis by (intro snoc.prems(1)[of ys y "zs @ [x]" s']) simp_all
  next
    case False
    then obtain s' where "chain_step RT x (run_chain RT xs s) = Ok s'" "Q s'"
      using snoc.prems(2) by (auto simp: run_chain_snoc split: result.splits)
    then show ?thesis using False by (intro snoc.prems(1)[of xs x "[]" s']) (simp_all add: run_chain_snoc)
  qed
qed (use assms(1) in simp)

section \<open>Properties\<close>

text \<open>
  C5. The invariants of all pallets hold together in every run of the chain, with the calls of all
  pallets, blocks, offences and steps of the Substrate pallets in any order: permission lists
  stay within their bounds, every registered key was proved to belong to its account, every stored
  attestation verifies, tables and contracts are consistent, and every decided batch has a
  non-empty quorum of recorded submitters. A run of extrinsics none of whose origins is allowed to
  make its call changes nothing at all.
\<close>

theorem runtime_sound:
  assumes "runtime_inv (rt_crypto RT) s"
  shows "runtime_inv (rt_crypto RT) (run_chain RT xs s)
    \<and> (list_all (\<lambda>x. case x of Extrinsic c orig \<Rightarrow> \<not> runtime_allowed c orig s | _ \<Rightarrow> False) xs \<longrightarrow> run_chain RT xs s = s)"
proof
  show "list_all (\<lambda>x. case x of Extrinsic c orig \<Rightarrow> \<not> runtime_allowed c orig s | _ \<Rightarrow> False) xs \<longrightarrow> run_chain RT xs s = s"
  proof
    assume none: "list_all (\<lambda>x. case x of Extrinsic c orig \<Rightarrow> \<not> runtime_allowed c orig s | _ \<Rightarrow> False) xs"
    show "run_chain RT xs s = s"
    proof (rule run_chain_preserves[where I = "\<lambda>s'. s' = s"])
      fix x s1 s' assume x: "x \<in> set xs" "s1 = s" "chain_step RT x s1 = Ok s'"
      then have "case x of Extrinsic c orig \<Rightarrow> \<not> runtime_allowed c orig s | _ \<Rightarrow> False"
        using none unfolding list_all_iff by blast
      then obtain c orig where "x = Extrinsic c orig" "\<not> runtime_allowed c orig s" by (cases x) auto
      then show "s' = s" using x runtime_guard.denied[of c orig s RT] by auto
    qed simp
  qed
qed (rule run_chain_inv[OF assms])

definition extends :: "('x, 'a) system_contracts_state_scheme \<Rightarrow> ('x, 'a) system_contracts_state_scheme \<Rightarrow> bool" where
  "extends s s' \<longleftrightarrow> (\<forall>b dq. sm_get (FinalData s) b = Some dq \<longrightarrow> sm_get (FinalData s') b = Some dq)
     \<and> (\<forall>b. \<exists>new. sm_get_or [] (Attestations s') b = sm_get_or [] (Attestations s) b @ new)
     \<and> (\<exists>ev. events s' = events s @ ev) \<and> NextPaidEra s \<le> NextPaidEra s'"

lemma extends_trans: "extends s s1 \<Longrightarrow> extends s1 s2 \<Longrightarrow> extends s s2"
proof -
  assume e: "extends s s1" "extends s1 s2"
  have "\<exists>new. sm_get_or [] (Attestations s2) b = sm_get_or [] (Attestations s) b @ new" for b
    using e unfolding extends_def by (metis append_assoc)
  moreover have "\<exists>ev. events s2 = events s @ ev" using e by (auto simp: extends_def)
  moreover have "NextPaidEra s \<le> NextPaidEra s2" using e order_trans unfolding extends_def by blast
  ultimately show "extends s s2" using e by (simp add: extends_def)
qed

lemma outside_extends: "outside s s' \<Longrightarrow> extends s s'"
  by (simp add: outside_def extends_def)

lemma attestations_grow:
  assumes "attestation_dispatch C c orig s = Ok s'"
  shows "\<exists>new. sm_get_or [] (Attestations s') b = sm_get_or [] (Attestations s) b @ new"
  using assms by (cases c) (auto simp: attest_block_Ok mark_block_forwarded_def res_Ok_iff deposit_event_def sm_get_or_def)

lemma runtime_dispatch_extends:
  assumes "submissions_inv P s" "runtime_dispatch RT c orig s = Ok s'"
  shows "extends s s'"
proof -
  note w = runtime_written[OF assms, unfolded written_by_def]
  have "sm_get (FinalData s') b = Some dq" if "sm_get (FinalData s) b = Some dq" for b dq
  proof (cases c)
    case (IndexingCall x)
    then show ?thesis using assms(2) that submit_data_inner_final[OF _ assms(1)]
      by (cases x) (auto simp: submit_data_def submit_blockchain_data_def)
  qed (use w that in simp_all)
  moreover have "\<exists>new. sm_get_or [] (Attestations s') b = sm_get_or [] (Attestations s) b @ new" for b
    using w assms(2) attestations_grow[of _ _ orig s s'] by (cases c) auto
  ultimately show ?thesis using w by (simp add: extends_def)
qed

lemma chain_step_extends:
  assumes "runtime_inv (rt_crypto RT) s" "chain_step RT x s = Ok s'"
  shows "extends s s'"
proof (cases x)
  case (Extrinsic c orig)
  then show ?thesis using assms runtime_dispatch_extends by (auto simp: runtime_inv_def)
qed (use chain_step_outside[OF assms(2)] outside_extends in auto)


lemma submission_decides:
  assumes inv: "submissions_inv P s" and run: "submit_data_inner E S hash orig table b data bn s = Ok s'"
    and new: "sm_get (FinalData s) b' = None" "sm_get (FinalData s') b' = Some dq"
  shows "b' = b \<and> dq_table dq = table \<and> quorum_recorded s' b dq \<and> quorum_size_ok s dq"
proof (rule submit_data_inner_Ok[OF run inv])
  fix s2 assume a: "announced (s\<lparr>Submissions := Submissions s2\<rparr>) s2"
    and "s' = s2 \<or> (\<exists>dq. quorum_recorded s2 b dq \<and> quorum_size_ok s dq \<and> dq_table dq = table \<and> finalize_quorum E S dq data bn s2 = Ok s')"
  moreover have final: "FinalData s2 = FinalData s" using a by (simp add: announced_def)
  ultimately obtain dq' where dq': "quorum_recorded s2 b dq'" "quorum_size_ok s dq'" "dq_table dq' = table"
    "finalize_quorum E S dq' data bn s2 = Ok s'"
    using new by auto
  have k: "FinalData s' = sm_insert (dq_batch_id dq') dq' (FinalData s)" "set (events s2) \<subseteq> set (events s')"
    using finalize_quorum_kept[OF dq'(4), where a = undefined] final by auto
  have "b' = dq_batch_id dq' \<and> dq = dq'" using new unfolding k(1) by (auto split: if_splits)
  moreover have "dq_batch_id dq' = b" using dq'(1) by (simp add: quorum_recorded_def)
  ultimately show ?thesis using dq'(2,3) quorum_recorded_mono[OF dq'(1) k(2)] by simp
qed

fun submission_table :: "indexing_call \<Rightarrow> table_identifier" where
  "submission_table (SubmitData table _ _) = table"
| "submission_table (SubmitBlockchainData table _ _ _) = table"

fun submission_batch :: "indexing_call \<Rightarrow> batch_id" where
  "submission_batch (SubmitData _ b _) = b"
| "submission_batch (SubmitBlockchainData _ b _ _) = b"

text \<open>
  C2. Every decision is backed. A batch that is decided after a run of the chain and was not
  before was decided in exactly one step of it, by a submission for that batch and the table of
  the quorum, signed by an account with the right to submit for the table at that moment. The
  quorum has more agreeing submitters than the quorum size the table had at that moment, however
  the size is changed later, and all of them are on record with the decided data. No other call
  of any pallet, root's included, decides a batch.
\<close>

theorem decisions_backed:
  assumes "runtime_inv (rt_crypto RT) s" "sm_get (FinalData s) b = None" "sm_get (FinalData (run_chain RT xs s)) b = Some dq"
  shows "\<exists>ys zs c who. xs = ys @ Extrinsic (IndexingCall c) (Signed who) # zs
    \<and> submission_batch c = b \<and> submission_table c = dq_table dq
    \<and> indexing_allowed c (Signed who) (run_chain RT ys s) \<and> quorum_size_ok (run_chain RT ys s) dq
    \<and> quorum_recorded (run_chain RT (ys @ [Extrinsic (IndexingCall c) (Signed who)]) s) b dq"
proof -
  have "\<not> (\<lambda>s. sm_get (FinalData s) b = Some dq) s" using assms(2) by simp
  from run_chain_change[of "\<lambda>s. sm_get (FinalData s) b = Some dq", OF this assms(3)]
  obtain ys x zs s' where xs: "xs = ys @ x # zs" and run: "chain_step RT x (run_chain RT ys s) = Ok s'"
    and change: "sm_get (FinalData (run_chain RT ys s)) b \<noteq> Some dq" "sm_get (FinalData s') b = Some dq"
    and s': "run_chain RT (ys @ [x]) s = s'" by blast
  let ?s = "run_chain RT ys s"
  note inv = run_chain_inv[OF assms(1), of ys]
  then have sub: "submissions_inv (\<lambda>dq. dq_agreements dq \<noteq> []) ?s" by (simp add: runtime_inv_def)
  have new: "sm_get (FinalData ?s) b = None"
    using change chain_step_extends[OF inv run] by (cases "sm_get (FinalData ?s) b") (auto simp: extends_def)
  obtain c orig where x: "x = Extrinsic c orig" and call: "runtime_dispatch RT c orig ?s = Ok s'"
    using chain_step_outside[OF run] change run by (cases x) (auto simp: outside_def)
  then obtain i where c: "c = IndexingCall i"
    using runtime_written[OF sub call] change by (cases c) (auto simp: written_by_def)
  have allowed: "indexing_allowed i orig ?s" using runtime_guard.denied[of c orig ?s RT] call by (auto simp: c)
  then obtain who where o: "orig = Signed who" by (cases i) auto
  obtain data bn where inner: "submit_data_inner (rt_ext RT) (rt_substrate RT) (rt_hash RT) orig (submission_table i) (submission_batch i) data bn ?s = Ok s'"
    using call unfolding c by (cases i) (auto simp: submit_data_def submit_blockchain_data_def)
  have "submission_batch i = b \<and> submission_table i = dq_table dq \<and> quorum_recorded s' b dq \<and> quorum_size_ok ?s dq"
    using submission_decides[OF sub inner new change(2)] by simp
  then show ?thesis using xs x c o allowed s' by blast
qed

text \<open>
  C3. Rights are traceable. A permission an account has after a run of the chain and did not have
  before was granted in a step of it by a call of the permissions pallet, whose origin was root or
  an account that held, at that moment, \<open>UpdatePermissions\<close> or the right to edit exactly that
  permission. No call of another pallet grants anything.
\<close>

theorem rights_traced:
  assumes "runtime_inv (rt_crypto RT) s" "\<not> has_permissions s who p" "has_permissions (run_chain RT xs s) who p"
  shows "\<exists>ys zs c orig. xs = ys @ Extrinsic (PermissionsCall c) orig # zs
    \<and> (permitted (run_chain RT ys s) orig UpdatePermissions \<or> permitted (run_chain RT ys s) orig (EditSpecificPermission p))"
proof -
  obtain ys x zs s' where xs: "xs = ys @ x # zs" and run: "chain_step RT x (run_chain RT ys s) = Ok s'"
    and change: "\<not> has_permissions (run_chain RT ys s) who p" "has_permissions s' who p"
    by (rule run_chain_change[of "\<lambda>s. has_permissions s who p" s RT xs, OF assms(2,3)])
  let ?s = "run_chain RT ys s"
  have sub: "submissions_inv (\<lambda>dq. dq_agreements dq \<noteq> []) ?s"
    using run_chain_inv[OF assms(1), of ys] by (simp add: runtime_inv_def)
  have perm: "Permissions s' \<noteq> Permissions ?s" using change by (auto simp: has_permissions_iff)
  have "\<exists>c orig. x = Extrinsic c orig" using chain_step_outside[OF run] perm by (auto simp: outside_def)
  then obtain c orig where x: "x = Extrinsic c orig" and call: "runtime_dispatch RT c orig ?s = Ok s'" using run by auto
  then obtain d where c: "c = PermissionsCall d"
    using runtime_written[OF sub call] perm by (cases c) (auto simp: written_by_def)
  have "permissions_dispatch d orig ?s = Ok s'" using call by (simp add: c)
  from no_privilege_escalation[OF this change(2,1)] show ?thesis using xs x c by blast
qed

lemma user_nonce_outside: "outside s s' \<Longrightarrow> user_nonce s' = user_nonce s"
  by (simp add: outside_def user_nonce_def fun_eq_iff)

text \<open>
  C11. No message is handled twice on the chain: as long as root does not reset nonces, a message
  row whose nonce has been taken is refused after every run of the chain, and changes nothing.
\<close>

theorem chain_refuses_replay:
  assumes "runtime_inv (rt_crypto RT) s" "message_row row = Some (a, body, n)" "unat n \<le> user_nonce s a"
    and "\<And>w k. Extrinsic (SystemTablesCall w k) Root \<notin> set xs"
  shows "fst (evm_message_row S row (run_chain RT xs s)) = run_chain RT xs s
    \<and> \<not> is_ok (snd (evm_message_row S row (run_chain RT xs s)))"
proof -
  let ?I = "\<lambda>s'. user_nonce s a \<le> user_nonce s' a \<and> runtime_inv (rt_crypto RT) s'"
  have "?I (run_chain RT xs s)"
  proof (rule run_chain_preserves[where I = ?I])
    fix x s1 s2 assume x: "x \<in> set xs" and I: "?I s1" and run: "chain_step RT x s1 = Ok s2"
    have "user_nonce s1 a \<le> user_nonce s2 a"
    proof (cases x)
      case (Extrinsic c orig)
      then have "written_by c s1 s2" using I run runtime_written by (auto simp: runtime_inv_def)
      moreover have "\<not> is_SystemTablesCall c"
        using run x assms(4) Extrinsic by (cases c; cases orig) (auto simp: set_last_nonce_def)
      ultimately show ?thesis by (simp add: written_by_def)
    qed (use user_nonce_outside[OF chain_step_outside[OF run]] in simp_all)
    then show "?I s2" using I chain_step_inv[OF _ run] by auto
  qed (use assms(1) in simp)
  then have "unat n \<le> user_nonce (run_chain RT xs s) a" using assms(3) by linarith
  then show ?thesis using late_message[OF assms(2)] by blast
qed

section \<open>A small chain\<close>

definition demo_no_rewards :: "(account_id \<Rightarrow> u128) rewards_ext" where
  "demo_no_rewards = \<lparr>rx_active_era = \<lambda>_. None, rx_eras_reward_points = \<lambda>_ _. [], rx_pending_rewards = \<lambda>_ _ _. False,
     rx_payout_stakers = \<lambda>_ _ _ x. (x, Ok ()), rx_single_call_weight = weight_zero\<rparr>"

definition demo_runtime :: "(nat \<times> ident list, unit, u256, nat \<times> ident list, unit, u256, bytes, bytes, bytes, account_id \<Rightarrow> u128) runtime_ext" where
  "demo_runtime = \<lparr>rt_ext = demo_indexing_ext, rt_sql = demo_sql, rt_crypto = demo_crypto, rt_substrate = demo_substrate,
     rt_rewards = demo_no_rewards, rt_hash = \<lambda>d _. d\<rparr>"

definition demo_chain :: "(account_id \<Rightarrow> u128) system_contracts_state" where
  "demo_chain = rewards_state.extend (smartcontracts_state.extend demo_contract_state (rewards_state.fields 0 None))
     (system_contracts_state.fields demo_contract_info demo_contract_info)"

lemmas demo_chain_defs = demo_chain_def system_contracts_state.defs rewards_state.defs demo_contract_defs

lemma demo_runtime_crypto [simp]: "rt_crypto demo_runtime = demo_crypto"
  by (simp add: demo_runtime_def)

lemma demo_chain_inv: "runtime_inv demo_crypto demo_chain"
proof -
  have schema: "schema_of demo_chain t = schema_of demo_contract_state t" for t
    by (simp add: schema_of_def demo_chain_defs)
  have "smartcontracts_inv demo_chain"
    using demo_contract_inv unfolding smartcontracts_inv_def tables_inv_def schema by (simp add: demo_chain_defs)
  moreover have "permissions_inv demo_chain"
    by (simp add: permissions_inv_def demo_chain_defs sm_wf_def sm_get_def PERMISSION_LIST_MAX_def)
  moreover have "keystore_inv demo_crypto demo_chain" by (simp add: keystore_inv_def registered_key_def demo_chain_defs)
  moreover have "attestation_inv demo_crypto demo_chain"
    by (simp add: attestation_inv_def demo_chain_defs block_attestations_ok_def sm_get_or_def)
  moreover have "submissions_inv (\<lambda>dq. dq_agreements dq \<noteq> []) demo_chain"
    by (simp add: submissions_inv_def demo_chain_defs)
  ultimately show ?thesis by (simp add: runtime_inv_def)
qed

lemma demo_chain_ready: "demo_ready demo_chain"
  by (simp add: demo_ready_def) (simp add: demo_chain_defs)

definition demo_submission :: "(account_id \<Rightarrow> u128) chain_action" where
  "demo_submission = Extrinsic (IndexingCall (SubmitData demo_table_id ''b'' ''d'')) (Signed ''alice'')"

lemma demo_submission_runs:
  obtains s' dq where "run_chain demo_runtime [demo_submission] demo_chain = s'" "sm_get (FinalData s') ''b'' = Some dq"
proof -
  obtain s' dq where "submit_data_inner demo_indexing_ext demo_substrate (\<lambda>d _. d) (Signed ''alice'') demo_table_id ''b'' ''d'' None demo_chain = Ok s'"
    "sm_get (FinalData s') ''b'' = Some dq"
    using demo_submission_decides[OF demo_chain_ready, of demo_substrate] by blast
  then show thesis
    by (intro that[of s' dq]) (simp_all add: run_chain_def demo_submission_def demo_runtime_def submit_data_def)
qed

theorem runtime_sound_witness:
  "runtime_inv demo_crypto (run_chain demo_runtime [demo_submission, NewBlock, Offence [''v'']] demo_chain)
   \<and> run_chain demo_runtime [Extrinsic (TablesCall ClearTables) (Signed ''alice''), Extrinsic (RewardsCall ''alice'') Unsigned] demo_chain
      = demo_chain"
  using runtime_sound[of demo_runtime demo_chain "[demo_submission, NewBlock, Offence [''v'']]"]
    runtime_sound[of demo_runtime demo_chain "[Extrinsic (TablesCall ClearTables) (Signed ''alice''), Extrinsic (RewardsCall ''alice'') Unsigned]"]
    demo_chain_inv
  by simp


theorem decisions_backed_witness:
  "\<exists>dq c who. sm_get (FinalData (run_chain demo_runtime [demo_submission] demo_chain)) ''b'' = Some dq
     \<and> demo_submission = Extrinsic (IndexingCall c) (Signed who) \<and> submission_table c = dq_table dq \<and> quorum_size_ok demo_chain dq"
proof -
  obtain dq where dq: "sm_get (FinalData (run_chain demo_runtime [demo_submission] demo_chain)) ''b'' = Some dq"
    using demo_submission_runs by metis
  have none: "sm_get (FinalData demo_chain) ''b'' = None" using demo_chain_ready by (simp add: demo_ready_def)
  obtain ys zs c who where "[demo_submission] = ys @ Extrinsic (IndexingCall c) (Signed who) # zs"
    "submission_table c = dq_table dq" "quorum_size_ok (run_chain demo_runtime ys demo_chain) dq"
    using decisions_backed[OF _ none dq] demo_chain_inv by auto
  then have "demo_submission = Extrinsic (IndexingCall c) (Signed who)" "submission_table c = dq_table dq" "quorum_size_ok demo_chain dq"
    by (auto simp: Cons_eq_append_conv)
  with dq show ?thesis by blast
qed

lemma runtime_inv_other:
  assumes "runtime_inv C s"
  shows "permissions_inv (s\<lparr>Permissions := p\<rparr>) \<Longrightarrow> runtime_inv C (s\<lparr>Permissions := p\<rparr>)"
    "runtime_inv C (s\<lparr>LastProcessedUserNonce := n\<rparr>)"
  using assms smartcontracts_inv_cong[of "s\<lparr>Permissions := p\<rparr>" s] smartcontracts_inv_cong[of "s\<lparr>LastProcessedUserNonce := n\<rparr>" s]
    submissions_inv_grow[of _ s "s\<lparr>Permissions := p\<rparr>"] submissions_inv_grow[of _ s "s\<lparr>LastProcessedUserNonce := n\<rparr>"]
    invariants_cong(1)[of "s\<lparr>LastProcessedUserNonce := n\<rparr>" s]
    invariants_cong(2)[of "s\<lparr>Permissions := p\<rparr>" s C] invariants_cong(2)[of "s\<lparr>LastProcessedUserNonce := n\<rparr>" s C]
    invariants_cong(3)[of "s\<lparr>Permissions := p\<rparr>" s C] invariants_cong(3)[of "s\<lparr>LastProcessedUserNonce := n\<rparr>" s C]
  by (simp_all add: runtime_inv_def)

theorem rights_traced_witness:
  "let s = demo_chain\<lparr>Permissions := [(''alice'', [UpdatePermissions])]\<rparr>;
       x = Extrinsic (PermissionsCall (SetPermissions ''bob'' [TablesPallet EditSchema])) (Signed ''alice'')
   in has_permissions (run_chain demo_runtime [x] s) ''bob'' (TablesPallet EditSchema)
      \<and> (\<exists>c orig. x = Extrinsic (PermissionsCall c) orig
           \<and> (permitted s orig UpdatePermissions \<or> permitted s orig (EditSpecificPermission (TablesPallet EditSchema))))"
proof -
  define s where "s = demo_chain\<lparr>Permissions := [(''alice'', [UpdatePermissions])]\<rparr>"
  define x :: "(account_id \<Rightarrow> u128) chain_action"
    where "x = Extrinsic (PermissionsCall (SetPermissions ''bob'' [TablesPallet EditSchema])) (Signed ''alice'')"
  have inv: "runtime_inv (rt_crypto demo_runtime) s"
    unfolding s_def demo_runtime_crypto
    by (rule runtime_inv_other(1)[OF demo_chain_inv]) (simp add: permissions_inv_def sm_wf_def sm_get_def PERMISSION_LIST_MAX_def)
  have no: "\<not> has_permissions s ''bob'' (TablesPallet EditSchema)" by (simp add: s_def has_permissions_iff sm_get_or_def sm_get_def)
  have yes: "has_permissions (run_chain demo_runtime [x] s) ''bob'' (TablesPallet EditSchema)"
    by (simp add: run_chain_def x_def s_def set_permissions_def has_permissions_iff sm_get_or_def sm_get_def sm_insert_def Let_def
        PERMISSION_LIST_MAX_def deposit_event_def)
  obtain ys zs c orig where "[x] = ys @ Extrinsic (PermissionsCall c) orig # zs"
    "permitted (run_chain demo_runtime ys s) orig UpdatePermissions
      \<or> permitted (run_chain demo_runtime ys s) orig (EditSpecificPermission (TablesPallet EditSchema))"
    using rights_traced[OF inv no yes] by blast
  then have "x = Extrinsic (PermissionsCall c) orig" "permitted s orig UpdatePermissions \<or> permitted s orig (EditSpecificPermission (TablesPallet EditSchema))"
    by (auto simp: Cons_eq_append_conv)
  with yes show ?thesis unfolding Let_def s_def[symmetric] x_def[symmetric] by blast
qed

theorem chain_refuses_replay_witness:
  "let s = demo_chain\<lparr>LastProcessedUserNonce := [(eth_account demo_address, 1)]\<rparr>;
       s' = run_chain demo_runtime [demo_submission, NewBlock] s
   in fst (evm_message_row demo_substrate demo_message s') = s' \<and> \<not> is_ok (snd (evm_message_row demo_substrate demo_message s'))"
proof -
  define s where "s = demo_chain\<lparr>LastProcessedUserNonce := [(eth_account demo_address, 1)]\<rparr>"
  have inv: "runtime_inv (rt_crypto demo_runtime) s" unfolding s_def demo_runtime_crypto by (rule runtime_inv_other(2)[OF demo_chain_inv])
  have row: "message_row demo_message = Some (eth_account demo_address, ''k'', 1)"
    by (simp add: message_row_def demo_message_def demo_address_def)
  have "unat (1 :: u256) \<le> user_nonce s (eth_account demo_address)" by (simp add: s_def user_nonce_def sm_get_or_def sm_get_def)
  from chain_refuses_replay[OF inv row this, of "[demo_submission, NewBlock]" demo_substrate]
  show ?thesis unfolding Let_def s_def[symmetric] by (simp add: demo_submission_def)
qed

end
