(* ===== verification/Sxt_Rpc.thy ===== *)
theory Sxt_Rpc
  imports Sxt_Runtime "HOL-Library.Product_Lexorder"
begin

text \<open>
  \<open>rpc\<close>: the node's RPCs on attestations (\<open>attestation/api_impl.rs\<close>) and on commitments
  (\<open>commitments/api_impl.rs\<close>, \<open>proof_plan_for_query_and_commitments.rs\<close>). They read the storage of
  a block through the client, build the attestation tree of that block, and answer with
  attestations, with commitments and their Merkle proofs, and with proof plans.

  The client, bincode, the SQL parser and the planner of proof-of-sql are external.
\<close>

section \<open>The client\<close>

record 'b client_ext =
  cl_best_hash :: 'b
  cl_number :: "'b \<Rightarrow> (u32 option, bytes) result"
  cl_hash :: "u32 \<Rightarrow> ('b option, bytes) result"
  cl_storage :: "'b \<Rightarrow> bytes \<Rightarrow> (bytes option, bytes) result"
  cl_storage_pairs :: "'b \<Rightarrow> bytes \<Rightarrow> ((bytes \<times> bytes) list, bytes) result"
  cl_table_commitments_any_scheme ::
    "'b \<Rightarrow> table_identifier list \<Rightarrow> ((bytes list, bytes list) any_commitment_scheme option, bytes) result"

section \<open>Attestations\<close>

record attestations_codec =
  ac_prefix :: bytes
  ac_u32 :: "u32 codec"
  ac_attestations :: "attestation list codec"

datatype attestation_api_error = ChainQuery bytes | BlockNumberQuery | BlockHashQuery | DecodeAttestations

fun attestation_api_error_code :: "attestation_api_error \<Rightarrow> int" where
  "attestation_api_error_code (ChainQuery _) = 255000 + 0"
| "attestation_api_error_code BlockNumberQuery = 255000 + 1"
| "attestation_api_error_code BlockHashQuery = 255000 + 2"
| "attestation_api_error_code DecodeAttestations = 255000 + 3"

record 'b attestations_response =
  ar_attestations :: "attestation list"
  ar_attestations_for :: 'b
  ar_attestations_for_block_number :: u32
  ar_at :: 'b

definition storage_key_for_attestations_for_block_number :: "storage_ext \<Rightarrow> attestations_codec \<Rightarrow> u32 \<Rightarrow> bytes" where
  "storage_key_for_attestations_for_block_number L AC n =
     (let storage_prefix = ac_prefix AC;
          key_suffix = hx_hash (sx_blake2_128_concat L) (cx_encode (ac_u32 AC) n)
      in storage_prefix @ key_suffix)"

text \<open>The encoding of an empty vector is one zero byte, whatever its elements.\<close>

definition empty_vec_encoded :: bytes where
  "empty_vec_encoded = [char_of (0::nat)]"

definition v1_attestations_for_block ::
    "'b client_ext \<Rightarrow> storage_ext \<Rightarrow> attestations_codec \<Rightarrow> 'b \<Rightarrow> 'b option
     \<Rightarrow> ('b attestations_response, attestation_api_error) result" where
  "v1_attestations_for_block CL L AC attestations_for at =
     (let at = (case at of Some at \<Rightarrow> at | None \<Rightarrow> cl_best_hash CL) in
     bind_res (map_err ChainQuery (cl_number CL attestations_for)) (\<lambda>number.
     bind_res (ok_or number BlockNumberQuery) (\<lambda>attestations_for_block_number.
     bind_res (map_err ChainQuery
       (cl_storage CL at (storage_key_for_attestations_for_block_number L AC attestations_for_block_number))) (\<lambda>data.
     let attestations_bytes = (case data of Some bytes \<Rightarrow> bytes | None \<Rightarrow> empty_vec_encoded) in
     bind_res (ok_or (cx_decode (ac_attestations AC) attestations_bytes) DecodeAttestations) (\<lambda>(attestations, _).
     Ok \<lparr>ar_attestations = attestations, ar_attestations_for = attestations_for,
         ar_attestations_for_block_number = attestations_for_block_number, ar_at = at\<rparr>)))))"

text \<open>\<open>Iterator::max_by_key\<close>: the last of the elements with the largest key.\<close>

fun max_by_key :: "('a \<Rightarrow> 'k::linorder) \<Rightarrow> 'a list \<Rightarrow> 'a option" where
  "max_by_key key [] = None"
| "max_by_key key (x # xs) = Some (foldl (\<lambda>best y. if key best \<le> key y then y else best) x xs)"

definition MINUTES :: u32 where "MINUTES = 60000 div 3000"

definition saturating_sub :: "'a::len word \<Rightarrow> 'a word \<Rightarrow> 'a word" where
  "saturating_sub a b = (if a < b then 0 else a - b)"

definition block_range :: "u32 \<Rightarrow> u32 \<Rightarrow> u32 list" where
  "block_range a b = map word_of_nat [unat a ..< Suc (unat b)]"

definition v1_best_recent_attestations ::
    "'b client_ext \<Rightarrow> storage_ext \<Rightarrow> attestations_codec \<Rightarrow> 'b option
     \<Rightarrow> ('b attestations_response, attestation_api_error) result" where
  "v1_best_recent_attestations CL L AC at =
     (let at = (case at of Some at \<Rightarrow> at | None \<Rightarrow> cl_best_hash CL) in
     bind_res (map_err ChainQuery (cl_number CL at)) (\<lambda>number.
     bind_res (ok_or number BlockNumberQuery) (\<lambda>end_block_number.
     let start_block_number = saturating_sub end_block_number MINUTES in
     bind_res (collect_res (\<lambda>block_number.
         bind_res (map_err ChainQuery (cl_hash CL block_number)) (\<lambda>h.
         bind_res (ok_or h BlockHashQuery) (\<lambda>attestations_for.
         v1_attestations_for_block CL L AC attestations_for (Some at))))
       (block_range start_block_number end_block_number)) (\<lambda>responses.
     unwrap_opt (max_by_key (\<lambda>response. (length (ar_attestations response), ar_attestations_for_block_number response))
       responses)))))"

section \<open>Verifiable commitments\<close>

type_synonym table_ref = "bytes option \<times> bytes"

record ('plan, 'evm, 'stmt, 'h, 'd) plan_ext =
  px_uc :: "bytes \<Rightarrow> bytes"
  px_decode_evm :: "bytes \<Rightarrow> 'evm option"
  px_encode_evm :: "'evm \<Rightarrow> bytes option"
  px_decode_dyn :: "bytes \<Rightarrow> 'plan option"
  px_encode_dyn :: "'plan \<Rightarrow> bytes option"
  px_evm_new :: "'plan \<Rightarrow> 'evm"
  px_evm_into_inner :: "'evm \<Rightarrow> 'plan"
  px_table_references :: "'plan \<Rightarrow> table_ref list"
  px_parse_sql :: "bytes \<Rightarrow> ('stmt list, bytes) result"
  px_uppercase_identifiers :: "'stmt \<Rightarrow> 'stmt"
  px_table_refs_from_statement :: "'stmt \<Rightarrow> (table_ref list, bytes) result"
  px_codec_h :: "'h table_commitment_codec"
  px_codec_d :: "'d table_commitment_codec"
  px_plans_h :: "'stmt list \<Rightarrow> (table_ref \<times> 'h) list \<Rightarrow> ('plan list, bytes) result"
  px_plans_d :: "'stmt list \<Rightarrow> (table_ref \<times> 'd) list \<Rightarrow> ('plan list, bytes) result"

definition PROOF_PLAN_SIZE_LIMIT :: nat where "PROOF_PLAN_SIZE_LIMIT = 65536"
definition NUM_TABLES_LIMIT :: nat where "NUM_TABLES_LIMIT = 64"
definition QUERY_SIZE_LIMIT :: nat where "QUERY_SIZE_LIMIT = 65536"
definition MAX_TABLES_IN_TABLE_COMMITMENTS_QUERY :: nat where "MAX_TABLES_IN_TABLE_COMMITMENTS_QUERY = 64"

datatype commitments_api_error =
    ProofPlanSizeLimit nat
  | DeserializeProofPlan
  | TableIdentifierConversion table_identifier_conversion_error
  | NumTablesLimit nat
  | StorageQuery bytes
  | NoSuchCommitment
  | CommitmentDecode
  | AttestationTreeFailed attestation_tree_error
  | AttestationTreeProof attestation_tree_proof_error
  | NoStakingContract
  | QuerySizeLimit nat
  | QueryParse bytes
  | NotOneStatement nat
  | ProofOfSqlIncompatibleRelation bytes
  | RuntimeApi bytes
  | UnexpectedTableCommitmentMismap nat nat
  | DeserializeTableCommitment
  | Planner bytes
  | IncompleteCommitmentCoverage
  | EncodeProofPlan

fun commitments_api_error_code :: "commitments_api_error \<Rightarrow> int" where
  "commitments_api_error_code (ProofPlanSizeLimit _) = 254000 + 0"
| "commitments_api_error_code DeserializeProofPlan = 254000 + 1"
| "commitments_api_error_code (TableIdentifierConversion _) = 254000 + 2"
| "commitments_api_error_code (NumTablesLimit _) = 254000 + 3"
| "commitments_api_error_code (StorageQuery _) = 254000 + 4"
| "commitments_api_error_code NoSuchCommitment = 254000 + 5"
| "commitments_api_error_code CommitmentDecode = 254000 + 6"
| "commitments_api_error_code (AttestationTreeFailed _) = 254000 + 7"
| "commitments_api_error_code (AttestationTreeProof _) = 254000 + 8"
| "commitments_api_error_code NoStakingContract = 254000 + 9"
| "commitments_api_error_code (QuerySizeLimit _) = 254000 + 10"
| "commitments_api_error_code (QueryParse _) = 254000 + 11"
| "commitments_api_error_code (NotOneStatement _) = 254000 + 12"
| "commitments_api_error_code (ProofOfSqlIncompatibleRelation _) = 254000 + 13"
| "commitments_api_error_code (RuntimeApi _) = 254000 + 14"
| "commitments_api_error_code (UnexpectedTableCommitmentMismap _ _) = 254000 + 15"
| "commitments_api_error_code DeserializeTableCommitment = 254000 + 16"
| "commitments_api_error_code (Planner _) = 254000 + 17"
| "commitments_api_error_code IncompleteCommitmentCoverage = 254000 + 18"
| "commitments_api_error_code EncodeProofPlan = 254000 + 19"

record verifiable_commitment =
  vc_commitment :: bytes
  vc_merkle_proof :: "bytes list"

record 'b verifiable_commitments_response =
  vr_verifiable_commitments :: "(bytes \<times> verifiable_commitment) list"
  vr_at :: 'b

definition try_from_bincode_as_dyn_proof_plan :: "('plan, 'evm, 'stmt, 'h, 'd) plan_ext \<Rightarrow> bytes \<Rightarrow> 'plan option" where
  "try_from_bincode_as_dyn_proof_plan PX bytes =
     (case px_decode_evm PX bytes of
        Some proof_plan \<Rightarrow> Some (px_evm_into_inner PX proof_plan)
      | None \<Rightarrow> px_decode_dyn PX bytes)"

definition storage_key_for :: "('k, 'v) prefix_foliate \<Rightarrow> bytes" where
  "storage_key_for PF = pf_prefix_hash PF"

definition v1_verifiable_commitments_for_proof_plan ::
    "'b client_ext \<Rightarrow> 't merkle_ext \<Rightarrow> storage_ext \<Rightarrow> bytes \<Rightarrow> ('plan, 'evm, 'stmt, 'h, 'd) plan_ext
     \<Rightarrow> bytes \<Rightarrow> commitment_scheme \<Rightarrow> 'b option \<Rightarrow> ('b verifiable_commitments_response, commitments_api_error) result" where
  "v1_verifiable_commitments_for_proof_plan CL MT L staking_contract_prefix PX proof_plan commitment_scheme at =
     (let proof_plan_size = length proof_plan in
     if proof_plan_size > PROOF_PLAN_SIZE_LIMIT then Err (ProofPlanSizeLimit proof_plan_size)
     else
     bind_res (ok_or (try_from_bincode_as_dyn_proof_plan PX proof_plan) DeserializeProofPlan) (\<lambda>proof_plan.
     bind_res (map_err TableIdentifierConversion
       (collect_res (\<lambda>(schema_id, table_id). table_identifier_from_table_ref (px_uc PX) schema_id table_id)
         (px_table_references PX proof_plan))) (\<lambda>table_identifiers.
     let num_tables = length table_identifiers in
     if num_tables > NUM_TABLES_LIMIT then Err (NumTablesLimit num_tables)
     else
     let at = (case at of Some at \<Rightarrow> at | None \<Rightarrow> cl_best_hash CL) in
     bind_res (collect_res (\<lambda>table_identifier.
         let storage_key = storage_key_for_prefix_key_tuple (commitment_map_prefix_foliate L) (table_identifier, commitment_scheme, ()) in
         bind_res (map_err StorageQuery (cl_storage CL at storage_key)) (\<lambda>data.
         bind_res (ok_or data NoSuchCommitment) (\<lambda>storage_bytes.
         bind_res (ok_or (cx_decode (sx_table_commitment_bytes L) storage_bytes) CommitmentDecode) (\<lambda>(table_commitment_bytes, _).
         Ok (table_identifier, table_commitment_bytes)))))
       table_identifiers) (\<lambda>table_commitments.
     bind_res (map_err StorageQuery (cl_storage_pairs CL at (storage_key_for (commitment_map_prefix_foliate L)))) (\<lambda>commitments_prefix_iter.
     bind_res (map_err StorageQuery (cl_storage_pairs CL at (storage_key_for (locks_staking_prefix_foliate L)))) (\<lambda>locks_prefix_iter.
     bind_res (map_err StorageQuery (cl_storage CL at staking_contract_prefix)) (\<lambda>data.
     bind_res (ok_or data NoStakingContract) (\<lambda>storage_contract_info.
     bind_res (map_err AttestationTreeFailed
       (attestation_tree_from_prefixes MT L commitments_prefix_iter locks_prefix_iter storage_contract_info)) (\<lambda>attestation_tree.
     bind_res (collect_res (\<lambda>(table_identifier, table_commitment_bytes).
         bind_res (map_err AttestationTreeProof (prove_leaf_pair MT (commitment_map_prefix_foliate L) attestation_tree
           (table_identifier, commitment_scheme, ()) table_commitment_bytes)) (\<lambda>merkle_proof.
         bind_res (expect_res (table_identifier_to_string table_identifier)) (\<lambda>table_identifier.
         Ok (table_identifier, \<lparr>vc_commitment = table_commitment_bytes, vc_merkle_proof = merkle_proof\<rparr>))))
       table_commitments) (\<lambda>verifiable_commitments.
     Ok \<lparr>vr_verifiable_commitments = index_map_collect verifiable_commitments, vr_at = at\<rparr>))))))))))"

section \<open>Proof plans\<close>

record 'b proof_plan_response =
  pr_proof_plan :: bytes
  pr_at :: 'b

record 'stmt statement_and_associated_table_refs =
  sr_statement :: 'stmt
  sr_table_refs :: "table_ref list"

definition statement_and_refs_try_from ::
    "('plan, 'evm, 'stmt, 'h, 'd) plan_ext \<Rightarrow> 'stmt \<Rightarrow> ('stmt statement_and_associated_table_refs, bytes) result" where
  "statement_and_refs_try_from PX statement =
     bind_res (px_table_refs_from_statement PX statement) (\<lambda>table_refs.
     Ok \<lparr>sr_statement = statement, sr_table_refs = table_refs\<rparr>)"

definition proof_plan_for_query_and_commitments ::
    "'c table_commitment_codec \<Rightarrow> ('stmt list \<Rightarrow> (table_ref \<times> 'c) list \<Rightarrow> ('plan list, bytes) result)
     \<Rightarrow> 'stmt statement_and_associated_table_refs \<Rightarrow> bytes list \<Rightarrow> ('plan, commitments_api_error) result" where
  "proof_plan_for_query_and_commitments C sql_to_proof_plans statement tcs =
     (let num_tables = length (sr_table_refs statement); num_commitments = length tcs in
     if num_tables \<noteq> num_commitments then Err (UnexpectedTableCommitmentMismap num_tables num_commitments)
     else
     bind_res (map_err (\<lambda>_. DeserializeTableCommitment) (collect_res (table_commitment_from_bytes C) tcs))
       (\<lambda>table_commitments_typed.
     let query_commitments = zip (sr_table_refs statement) table_commitments_typed in
     bind_res (map_err Planner (sql_to_proof_plans [sr_statement statement] query_commitments)) (\<lambda>proof_plans.
     if proof_plans = [] then Panic else Ok (last proof_plans))))"

definition v1_proof_plan ::
    "'b client_ext \<Rightarrow> ('plan, 'evm, 'stmt, 'h, 'd) plan_ext \<Rightarrow> bytes \<Rightarrow> 'b option
     \<Rightarrow> ('b proof_plan_response, commitments_api_error) result" where
  "v1_proof_plan CL PX query at =
     (let query_size = length query in
     if query_size > QUERY_SIZE_LIMIT then Err (QuerySizeLimit query_size)
     else
     bind_res (map_err QueryParse (px_parse_sql PX query)) (\<lambda>statements.
     bind_res (case statements of [statement] \<Rightarrow> Ok statement | _ \<Rightarrow> Err (NotOneStatement (length statements))) (\<lambda>statement.
     let statement = px_uppercase_identifiers PX statement in
     bind_res (map_err ProofOfSqlIncompatibleRelation (statement_and_refs_try_from PX statement)) (\<lambda>refs.
     let num_tables = length (sr_table_refs refs) in
     if num_tables > NUM_TABLES_LIMIT then Err (NumTablesLimit num_tables)
     else
     bind_res (map_err TableIdentifierConversion
       (collect_res (\<lambda>(schema_id, table_id). table_identifier_from_table_ref (px_uc PX) schema_id table_id)
         (sr_table_refs refs))) (\<lambda>table_identifiers.
     bind_res (expect_res (bounded_try_from MAX_TABLES_IN_TABLE_COMMITMENTS_QUERY table_identifiers ())) (\<lambda>table_identifiers.
     let at = (case at of Some at \<Rightarrow> at | None \<Rightarrow> cl_best_hash CL) in
     bind_res (map_err RuntimeApi (cl_table_commitments_any_scheme CL at table_identifiers)) (\<lambda>commitments.
     bind_res (ok_or commitments IncompleteCommitmentCoverage) (\<lambda>commitments.
     bind_res (any_unwrap (any_map
         (proof_plan_for_query_and_commitments (px_codec_h PX) (px_plans_h PX) refs)
         (proof_plan_for_query_and_commitments (px_codec_d PX) (px_plans_d PX) refs) commitments)) (\<lambda>proof_plan.
     bind_res (ok_or (px_encode_dyn PX proof_plan) EncodeProofPlan) (\<lambda>proof_plan_bytes.
     Ok \<lparr>pr_proof_plan = proof_plan_bytes, pr_at = at\<rparr>))))))))))"

definition v1_evm_proof_plan ::
    "'b client_ext \<Rightarrow> ('plan, 'evm, 'stmt, 'h, 'd) plan_ext \<Rightarrow> bytes \<Rightarrow> 'b option
     \<Rightarrow> ('b proof_plan_response, commitments_api_error) result" where
  "v1_evm_proof_plan CL PX query at =
     bind_res (v1_proof_plan CL PX query at) (\<lambda>proof_plan_response.
     bind_res (ok_or (px_decode_dyn PX (pr_proof_plan proof_plan_response)) DeserializeProofPlan) (\<lambda>dyn_proof_plan.
     let evm_proof_plan = px_evm_new PX dyn_proof_plan in
     bind_res (ok_or (px_encode_evm PX evm_proof_plan) EncodeProofPlan) (\<lambda>proof_plan_bytes.
     Ok (proof_plan_response\<lparr>pr_proof_plan := proof_plan_bytes\<rparr>))))"

section \<open>What the client shows of a state\<close>

text \<open>
  Documented behaviour of the client: a storage query at a block gives the encoded value that the
  state of the block has under the key, a prefix query all entries under the prefix, and block
  numbers and hashes of the chain below a block belong together.
\<close>

definition chain_served :: "'b client_ext \<Rightarrow> 'b \<Rightarrow> u32 \<Rightarrow> bool" where
  "chain_served CL at e \<longleftrightarrow> cl_number CL at = Ok (Some e)
     \<and> (\<forall>n \<le> e. \<exists>h. cl_hash CL n = Ok (Some h) \<and> cl_number CL h = Ok (Some n))"

definition attestations_served ::
    "'b client_ext \<Rightarrow> storage_ext \<Rightarrow> attestations_codec \<Rightarrow> 'b \<Rightarrow> 'a attestation_state_scheme \<Rightarrow> bool" where
  "attestations_served CL L AC at s \<longleftrightarrow>
     cx_encode (ac_attestations AC) [] = empty_vec_encoded
     \<and> (\<forall>n. cx_decode (ac_attestations AC) (cx_encode (ac_attestations AC) (sm_get_or [] (Attestations s) n)) =
           Some (sm_get_or [] (Attestations s) n, []))
     \<and> (\<forall>n. cl_storage CL at (storage_key_for_attestations_for_block_number L AC n) =
           Ok (map_option (cx_encode (ac_attestations AC)) (sm_get (Attestations s) n)))"

definition state_served ::
    "'b client_ext \<Rightarrow> storage_ext \<Rightarrow> bytes \<Rightarrow> 'b \<Rightarrow> ('x, 'a) system_contracts_state_scheme
     \<Rightarrow> (account_id \<times> balance_lock list) list \<Rightarrow> bool" where
  "state_served CL L staking_contract_prefix at s locks \<longleftrightarrow>
     (\<forall>t sch. ident_ok t \<longrightarrow>
        cl_storage CL at (storage_key_for_prefix_key_tuple (commitment_map_prefix_foliate L) (t, sch, ())) =
          Ok (map_option (cx_encode (sx_table_commitment_bytes L)) (sm_get (CommitmentStorageMap s) (t, sch))))
     \<and> cl_storage_pairs CL at (sx_commitments_prefix L) =
         Ok (map (\<lambda>((t, sch), b). storage_entry (commitment_map_prefix_foliate L) ((t, sch, ()), b)) (CommitmentStorageMap s))
     \<and> cl_storage_pairs CL at (sx_locks_prefix L) =
         Ok (map (\<lambda>(a, ls). (storage_key_for_prefix_key_tuple (locks_staking_prefix_foliate L) (a, ()), cx_encode (sx_locks L) ls)) locks)
     \<and> cl_storage CL at staking_contract_prefix = Ok (Some (cx_encode (sx_contract_info L) (StakingContract s)))"

section \<open>Attestations\<close>

lemma attestations_for_block_Ok:
  assumes "attestations_served CL L AC at s" "cl_number CL h = Ok (Some n)"
  shows "v1_attestations_for_block CL L AC h (Some at) =
     Ok \<lparr>ar_attestations = sm_get_or [] (Attestations s) n, ar_attestations_for = h, ar_attestations_for_block_number = n, ar_at = at\<rparr>"
proof -
  have "cx_decode (ac_attestations AC) (case map_option (cx_encode (ac_attestations AC)) (sm_get (Attestations s) n) of
      Some b \<Rightarrow> b | None \<Rightarrow> empty_vec_encoded) = Some (sm_get_or [] (Attestations s) n, [])"
    using assms(1) by (cases "sm_get (Attestations s) n") (auto simp: attestations_served_def sm_get_or_def dest: spec[of _ n])
  then show ?thesis
    using assms by (simp add: v1_attestations_for_block_def attestations_served_def Let_def)
qed

lemma foldl_max_by_key:
  fixes key :: "'a \<Rightarrow> 'k::linorder"
  defines "f \<equiv> \<lambda>best y. if key best \<le> key y then y else best"
  shows "foldl f x xs \<in> insert x (set xs) \<and> key x \<le> key (foldl f x xs) \<and> (\<forall>y \<in> set xs. key y \<le> key (foldl f x xs))"
proof (induction xs arbitrary: x)
  case (Cons a xs)
  from Cons[of "f x a"] show ?case by (auto simp: f_def split: if_splits)
qed simp

lemma max_by_key_Some:
  assumes "xs \<noteq> []"
  obtains m where "max_by_key key xs = Some m" "m \<in> set xs" "\<And>x. x \<in> set xs \<Longrightarrow> key x \<le> key m"
proof (cases xs)
  case (Cons y ys)
  then show thesis using foldl_max_by_key[of key y ys] by (intro that[of "foldl (\<lambda>best y. if key best \<le> key y then y else best) y ys"]) auto
qed (use assms in simp)

lemma set_block_range: "a \<le> b \<Longrightarrow> set (block_range a b) = {n. a \<le> n \<and> n \<le> b}"
proof -
  have "n \<in> set (block_range a b)" if "a \<le> n" "n \<le> b" for n
    unfolding block_range_def set_map
    by (rule image_eqI[of _ _ "unat n"]) (use that in \<open>auto simp: word_le_nat_alt\<close>)
  moreover have "a \<le> n \<and> n \<le> b" if n: "n \<in> set (block_range a b)" for n
  proof -
    obtain k where k: "n = word_of_nat k" "unat a \<le> k" "k \<le> unat b" using n unfolding block_range_def set_map set_upt by auto
    then have "unat n = k" using unsigned_less[where 'a = nat, of b] by (simp add: unat_of_nat take_bit_nat_eq_self)
    then show ?thesis using k by (simp add: word_le_nat_alt)
  qed
  ultimately show ?thesis by blast
qed

lemma saturating_sub_le: "saturating_sub a b \<le> (a :: 'a::len word)"
  by (auto simp: saturating_sub_def word_sub_le not_less)

lemma unat_saturating_sub: "unat (saturating_sub a b) = unat a - unat b"
  by (auto simp: saturating_sub_def word_less_nat_alt unat_sub_if_size not_less word_le_nat_alt)

section \<open>Properties\<close>

text \<open>
  C25. The best recent attestations are the best ones. For a block of a chain all of whose blocks the
  client knows, the RPC always answers, without error or panic, with exactly the stored attestations
  of one of the last 21 blocks, the block itself included, fewer at the start of the chain; no
  block among them has more attestations, and none with as many is newer.
\<close>

theorem best_recent_attestations_correct:
  assumes "chain_served CL at e" "attestations_served CL L AC at s"
  shows "\<exists>r. v1_best_recent_attestations CL L AC (Some at) = Ok r \<and> ar_at r = at
    \<and> cl_number CL (ar_attestations_for r) = Ok (Some (ar_attestations_for_block_number r))
    \<and> ar_attestations r = sm_get_or [] (Attestations s) (ar_attestations_for_block_number r)
    \<and> unat e - 20 \<le> unat (ar_attestations_for_block_number r) \<and> ar_attestations_for_block_number r \<le> e
    \<and> (\<forall>n \<le> e. unat e - 20 \<le> unat n \<longrightarrow> (length (sm_get_or [] (Attestations s) n), n)
         \<le> (length (ar_attestations r), ar_attestations_for_block_number r))"
proof -
  obtain h where h: "\<And>n. n \<le> e \<Longrightarrow> cl_hash CL n = Ok (Some (h n)) \<and> cl_number CL (h n) = Ok (Some n)"
    using assms(1) unfolding chain_served_def by metis
  define a where "a = saturating_sub e MINUTES"
  define resp where "resp n = \<lparr>ar_attestations = sm_get_or [] (Attestations s) n, ar_attestations_for = h n,
      ar_attestations_for_block_number = n, ar_at = at\<rparr>" for n
  have range: "set (block_range a e) = {n. a \<le> n \<and> n \<le> e}" using set_block_range saturating_sub_le unfolding a_def by blast
  have min: "a \<le> n \<longleftrightarrow> unat e - 20 \<le> unat n" for n by (simp add: word_le_nat_alt a_def unat_saturating_sub MINUTES_def)
  have "collect_res (\<lambda>block_number.
         bind_res (map_err ChainQuery (cl_hash CL block_number)) (\<lambda>h.
         bind_res (ok_or h BlockHashQuery) (\<lambda>attestations_for.
         v1_attestations_for_block CL L AC attestations_for (Some at)))) (block_range a e)
    = Ok (map resp (block_range a e))"
    by (rule collect_res_all_Ok) (simp add: range h attestations_for_block_Ok[OF assms(2)] resp_def)
  then have run: "v1_best_recent_attestations CL L AC (Some at) =
      unwrap_opt (max_by_key (\<lambda>r. (length (ar_attestations r), ar_attestations_for_block_number r)) (map resp (block_range a e)))"
    using assms(1) by (simp add: v1_best_recent_attestations_def chain_served_def a_def Let_def)
  have ne: "map resp (block_range a e) \<noteq> []" using range saturating_sub_le[of e MINUTES] unfolding a_def by force
  obtain m where m: "max_by_key (\<lambda>r. (length (ar_attestations r), ar_attestations_for_block_number r)) (map resp (block_range a e)) = Some m"
    "m \<in> set (map resp (block_range a e))"
    "\<And>x. x \<in> set (map resp (block_range a e)) \<Longrightarrow> (length (ar_attestations x), ar_attestations_for_block_number x)
       \<le> (length (ar_attestations m), ar_attestations_for_block_number m)"
    using max_by_key_Some[where key = "\<lambda>r. (length (ar_attestations r), ar_attestations_for_block_number r)", OF ne] by blast
  obtain k where k: "m = resp k" "a \<le> k" "k \<le> e" using m(2) range by auto
  have "(length (sm_get_or [] (Attestations s) n), n) \<le> (length (ar_attestations m), ar_attestations_for_block_number m)"
    if "n \<le> e" "unat e - 20 \<le> unat n" for n
    using m(3)[of "resp n"] that range by (simp add: resp_def min)
  then show ?thesis using run m(1) k h[OF k(3)] by (auto simp: resp_def min)
qed

section \<open>Verifiable commitments\<close>

lemma collect_res_not_Panic: "(\<And>x. f x \<noteq> Panic) \<Longrightarrow> collect_res f xs \<noteq> Panic"
proof (induction xs)
  case (Cons x xs)
  then show ?case by (cases "f x"; cases "collect_res f xs") auto
qed simp

lemma collect_res_option:
  assumes "\<And>t. t \<in> set ts \<Longrightarrow> f t = (case g t of None \<Rightarrow> Err e | Some b \<Rightarrow> Ok (h t b))"
  shows "collect_res f ts = (if list_all (\<lambda>t. g t \<noteq> None) ts then Ok (map (\<lambda>t. h t (the (g t))) ts) else Err e)"
  using assms
proof (induction ts)
  case (Cons t ts)
  then show ?case by (cases "g t") auto
qed simp

lemma stored_commitment_ok:
  assumes "storage_typed s locks" "sm_get (CommitmentStorageMap s) (t, sch) = Some b"
  shows "commitment_ok b"
  using assms(1) sm_get_Some_in[OF assms(2)] by (auto simp: storage_typed_def list_all_iff)

text \<open>The commitments the RPC reads for the tables of a plan.\<close>

lemma commitments_read:
  assumes "storage_laws L" "storage_typed s locks" "state_served CL L sp at s locks" "list_all ident_ok ts"
  shows "collect_res (\<lambda>table_identifier.
         let storage_key = storage_key_for_prefix_key_tuple (commitment_map_prefix_foliate L) (table_identifier, sch, ()) in
         bind_res (map_err StorageQuery (cl_storage CL at storage_key)) (\<lambda>data.
         bind_res (ok_or data NoSuchCommitment) (\<lambda>storage_bytes.
         bind_res (ok_or (cx_decode (sx_table_commitment_bytes L) storage_bytes) CommitmentDecode) (\<lambda>(table_commitment_bytes, _).
         Ok (table_identifier, table_commitment_bytes))))) ts
    = (if list_all (\<lambda>t. sm_get (CommitmentStorageMap s) (t, sch) \<noteq> None) ts
       then Ok (map (\<lambda>t. (t, the (sm_get (CommitmentStorageMap s) (t, sch)))) ts) else Err NoSuchCommitment)"
proof (rule collect_res_option[where h = Pair])
  fix t assume "t \<in> set ts"
  then have read: "cl_storage CL at (storage_key_for_prefix_key_tuple (commitment_map_prefix_foliate L) (t, sch, ())) =
      Ok (map_option (cx_encode (sx_table_commitment_bytes L)) (sm_get (CommitmentStorageMap s) (t, sch)))"
    using assms(3,4) by (auto simp: state_served_def list_all_iff)
  have "cx_decode (sx_table_commitment_bytes L) (cx_encode (sx_table_commitment_bytes L) b) = Some (b, [])"
    if "sm_get (CommitmentStorageMap s) (t, sch) = Some b" for b
    using codec_lawD[of commitment_ok "sx_table_commitment_bytes L" b "[]"] assms(1) stored_commitment_ok[OF assms(2) that]
    by (simp add: storage_laws_def)
  then show "(let storage_key = storage_key_for_prefix_key_tuple (commitment_map_prefix_foliate L) (t, sch, ()) in
         bind_res (map_err StorageQuery (cl_storage CL at storage_key)) (\<lambda>data.
         bind_res (ok_or data NoSuchCommitment) (\<lambda>storage_bytes.
         bind_res (ok_or (cx_decode (sx_table_commitment_bytes L) storage_bytes) CommitmentDecode) (\<lambda>(table_commitment_bytes, _).
         Ok (t, table_commitment_bytes)))))
    = (case sm_get (CommitmentStorageMap s) (t, sch) of None \<Rightarrow> Err NoSuchCommitment | Some b \<Rightarrow> Ok (t, b))"
    by (cases "sm_get (CommitmentStorageMap s) (t, sch)") (simp_all add: Let_def read)
qed

lemma table_refs_ident_ok:
  assumes "collect_res (\<lambda>(schema_id, table_id). table_identifier_from_table_ref uc schema_id table_id) refs = Ok ts"
  shows "list_all ident_ok ts"
proof -
  have "ident_ok t" if "table_identifier_from_table_ref uc a b = Ok t" for a b t
    using that by (auto simp: table_identifier_from_table_ref_def byte_string_try_from_def res_Ok_iff bounded_try_from_Ok_iff ident_ok_def)
  then show ?thesis
    using assms unfolding collect_res_Ok_iff list_all2_conv_all_nth list_all_length by (auto simp: case_prod_unfold)
qed

lemma ident_text_string:
  "utf8_valid (ti_namespace t) \<Longrightarrow> utf8_valid (ti_name t) \<Longrightarrow> expect_res (table_identifier_to_string t) = Ok (ident_text t)"
  by (simp add: table_identifier_to_string_def from_utf8_def ident_text_def ASCII_PERIOD_def)

lemma commitments_proved:
  assumes "merkle_laws MT" "storage_laws L" "storage_typed s locks" "attestation_tree MT L s locks = Ok tree"
    and "list_all (\<lambda>t. utf8_valid (ti_namespace t) \<and> utf8_valid (ti_name t)) ts"
    and "list_all (\<lambda>t. sm_get (CommitmentStorageMap s) (t, sch) \<noteq> None) ts"
  obtains proofs where "collect_res (\<lambda>(table_identifier, table_commitment_bytes).
         bind_res (map_err AttestationTreeProof (prove_leaf_pair MT (commitment_map_prefix_foliate L) tree
           (table_identifier, sch, ()) table_commitment_bytes)) (\<lambda>merkle_proof.
         bind_res (expect_res (table_identifier_to_string table_identifier)) (\<lambda>table_identifier.
         Ok (table_identifier, \<lparr>vc_commitment = table_commitment_bytes, vc_merkle_proof = merkle_proof\<rparr>))))
       (map (\<lambda>t. (t, the (sm_get (CommitmentStorageMap s) (t, sch)))) ts) = Ok (zip (map ident_text ts) proofs)"
    "list_all2 (\<lambda>t p. sm_get (CommitmentStorageMap s) (t, sch) = Some (vc_commitment p)
       \<and> prove_leaf_pair MT (commitment_map_prefix_foliate L) tree (t, sch, ()) (vc_commitment p) = Ok (vc_merkle_proof p)) ts proofs"
proof -
  define b where "b t = the (sm_get (CommitmentStorageMap s) (t, sch))" for t
  have b: "sm_get (CommitmentStorageMap s) (t, sch) = Some (b t)" if "t \<in> set ts" for t
    using assms(6) that by (auto simp: list_all_iff b_def)
  have "is_ok (prove_leaf_pair MT (commitment_map_prefix_foliate L) tree (t, sch, ()) (b t))" if "t \<in> set ts" for t
    using attested_commitment[OF b[OF that]] unfolding prove_leaf_pair_iff[OF assms(1-4)] by blast
  then obtain p where p: "\<And>t. t \<in> set ts \<Longrightarrow> prove_leaf_pair MT (commitment_map_prefix_foliate L) tree (t, sch, ()) (b t) = Ok (p t)"
    unfolding is_ok_iff by metis
  define proofs where "proofs = map (\<lambda>t. \<lparr>vc_commitment = b t, vc_merkle_proof = p t\<rparr>) ts"
  have zip: "zip (map ident_text ts) proofs = map (\<lambda>t. (ident_text t, \<lparr>vc_commitment = b t, vc_merkle_proof = p t\<rparr>)) ts"
    by (simp add: proofs_def zip_map_map zip_same_conv_map)
  have string: "expect_res (table_identifier_to_string t) = Ok (ident_text t)" if "t \<in> set ts" for t
    using assms(5) that by (auto simp: list_all_iff intro: ident_text_string)
  show thesis
  proof (rule that[of proofs])
    show "list_all2 (\<lambda>t p. sm_get (CommitmentStorageMap s) (t, sch) = Some (vc_commitment p)
        \<and> prove_leaf_pair MT (commitment_map_prefix_foliate L) tree (t, sch, ()) (vc_commitment p) = Ok (vc_merkle_proof p)) ts proofs"
      unfolding proofs_def list_all2_map2 by (rule list.rel_refl_strong) (simp add: b p)
  qed (subst collect_res_all_Ok[where g = "\<lambda>(t, b). (ident_text t, \<lparr>vc_commitment = b, vc_merkle_proof = p t\<rparr>)"],
      auto simp: zip b_def[symmetric] p string)
qed

text \<open>
  C12. Clients get what is attested. For a plan within the limits over tables with valid names, the
  RPC answers with the stored commitment of the requested scheme for each table of the plan, each
  with a Merkle proof in the attestation tree of the block, or it reports that a commitment is
  missing, which is then true. Building the tree is the only other thing that can fail: stored
  commitments always decode and always have a proof, and nothing panics.
\<close>

theorem verifiable_commitments_correct:
  assumes "merkle_laws MT" "storage_laws L" "storage_typed s locks" "state_served CL L sp at s locks"
    and "length proof_plan \<le> PROOF_PLAN_SIZE_LIMIT" "try_from_bincode_as_dyn_proof_plan PX proof_plan = Some plan"
    and "collect_res (\<lambda>(schema_id, table_id). table_identifier_from_table_ref (px_uc PX) schema_id table_id)
       (px_table_references PX plan) = Ok ts"
    and "length ts \<le> NUM_TABLES_LIMIT" "list_all (\<lambda>t. utf8_valid (ti_namespace t) \<and> utf8_valid (ti_name t)) ts"
  shows "case v1_verifiable_commitments_for_proof_plan CL MT L sp PX proof_plan scheme (Some at) of
      Ok r \<Rightarrow> vr_at r = at \<and> (\<exists>tree proofs. attestation_tree MT L s locks = Ok tree
        \<and> vr_verifiable_commitments r = index_map_collect (zip (map ident_text ts) proofs)
        \<and> list_all2 (\<lambda>t p. sm_get (CommitmentStorageMap s) (t, scheme) = Some (vc_commitment p)
            \<and> prove_leaf_pair MT (commitment_map_prefix_foliate L) tree (t, scheme, ()) (vc_commitment p) = Ok (vc_merkle_proof p)) ts proofs)
    | Err e \<Rightarrow> (e = NoSuchCommitment \<and> list_ex (\<lambda>t. sm_get (CommitmentStorageMap s) (t, scheme) = None) ts)
        \<or> (\<exists>xs m. e = AttestationTreeFailed (CreateTreeFromLeaves m) \<and> mx_new MT xs = Err m)
    | Panic \<Rightarrow> \<exists>xs. mx_new MT xs = Panic"
proof (cases "list_all (\<lambda>t. sm_get (CommitmentStorageMap s) (t, scheme) \<noteq> None) ts")
  case False
  then have "v1_verifiable_commitments_for_proof_plan CL MT L sp PX proof_plan scheme (Some at) = Err NoSuchCommitment"
    using assms(5-8) commitments_read[OF assms(2-4) table_refs_ident_ok[OF assms(7)], of scheme]
    by (simp add: v1_verifiable_commitments_for_proof_plan_def Let_def)
  with False show ?thesis by (auto simp: list_all_iff list_ex_iff)
next
  case True
  have keys: "storage_key_for (commitment_map_prefix_foliate L) = sx_commitments_prefix L"
    "storage_key_for (locks_staking_prefix_foliate L) = sx_locks_prefix L"
    by (simp_all add: storage_key_for_def commitment_map_prefix_foliate_def locks_staking_prefix_foliate_def)
  have run: "v1_verifiable_commitments_for_proof_plan CL MT L sp PX proof_plan scheme (Some at) =
      bind_res (map_err AttestationTreeFailed (attestation_tree MT L s locks)) (\<lambda>tree.
      bind_res (collect_res (\<lambda>(table_identifier, table_commitment_bytes).
         bind_res (map_err AttestationTreeProof (prove_leaf_pair MT (commitment_map_prefix_foliate L) tree
           (table_identifier, scheme, ()) table_commitment_bytes)) (\<lambda>merkle_proof.
         bind_res (expect_res (table_identifier_to_string table_identifier)) (\<lambda>table_identifier.
         Ok (table_identifier, \<lparr>vc_commitment = table_commitment_bytes, vc_merkle_proof = merkle_proof\<rparr>))))
       (map (\<lambda>t. (t, the (sm_get (CommitmentStorageMap s) (t, scheme)))) ts)) (\<lambda>vs.
      Ok \<lparr>vr_verifiable_commitments = index_map_collect vs, vr_at = at\<rparr>))"
    using assms(4-8) commitments_read[OF assms(2-4) table_refs_ident_ok[OF assms(7)], of scheme] True
    by (simp add: v1_verifiable_commitments_for_proof_plan_def Let_def state_served_def keys attestation_tree_def)
  show ?thesis
  proof (cases "attestation_tree MT L s locks")
    case (Ok tree)
    show ?thesis
      by (rule commitments_proved[OF assms(1-3) Ok assms(9) True]) (auto simp: run Ok)
  qed (use attestation_tree_failure[OF assms(1-3)] in \<open>auto simp: run\<close>)
qed

section \<open>Proof plans\<close>

text \<open>The parser and the planner return, and the planner gives one plan for one statement.\<close>

definition planner_laws :: "('plan, 'evm, 'stmt, 'h, 'd) plan_ext \<Rightarrow> bool" where
  "planner_laws PX \<longleftrightarrow> (\<forall>q. px_parse_sql PX q \<noteq> Panic) \<and> (\<forall>st. px_table_refs_from_statement PX st \<noteq> Panic)
     \<and> (\<forall>st q. px_plans_h PX [st] q \<noteq> Panic \<and> (\<forall>ps. px_plans_h PX [st] q = Ok ps \<longrightarrow> length ps = 1))
     \<and> (\<forall>st q. px_plans_d PX [st] q \<noteq> Panic \<and> (\<forall>ps. px_plans_d PX [st] q = Ok ps \<longrightarrow> length ps = 1))"

text \<open>A plan is made from the commitments of one scheme.\<close>

definition planned ::
    "'c table_commitment_codec \<Rightarrow> ('stmt list \<Rightarrow> (table_ref \<times> 'c) list \<Rightarrow> ('plan list, bytes) result)
     \<Rightarrow> 'stmt \<Rightarrow> table_ref list \<Rightarrow> bytes list \<Rightarrow> 'plan \<Rightarrow> bool" where
  "planned C plans st refs cs plan \<longleftrightarrow>
     (\<exists>typed. collect_res (table_commitment_from_bytes C) cs = Ok typed \<and> plans [st] (zip refs typed) = Ok [plan])"

lemma proof_plan_for_query_cases:
  assumes "length (sr_table_refs refs) = length cs"
    and "\<And>q. plans [sr_statement refs] q \<noteq> Panic" "\<And>q ps. plans [sr_statement refs] q = Ok ps \<Longrightarrow> length ps = 1"
  shows "case proof_plan_for_query_and_commitments C plans refs cs of
      Ok plan \<Rightarrow> planned C plans (sr_statement refs) (sr_table_refs refs) cs plan
    | Err e \<Rightarrow> (\<forall>m n. e \<noteq> UnexpectedTableCommitmentMismap m n)
    | Panic \<Rightarrow> False"
proof (cases "collect_res (table_commitment_from_bytes C) cs")
  case (Ok typed)
  let ?q = "zip (sr_table_refs refs) typed"
  show ?thesis
  proof (cases "plans [sr_statement refs] ?q")
    case (Ok ps)
    then obtain p where "ps = [p]" using assms(3) by (metis One_nat_def length_0_conv length_Suc_conv)
    with Ok show ?thesis
      using \<open>collect_res (table_commitment_from_bytes C) cs = Ok typed\<close> assms(1)
      by (simp add: proof_plan_for_query_and_commitments_def planned_def Let_def)
  qed (use assms Ok in \<open>auto simp: proof_plan_for_query_and_commitments_def Let_def\<close>)
next
  case Panic
  moreover have "collect_res (table_commitment_from_bytes C) cs \<noteq> Panic"
    by (rule collect_res_not_Panic) (simp add: table_commitment_from_bytes_def ok_or_def split: option.split)
  ultimately show ?thesis by blast
qed (use assms(1) in \<open>simp add: proof_plan_for_query_and_commitments_def Let_def\<close>)

lemma collect_refs_not_Panic: "collect_res (\<lambda>(a, b). table_identifier_from_table_ref uc a b) xs \<noteq> Panic"
proof (rule collect_res_not_Panic)
  fix x :: table_ref
  obtain a b where x: "x = (a, b)" by (cases x)
  show "(case x of (a, b) \<Rightarrow> table_identifier_from_table_ref uc a b) \<noteq> Panic"
    by (cases a) (auto simp: x table_identifier_from_table_ref_def byte_string_try_from_def bounded_try_from_def)
qed

text \<open>The last steps of the RPC, once the tables of the statement are known.\<close>

lemma plan_from_commitments:
  assumes "planner_laws PX" "length refs = length ts" and sr: "sr = \<lparr>sr_statement = st, sr_table_refs = refs\<rparr>"
  shows "case bind_res (ok_or (table_commitments_any_scheme s ts) IncompleteCommitmentCoverage) (\<lambda>commitments.
        any_unwrap (any_map (proof_plan_for_query_and_commitments (px_codec_h PX) (px_plans_h PX) sr)
          (proof_plan_for_query_and_commitments (px_codec_d PX) (px_plans_d PX) sr) commitments)) of
      Ok plan \<Rightarrow> (if list_all (\<lambda>t. pc_hyper_kzg (stored s t) \<noteq> None) ts
         then planned (px_codec_h PX) (px_plans_h PX) st refs (map (\<lambda>t. the (pc_hyper_kzg (stored s t))) ts) plan
         else list_all (\<lambda>t. pc_dynamic_dory (stored s t) \<noteq> None) ts
           \<and> planned (px_codec_d PX) (px_plans_d PX) st refs (map (\<lambda>t. the (pc_dynamic_dory (stored s t))) ts) plan)
    | Err e \<Rightarrow> (\<forall>m n. e \<noteq> UnexpectedTableCommitmentMismap m n)
    | Panic \<Rightarrow> False"
proof -
  have sr': "sr_statement sr = st" "sr_table_refs sr = refs" by (simp_all add: sr)
  note q = proof_plan_for_query_cases[of sr, unfolded sr']
  have h: "case proof_plan_for_query_and_commitments (px_codec_h PX) (px_plans_h PX) sr (map f ts) of
      Ok plan \<Rightarrow> planned (px_codec_h PX) (px_plans_h PX) st refs (map f ts) plan
    | Err e \<Rightarrow> (\<forall>m n. e \<noteq> UnexpectedTableCommitmentMismap m n) | Panic \<Rightarrow> False" for f
    using q[of "map f ts" "px_plans_h PX" "px_codec_h PX"] assms(1,2) by (simp add: planner_laws_def)
  have d: "case proof_plan_for_query_and_commitments (px_codec_d PX) (px_plans_d PX) sr (map f ts) of
      Ok plan \<Rightarrow> planned (px_codec_d PX) (px_plans_d PX) st refs (map f ts) plan
    | Err e \<Rightarrow> (\<forall>m n. e \<noteq> UnexpectedTableCommitmentMismap m n) | Panic \<Rightarrow> False" for f
    using q[of "map f ts" "px_plans_d PX" "px_codec_d PX"] assms(1,2) by (simp add: planner_laws_def)
  show ?thesis
  proof (cases "list_all (\<lambda>t. pc_hyper_kzg (stored s t) \<noteq> None) ts")
    case True
    then show ?thesis using h[of "\<lambda>t. the (pc_hyper_kzg (stored s t))"] unfolding any_scheme_query_correct by (auto split: result.splits)
  next
    case False
    then show ?thesis
      using d[of "\<lambda>t. the (pc_dynamic_dory (stored s t))"] unfolding any_scheme_query_correct
      by (cases "list_all (\<lambda>t. pc_dynamic_dory (stored s t) \<noteq> None) ts") (auto split: result.splits)
  qed
qed

text \<open>
  C26. Queries are planned against one consistent set of commitments. When the runtime answers from
  the state of the block, the RPC never panics and never finds a table without its commitment: a
  plan it returns was made for the single statement of the query, with identifiers in upper case,
  from the stored commitments of all its tables in one scheme, in the order of the tables, Hyper-KZG
  whenever every table has one.
\<close>

theorem proof_plan_correct:
  assumes "planner_laws PX" "\<And>ts. cl_table_commitments_any_scheme CL at ts = Ok (table_commitments_any_scheme s ts)"
  shows "case v1_proof_plan CL PX query (Some at) of
      Ok r \<Rightarrow> pr_at r = at \<and> (\<exists>st refs ts plan. px_parse_sql PX query = Ok [st]
          \<and> px_table_refs_from_statement PX (px_uppercase_identifiers PX st) = Ok refs
          \<and> collect_res (\<lambda>(a, b). table_identifier_from_table_ref (px_uc PX) a b) refs = Ok ts
          \<and> px_encode_dyn PX plan = Some (pr_proof_plan r)
          \<and> (if list_all (\<lambda>t. pc_hyper_kzg (stored s t) \<noteq> None) ts
             then planned (px_codec_h PX) (px_plans_h PX) (px_uppercase_identifiers PX st) refs
               (map (\<lambda>t. the (pc_hyper_kzg (stored s t))) ts) plan
             else list_all (\<lambda>t. pc_dynamic_dory (stored s t) \<noteq> None) ts
               \<and> planned (px_codec_d PX) (px_plans_d PX) (px_uppercase_identifiers PX st) refs
                 (map (\<lambda>t. the (pc_dynamic_dory (stored s t))) ts) plan))
    | Err e \<Rightarrow> (\<forall>m n. e \<noteq> UnexpectedTableCommitmentMismap m n)
    | Panic \<Rightarrow> False"
proof (cases "QUERY_SIZE_LIMIT < length query")
  case True
  then show ?thesis by (simp add: v1_proof_plan_def)
next
  case size: False
  consider e where "px_parse_sql PX query = Err e" | sts where "px_parse_sql PX query = Ok sts" "\<nexists>st. sts = [st]"
    | st where "px_parse_sql PX query = Ok [st]"
    using assms(1) unfolding planner_laws_def by (metis result.exhaust)
  then show ?thesis
  proof cases
    case (2 sts)
    then show ?thesis using size by (simp add: v1_proof_plan_def Let_def split: list.split)
  next
    case parse: (3 st)
    let ?st = "px_uppercase_identifiers PX st" and ?ident = "\<lambda>(a, b). table_identifier_from_table_ref (px_uc PX) a b"
    show ?thesis
    proof (cases "px_table_refs_from_statement PX ?st")
      case (Ok refs)
      consider "NUM_TABLES_LIMIT < length refs" | e where "length refs \<le> NUM_TABLES_LIMIT" "collect_res ?ident refs = Err e"
        | ts where "length refs \<le> NUM_TABLES_LIMIT" "collect_res ?ident refs = Ok ts"
        using collect_refs_not_Panic[of "px_uc PX" refs] by (cases "collect_res ?ident refs") force+
      then show ?thesis
      proof cases
        case (3 ts)
        have len: "length refs = length ts" using collect_res_Ok_length[OF 3(2)] by simp
        define sr where "sr = \<lparr>sr_statement = ?st, sr_table_refs = refs\<rparr>"
        define R where "R = bind_res (ok_or (table_commitments_any_scheme s ts) IncompleteCommitmentCoverage) (\<lambda>commitments.
          any_unwrap (any_map (proof_plan_for_query_and_commitments (px_codec_h PX) (px_plans_h PX) sr)
            (proof_plan_for_query_and_commitments (px_codec_d PX) (px_plans_d PX) sr) commitments))"
        have run: "v1_proof_plan CL PX query (Some at) = bind_res R (\<lambda>plan. bind_res (ok_or (px_encode_dyn PX plan) EncodeProofPlan) (\<lambda>b.
            Ok \<lparr>pr_proof_plan = b, pr_at = at\<rparr>))"
          using size parse Ok 3 len
          by (simp add: v1_proof_plan_def Let_def statement_and_refs_try_from_def bounded_try_from_def NUM_TABLES_LIMIT_def
              MAX_TABLES_IN_TABLE_COMMITMENTS_QUERY_def assms(2) R_def sr_def bind_res_def split: option.split result.split)
        note plan = plan_from_commitments[OF assms(1) len sr_def, of s, folded R_def]
        show ?thesis
        proof (cases R)
          case R: (Ok p)
          show ?thesis
          proof (cases "px_encode_dyn PX p")
            case (Some b)
            then have eq: "v1_proof_plan CL PX query (Some at) = Ok \<lparr>pr_proof_plan = b, pr_at = at\<rparr>" by (simp add: run R)
            show ?thesis
              unfolding eq result.case proof_plan_response.simps
              using plan[unfolded R result.case] parse Ok 3(2) Some
              by (intro conjI exI[of _ st] exI[of _ refs] exI[of _ ts] exI[of _ p]) (assumption | rule refl)+
          qed (simp add: run R)
        qed (use plan in \<open>simp_all add: run\<close>)
      qed (use size parse Ok in \<open>simp_all add: v1_proof_plan_def Let_def statement_and_refs_try_from_def\<close>)
    next
      case (Err e)
      then show ?thesis using size parse by (simp add: v1_proof_plan_def Let_def statement_and_refs_try_from_def)
    qed (use assms(1) in \<open>simp add: planner_laws_def\<close>)
  qed (use size in \<open>simp add: v1_proof_plan_def\<close>)
qed

text \<open>
  A plan for the EVM is accepted where plans are read: what \<open>v1_evm_proof_plan\<close> returns decodes, in
  the RPC that takes plans, to the same plan that \<open>v1_proof_plan\<close> returns for the same query.
\<close>

theorem evm_plan_roundtrip:
  assumes "\<And>p b. px_encode_dyn PX p = Some b \<Longrightarrow> px_decode_dyn PX b = Some p"
    and "\<And>e b. px_encode_evm PX e = Some b \<Longrightarrow> px_decode_evm PX b = Some e"
    and "\<And>p. px_evm_into_inner PX (px_evm_new PX p) = p"
    and "v1_evm_proof_plan CL PX query at = Ok r"
  shows "\<exists>r' plan. v1_proof_plan CL PX query at = Ok r' \<and> pr_at r' = pr_at r
    \<and> px_encode_dyn PX plan = Some (pr_proof_plan r') \<and> try_from_bincode_as_dyn_proof_plan PX (pr_proof_plan r) = Some plan"
proof -
  obtain r' plan b where r': "v1_proof_plan CL PX query at = Ok r'" "px_decode_dyn PX (pr_proof_plan r') = Some plan"
    "px_encode_evm PX (px_evm_new PX plan) = Some b" "r = r'\<lparr>pr_proof_plan := b\<rparr>"
    using assms(4) by (auto simp: v1_evm_proof_plan_def Let_def res_Ok_iff)
  have "\<exists>p. px_encode_dyn PX p = Some (pr_proof_plan r')"
    using r'(1) by (auto simp: v1_proof_plan_def Let_def res_Ok_iff split: if_splits list.splits)
  then obtain p where p: "px_encode_dyn PX p = Some (pr_proof_plan r')" ..
  with assms(1)[OF p] r'(2) have "p = plan" by simp
  moreover have "try_from_bincode_as_dyn_proof_plan PX b = Some plan"
    using assms(2)[OF r'(3)] assms(3) by (simp add: try_from_bincode_as_dyn_proof_plan_def)
  ultimately show ?thesis using r'(1,4) p by (intro exI[of _ r'] exI[of _ plan]) simp
qed

section \<open>A client for the examples\<close>

text \<open>
  A chain of six blocks, hashes being numbers; block 3 has one attestation. The client looks keys up
  by decoding them.
\<close>

definition demo_attestations_codec :: attestations_codec where
  "demo_attestations_codec = \<lparr>ac_prefix = ''attestations'', ac_u32 = word_codec 4,
     ac_attestations = \<lparr>cx_encode = \<lambda>l. if l = [] then empty_vec_encoded else ''a'',
       cx_decode = \<lambda>b. Some (if b = ''a'' then [demo_attestation] else [], [])\<rparr>\<rparr>"

definition demo_attested :: attestation_state where
  "demo_attested = demo_attestation_state\<lparr>Attestations := [(3, [demo_attestation])]\<rparr>"

definition demo_client :: "u32 client_ext" where
  "demo_client = \<lparr>cl_best_hash = 5, cl_number = \<lambda>h. Ok (if h \<le> 5 then Some h else None),
     cl_hash = \<lambda>n. Ok (if n \<le> 5 then Some n else None),
     cl_storage = \<lambda>_ k. Ok (if k = storage_key_for_attestations_for_block_number demo_storage_ext demo_attestations_codec 3 then Some ''a''
       else if k = ''staking contract'' then Some (cx_encode (sx_contract_info demo_storage_ext) demo_contract_info)
       else if k = storage_key_for_prefix_key_tuple (commitment_map_prefix_foliate demo_storage_ext) (demo_table_id, DynamicDory, ())
       then Some (cx_encode (sx_table_commitment_bytes demo_storage_ext) ''a'') else None),
     cl_storage_pairs = \<lambda>_ p. Ok (if p = ''locks''
       then map (\<lambda>(a, ls). (storage_key_for_prefix_key_tuple (locks_staking_prefix_foliate demo_storage_ext) (a, ()),
         cx_encode (sx_locks demo_storage_ext) ls)) demo_locks
       else [storage_entry (commitment_map_prefix_foliate demo_storage_ext) ((demo_table_id, DynamicDory, ()), ''a'')]),
     cl_table_commitments_any_scheme = \<lambda>_ ts. Ok (table_commitments_any_scheme demo_contracts_state ts)\<rparr>"

lemma demo_attestations_key_inj:
  "storage_key_for_attestations_for_block_number demo_storage_ext demo_attestations_codec n
   = storage_key_for_attestations_for_block_number demo_storage_ext demo_attestations_codec m \<longleftrightarrow> n = m"
  using to_be_bytes_word_inj[of 4 n m]
  by (auto simp: storage_key_for_attestations_for_block_number_def demo_attestations_codec_def demo_storage_ext_def
      word_codec_def fixed_codec_def)

lemma demo_key_kinds:
  "storage_key_for_attestations_for_block_number demo_storage_ext demo_attestations_codec n \<noteq> ''staking contract''"
  "storage_key_for_attestations_for_block_number demo_storage_ext demo_attestations_codec n
   \<noteq> storage_key_for_prefix_key_tuple (commitment_map_prefix_foliate demo_storage_ext) k"
  "storage_key_for_prefix_key_tuple (commitment_map_prefix_foliate demo_storage_ext) k \<noteq> ''staking contract''"
  by (simp_all add: storage_key_for_attestations_for_block_number_def demo_attestations_codec_def demo_storage_ext_def
      storage_key_for_prefix_key_tuple_def commitment_map_prefix_foliate_def)

lemma demo_chain_served: "chain_served demo_client 5 5"
  by (simp add: chain_served_def demo_client_def)

lemma demo_attestations_served: "attestations_served demo_client demo_storage_ext demo_attestations_codec 5 demo_attested"
proof -
  have "empty_vec_encoded \<noteq> ''a''" by code_simp
  then show ?thesis
    unfolding attestations_served_def
    by (auto simp: demo_client_def demo_key_kinds demo_attestations_key_inj demo_attested_def sm_get_or_def sm_get_def)
      (simp_all add: demo_attestations_codec_def)
qed

theorem best_recent_attestations_correct_witness:
  "\<exists>r. v1_best_recent_attestations demo_client demo_storage_ext demo_attestations_codec (Some 5) = Ok r
     \<and> (1, 3) \<le> (length (ar_attestations r), ar_attestations_for_block_number r)"
proof -
  have "sm_get_or [] (Attestations demo_attested) 3 = [demo_attestation]" by (simp add: demo_attested_def sm_get_or_def sm_get_def)
  then show ?thesis
    using best_recent_attestations_correct[OF demo_chain_served demo_attestations_served] by (fastforce dest: spec[of _ 3])
qed

lemma demo_commitment_key_inj:
  assumes "ident_ok t"
  shows "storage_key_for_prefix_key_tuple (commitment_map_prefix_foliate demo_storage_ext) (t, sch, ())
     = storage_key_for_prefix_key_tuple (commitment_map_prefix_foliate demo_storage_ext) (demo_table_id, DynamicDory, ())
   \<longleftrightarrow> t = demo_table_id \<and> sch = DynamicDory"
proof -
  have "ident_ok demo_table_id" by (simp add: ident_ok_def demo_table_id_def IDENT_LENGTH_def)
  then show ?thesis
    using commitment_leaves.decode_entry[OF demo_storage_laws, of "(t, sch, ())" "[]"]
      commitment_leaves.decode_entry[OF demo_storage_laws, of "(demo_table_id, DynamicDory, ())" "[]"] assms
    by (auto simp: commitment_ok_def)
qed

lemma demo_state_served: "state_served demo_client demo_storage_ext ''staking contract'' 5 demo_contracts_state demo_locks"
  unfolding state_served_def
  by (auto simp: demo_client_def demo_key_kinds(3) demo_key_kinds(1,2)[symmetric] demo_commitment_key_inj)
    (simp_all add: demo_contracts_defs sm_get_def, simp_all add: demo_storage_ext_def demo_contract_info_def)

definition demo_plans :: "(unit, unit, unit, nat \<times> ident list, nat \<times> ident list) plan_ext" where
  "demo_plans = \<lparr>px_uc = to_ascii_uppercase, px_decode_evm = \<lambda>b. if b = ''e'' then Some () else None, px_encode_evm = \<lambda>_. Some ''e'',
     px_decode_dyn = \<lambda>b. if b = ''p'' then Some () else None, px_encode_dyn = \<lambda>_. Some ''p'', px_evm_new = \<lambda>x. x,
     px_evm_into_inner = \<lambda>x. x, px_table_references = \<lambda>_. [(Some ''n'', ''t'')],
     px_parse_sql = \<lambda>q. Ok (if q = ''q'' then [()] else []), px_uppercase_identifiers = \<lambda>x. x,
     px_table_refs_from_statement = \<lambda>_. Ok [(Some ''n'', ''t'')], px_codec_h = demo_commitment_codec, px_codec_d = demo_commitment_codec,
     px_plans_h = \<lambda>_ _. Ok [()], px_plans_d = \<lambda>_ _. Ok [()]\<rparr>"

lemma demo_table_ref: "table_identifier_from_table_ref to_ascii_uppercase (Some ''n'') ''t'' = Ok demo_table_id"
  by code_simp

lemma demo_contracts_stored: "sm_get (CommitmentStorageMap demo_contracts_state) (demo_table_id, DynamicDory) = Some ''a''"
  "stored demo_contracts_state demo_table_id = \<lparr>pc_hyper_kzg = None, pc_dynamic_dory = Some ''a''\<rparr>"
proof -
  have cs: "CommitmentStorageMap demo_contracts_state = [((demo_table_id, DynamicDory), ''a'')]" by (simp add: demo_contracts_defs)
  show "sm_get (CommitmentStorageMap demo_contracts_state) (demo_table_id, DynamicDory) = Some ''a''" by (simp add: cs sm_get_def)
  show "stored demo_contracts_state demo_table_id = \<lparr>pc_hyper_kzg = None, pc_dynamic_dory = Some ''a''\<rparr>" unfolding cs by code_simp
qed

theorem verifiable_commitments_correct_witness:
  "\<exists>r p. v1_verifiable_commitments_for_proof_plan demo_client demo_merkle demo_storage_ext ''staking contract'' demo_plans ''p''
       DynamicDory (Some 5) = Ok r \<and> vr_verifiable_commitments r = index_map_collect [(''N.T'', p)] \<and> vc_commitment p = ''a''"
proof -
  have new: "mx_new demo_merkle xs \<noteq> Err m" "mx_new demo_merkle xs \<noteq> Panic" for xs m by (simp_all add: demo_merkle_def)
  have plan: "try_from_bincode_as_dyn_proof_plan demo_plans ''p'' = Some ()"
    by (simp add: try_from_bincode_as_dyn_proof_plan_def demo_plans_def)
  have ts: "collect_res (\<lambda>(a, b). table_identifier_from_table_ref (px_uc demo_plans) a b) (px_table_references demo_plans ()) = Ok [demo_table_id]"
    by (simp add: demo_plans_def demo_table_ref)
  have "list_all (\<lambda>t. utf8_valid (ti_namespace t) \<and> utf8_valid (ti_name t)) [demo_table_id]" by code_simp
  note c = verifiable_commitments_correct[OF demo_merkle_laws demo_storage_laws demo_storage_typed demo_state_served _ plan ts _ this,
      of DynamicDory, unfolded PROOF_PLAN_SIZE_LIMIT_def NUM_TABLES_LIMIT_def, simplified, simplified demo_contracts_stored new, simplified]
  have "ident_text demo_table_id = ''N.T''" by code_simp
  with c show ?thesis
    by (auto simp: list_all2_Cons1 demo_contracts_stored split: result.splits)
qed

lemma demo_planner_laws: "planner_laws demo_plans"
  by (simp add: planner_laws_def demo_plans_def)

lemma demo_any_scheme: "cl_table_commitments_any_scheme demo_client at ts = Ok (table_commitments_any_scheme demo_contracts_state ts)"
  by (simp add: demo_client_def)

theorem proof_plan_correct_witness:
  "v1_proof_plan demo_client demo_plans ''q'' (Some 5) \<noteq> Panic
   \<and> v1_proof_plan demo_client demo_plans ''q'' (Some 5) \<noteq> Err (UnexpectedTableCommitmentMismap 1 0)"
  using proof_plan_correct[OF demo_planner_laws demo_any_scheme, of 5 "''q''"] by (auto split: result.splits)

lemma demo_plan_runs: "v1_proof_plan demo_client demo_plans ''q'' (Some 5) = Ok \<lparr>pr_proof_plan = ''p'', pr_at = 5\<rparr>"
proof -
  have "table_commitment_from_bytes demo_commitment_codec ''a'' = Ok (the (cc_decode demo_commitment_codec ''a''))" by code_simp
  then show ?thesis
    by (simp add: v1_proof_plan_def demo_plans_def statement_and_refs_try_from_def Let_def demo_table_ref QUERY_SIZE_LIMIT_def
        NUM_TABLES_LIMIT_def bounded_try_from_def MAX_TABLES_IN_TABLE_COMMITMENTS_QUERY_def demo_any_scheme any_scheme_query_correct
        demo_contracts_stored proof_plan_for_query_and_commitments_def)
qed

theorem evm_plan_roundtrip_witness:
  "\<exists>r plan. v1_evm_proof_plan demo_client demo_plans ''q'' (Some 5) = Ok r
     \<and> try_from_bincode_as_dyn_proof_plan demo_plans (pr_proof_plan r) = Some plan"
proof -
  have run: "v1_evm_proof_plan demo_client demo_plans ''q'' (Some 5) = Ok \<lparr>pr_proof_plan = ''e'', pr_at = 5\<rparr>"
    by (simp add: v1_evm_proof_plan_def demo_plan_runs Let_def) (simp add: demo_plans_def)
  then show ?thesis
    using evm_plan_roundtrip[OF _ _ _ run] by (auto simp: demo_plans_def split: if_splits)
qed

end
