(* ===== verification/Tx_Submitter.thy ===== *)
theory Tx_Submitter
  imports Sxt_Rpc "HOL-Library.Sublist"
begin

text \<open>
  \<open>translation-layer/src/tx_submitter.rs\<close> and \<open>tx_progress.rs\<close>: how the programs beside the chain
  (the translation layer and the watcher) send transactions. The submitter keeps the next nonce of
  its account, retries, fetches the nonce again when the node calls it outdated and reconnects when
  the connection is gone; the statuses of accepted transactions are collected per transaction.

  The node, the connection to it and the network are functions of \<open>node_ext\<close> on a state \<open>'w\<close>
  that the model does not look into, so that every answer may depend on all that happened before.
\<close>

section \<open>The node\<close>

record block_header =
  hd_number :: u32
  hd_hash :: bytes

text \<open>
  Signing and submitting a payload with a nonce, mortal from a block for some blocks or immortal:
  the hash of the accepted transaction or the text of the error. The nonce in the account of the
  signer, if the account exists. Connecting anew.
\<close>

record ('tx, 'w) node_ext =
  nx_sign_and_submit :: "'tx \<Rightarrow> u64 \<Rightarrow> (block_header \<times> u64) option \<Rightarrow> 'w \<Rightarrow> (bytes, bytes) result \<times> 'w"
  nx_account_nonce :: "'w \<Rightarrow> (u32 option, bytes) result \<times> 'w"
  nx_connect :: "'w \<Rightarrow> (unit, bytes) result \<times> 'w"

text \<open>The \<open>?\<close> operator of a method that also changes its object.\<close>

definition bind_st :: "('a, 'e) result \<times> 's \<Rightarrow> ('a \<Rightarrow> 's \<Rightarrow> ('b, 'e) result \<times> 's) \<Rightarrow> ('b, 'e) result \<times> 's" where
  "bind_st rs f = (case rs of (Ok x, s) \<Rightarrow> f x s | (Err e, s) \<Rightarrow> (Err e, s) | (Panic, s) \<Rightarrow> (Panic, s))"

lemma bind_st_simps [simp, res_simps]:
  "bind_st (Ok x, s) f = f x s" "bind_st (Err e, s) f = (Err e, s)" "bind_st (Panic, s) f = (Panic, s)"
  by (simp_all add: bind_st_def)

section \<open>The submitter\<close>

datatype translation_error =
    KeyFileRead bytes bytes | KeyParse bytes | InvalidKeyLength nat | KeypairCreationError
  | FetchInitialNonceError bytes | ChainConnectionError bytes | TransactionError bytes
  | ArrowError bytes | FetchEventsError bytes | ExtrinsicFailed | ReconnectionError bytes

fun translation_error_display :: "translation_error \<Rightarrow> bytes" where
  "translation_error_display (KeyFileRead path e) = ''Failed to read Ethereum key from file '' @ [CHR 0x27] @ path @ [CHR 0x27] @ '': '' @ e"
| "translation_error_display (KeyParse e) = ''Failed to parse Ethereum key as hex: '' @ e"
| "translation_error_display (InvalidKeyLength n) = ''Invalid key length: expected 32 bytes, got '' @ show_nat n"
| "translation_error_display KeypairCreationError = ''Failed to create keypair from secret key''"
| "translation_error_display (FetchInitialNonceError e) = ''Error fetching initial nonce: '' @ e"
| "translation_error_display (ChainConnectionError e) = ''Error connecting to chain: '' @ e"
| "translation_error_display (TransactionError e) = ''Error submitting tx: '' @ e"
| "translation_error_display (ArrowError e) = ''Error writing record batch to IPC format: '' @ e"
| "translation_error_display (FetchEventsError e) = ''Error fetching blockchain events: '' @ e"
| "translation_error_display ExtrinsicFailed = ''Extrinsic execution failed.''"
| "translation_error_display (ReconnectionError e) = ''Failed to reconnect to the Substrate node: '' @ e"

definition MAX_RETRIES :: nat where "MAX_RETRIES = 3"

text \<open>\<open>ts_channel\<close> tells whether the receiver of the updates still exists; sending to a closed channel is only logged.\<close>

record 'w tx_submitter =
  ts_nonce :: u64
  ts_channel :: bool
  ts_updates :: "(bytes \<times> u64 option) list"
  ts_world :: 'w

definition fetch_initial_nonce :: "('tx, 'w) node_ext \<Rightarrow> 'w \<Rightarrow> (u32, translation_error) result \<times> 'w" where
  "fetch_initial_nonce N w =
     (case nx_account_nonce N w of (account, w) \<Rightarrow>
       (map_ok (\<lambda>nonce. case nonce of Some n \<Rightarrow> n | None \<Rightarrow> 0) (map_err FetchInitialNonceError account), w))"

definition tx_submitter_new :: "('tx, 'w) node_ext \<Rightarrow> bool \<Rightarrow> 'w \<Rightarrow> ('w tx_submitter, translation_error) result" where
  "tx_submitter_new N channel w =
     (case fetch_initial_nonce N w of (nonce, w) \<Rightarrow>
       map_ok (\<lambda>nonce. \<lparr>ts_nonce = ucast nonce, ts_channel = channel, ts_updates = [], ts_world = w\<rparr>) nonce)"

definition is_stale_nonce_error :: "bytes \<Rightarrow> bool" where
  "is_stale_nonce_error err \<longleftrightarrow> sublist ''Priority is too low'' err
     \<or> sublist ''Transaction is outdated'' err \<or> sublist ''Stale'' err"

definition is_background_disconnect :: "bytes \<Rightarrow> bool" where
  "is_background_disconnect err \<longleftrightarrow> sublist ''background task closed'' err
     \<or> sublist ''connection closed'' err \<or> sublist ''restart required'' err"

definition send_update :: "bytes \<times> u64 option \<Rightarrow> 'w tx_submitter \<Rightarrow> 'w tx_submitter" where
  "send_update u ts = (if ts_channel ts then ts\<lparr>ts_updates := ts_updates ts @ [u]\<rparr> else ts)"

definition refresh_nonce :: "('tx, 'w) node_ext \<Rightarrow> 'w tx_submitter \<Rightarrow> (unit, translation_error) result \<times> 'w tx_submitter" where
  "refresh_nonce N ts =
     (case fetch_initial_nonce N (ts_world ts) of (latest, w) \<Rightarrow>
       bind_st (latest, ts\<lparr>ts_world := w\<rparr>) (\<lambda>latest_nonce ts. (Ok (), ts\<lparr>ts_nonce := ucast latest_nonce\<rparr>)))"

definition try_reconnect :: "('tx, 'w) node_ext \<Rightarrow> 'w tx_submitter \<Rightarrow> (unit, translation_error) result \<times> 'w tx_submitter" where
  "try_reconnect N ts =
     (case nx_connect N (ts_world ts) of (r, w) \<Rightarrow> (map_err TransactionError r, ts\<lparr>ts_world := w\<rparr>))"

definition reconnect_and_refresh_nonce ::
    "('tx, 'w) node_ext \<Rightarrow> 'w tx_submitter \<Rightarrow> (unit, translation_error) result \<times> 'w tx_submitter" where
  "reconnect_and_refresh_nonce N ts = bind_st (try_reconnect N ts) (\<lambda>_. refresh_nonce N)"

text \<open>The loop over the attempts \<open>0..=MAX_RETRIES\<close>; the pauses between them are left out.\<close>

fun submit_attempts ::
    "('tx, 'w) node_ext \<Rightarrow> 'tx \<Rightarrow> (block_header \<times> u64) option \<Rightarrow> nat list \<Rightarrow> 'w tx_submitter
     \<Rightarrow> (bytes, translation_error) result \<times> 'w tx_submitter" where
  "submit_attempts N tx mortality [] ts = (Err (TransactionError ''Exceeded retry limit''), ts)"
| "submit_attempts N tx mortality (attempt # attempts) ts =
     (let nonce_value = ts_nonce ts; number = map_option (\<lambda>(header, _). ucast (hd_number header)) mortality in
      case nx_sign_and_submit N tx nonce_value mortality (ts_world ts) of
        (Ok hash, w) \<Rightarrow> (Ok hash, send_update (hash, number) (ts\<lparr>ts_world := w, ts_nonce := nonce_value + 1\<rparr>))
      | (Err err, w) \<Rightarrow>
          if attempt < MAX_RETRIES then
            if is_stale_nonce_error err then
              bind_st (refresh_nonce N (ts\<lparr>ts_world := w\<rparr>)) (\<lambda>_. submit_attempts N tx mortality attempts)
            else if is_background_disconnect err then
              bind_st (reconnect_and_refresh_nonce N (ts\<lparr>ts_world := w\<rparr>)) (\<lambda>_. submit_attempts N tx mortality attempts)
            else submit_attempts N tx mortality attempts (ts\<lparr>ts_world := w\<rparr>)
          else (Err (TransactionError err), ts\<lparr>ts_world := w\<rparr>)
      | (Panic, w) \<Rightarrow> (Panic, ts\<lparr>ts_world := w\<rparr>))"

definition submit_tx_get_hash_inner ::
    "('tx, 'w) node_ext \<Rightarrow> 'tx \<Rightarrow> (block_header \<times> u64) option \<Rightarrow> 'w tx_submitter
     \<Rightarrow> (bytes, translation_error) result \<times> 'w tx_submitter" where
  "submit_tx_get_hash_inner N tx mortality = submit_attempts N tx mortality [0..<Suc MAX_RETRIES]"

definition submit_tx_get_hash ::
    "('tx, 'w) node_ext \<Rightarrow> 'tx \<Rightarrow> 'w tx_submitter \<Rightarrow> (bytes, translation_error) result \<times> 'w tx_submitter" where
  "submit_tx_get_hash N tx = submit_tx_get_hash_inner N tx None"

definition submit_tx_get_hash_with_mortality ::
    "('tx, 'w) node_ext \<Rightarrow> 'tx \<Rightarrow> block_header \<Rightarrow> u64 \<Rightarrow> 'w tx_submitter
     \<Rightarrow> (bytes, translation_error) result \<times> 'w tx_submitter" where
  "submit_tx_get_hash_with_mortality N tx from_block for_n_blocks =
     submit_tx_get_hash_inner N tx (Some (from_block, for_n_blocks))"

section \<open>Watching a transaction\<close>

text \<open>The statuses of a watched transaction; blocks are named by their hash.\<close>

datatype tx_status =
    Validated | Broadcasted u32 | InBestBlock bytes | InFinalizedBlock bytes | NoLongerInBestBlock
  | TxError bytes | Dropped bytes | Invalid bytes

text \<open>The first of the events of the extrinsic that says how it ended, as (pallet, variant); an event may fail to decode.\<close>

fun find_outcome :: "(bytes \<times> bytes) option list \<Rightarrow> (unit, translation_error) result" where
  "find_outcome [] = Err ExtrinsicFailed"
| "find_outcome (event # rest) =
     (if event = Some (''System'', ''ExtrinsicSuccess'') then Ok ()
      else if event = Some (''System'', ''ExtrinsicFailed'') then Err ExtrinsicFailed
      else find_outcome rest)"

definition check_extrinsic_success ::
    "((bytes \<times> bytes) option list, bytes) result \<Rightarrow> (unit, translation_error) result" where
  "check_extrinsic_success fetched = bind_res (map_err FetchEventsError fetched) find_outcome"

text \<open>
  \<open>progress\<close> is what the stream yields until it ends, \<open>fetch\<close> the events of an extrinsic in a block.
  The outcome of \<open>check_extrinsic_success\<close> is dropped.
\<close>

fun watch_tx_progress ::
    "(bytes \<Rightarrow> ((bytes \<times> bytes) option list, bytes) result) \<Rightarrow> (tx_status, bytes) result list
     \<Rightarrow> (unit, translation_error) result" where
  "watch_tx_progress fetch [] = Ok ()"
| "watch_tx_progress fetch (event # progress) =
     (case event of
        Ok (InFinalizedBlock details) \<Rightarrow> (let _ = check_extrinsic_success (fetch details) in Ok ())
      | Ok _ \<Rightarrow> watch_tx_progress fetch progress
      | Err _ \<Rightarrow> Ok ()
      | Panic \<Rightarrow> Panic)"

text \<open>\<open>submit\<close>: retries with the same nonce and watches an accepted transaction to its end.\<close>

fun submit_loop ::
    "('tx, 'w) node_ext \<Rightarrow> (bytes \<Rightarrow> (tx_status, bytes) result list)
     \<Rightarrow> (bytes \<Rightarrow> ((bytes \<times> bytes) option list, bytes) result) \<Rightarrow> 'tx \<Rightarrow> nat list \<Rightarrow> 'w tx_submitter
     \<Rightarrow> (unit, translation_error) result \<times> 'w tx_submitter" where
  "submit_loop N progress fetch tx [] ts = (Err (TransactionError ''Unexpected transaction failure''), ts)"
| "submit_loop N progress fetch tx (attempt # attempts) ts =
     (let nonce_value = ts_nonce ts in
      case nx_sign_and_submit N tx nonce_value None (ts_world ts) of
        (Ok hash, w) \<Rightarrow>
          (watch_tx_progress fetch (progress hash), ts\<lparr>ts_world := w, ts_nonce := nonce_value + 1\<rparr>)
      | (Err err, w) \<Rightarrow>
          if attempt < MAX_RETRIES then submit_loop N progress fetch tx attempts (ts\<lparr>ts_world := w\<rparr>)
          else (Err (TransactionError err), ts\<lparr>ts_world := w\<rparr>)
      | (Panic, w) \<Rightarrow> (Panic, ts\<lparr>ts_world := w\<rparr>))"

definition submit ::
    "('tx, 'w) node_ext \<Rightarrow> (bytes \<Rightarrow> (tx_status, bytes) result list)
     \<Rightarrow> (bytes \<Rightarrow> ((bytes \<times> bytes) option list, bytes) result) \<Rightarrow> 'tx \<Rightarrow> 'w tx_submitter
     \<Rightarrow> (unit, translation_error) result \<times> 'w tx_submitter" where
  "submit N progress fetch tx = submit_loop N progress fetch tx [0..<Suc MAX_RETRIES]"

section \<open>The progress of transactions\<close>

text \<open>
  \<open>TxProgressDb\<close>: every update starts a task that appends the statuses of its transaction to the
  entry of the map under the text of its hash. A task ends at the end of its stream or at the first
  error; between two statuses of one transaction other tasks may run.
\<close>

type_synonym tx_db = "(bytes, tx_status list) storage_map"

definition record_status :: "bytes \<Rightarrow> tx_status \<Rightarrow> tx_db \<Rightarrow> tx_db" where
  "record_status tx_hash status db = sm_insert tx_hash (sm_get_or [] db tx_hash @ [status]) db"

text \<open>A task: the text of the hash and what its stream still yields.\<close>

type_synonym progress_task = "bytes \<times> (tx_status, bytes) result list"

inductive progress_step :: "progress_task list \<times> tx_db \<Rightarrow> progress_task list \<times> tx_db \<Rightarrow> bool" where
  progress_status:
    "progress_step (ps @ (h, Ok st # rest) # qs, db) (ps @ (h, rest) # qs, record_status h st db)"
| progress_error:
    "progress_step (ps @ (h, Err e # rest) # qs, db) (ps @ qs, db)"
| progress_done:
    "progress_step (ps @ (h, []) # qs, db) (ps @ qs, db)"

definition get_history :: "tx_db \<Rightarrow> bytes \<Rightarrow> tx_status list option" where
  "get_history db tx_hash = sm_get db tx_hash"

section \<open>What a submission leaves behind\<close>

lemma refresh_nonce_frame:
  "refresh_nonce N ts = (r, ts') \<Longrightarrow> ts_channel ts' = ts_channel ts \<and> ts_updates ts' = ts_updates ts"
  by (auto simp: refresh_nonce_def bind_st_def split: prod.splits result.splits)

lemma reconnect_frame:
  "reconnect_and_refresh_nonce N ts = (r, ts') \<Longrightarrow> ts_channel ts' = ts_channel ts \<and> ts_updates ts' = ts_updates ts"
  by (auto simp: reconnect_and_refresh_nonce_def try_reconnect_def bind_st_def split: prod.splits result.splits
      dest!: refresh_nonce_frame)

definition announced_to :: "'w tx_submitter \<Rightarrow> (block_header \<times> u64) option \<Rightarrow> bytes \<Rightarrow> (bytes \<times> u64 option) list" where
  "announced_to ts m h = (if ts_channel ts then [(h, map_option (\<lambda>(header, _). ucast (hd_number header)) m)] else [])"

definition accounted ::
    "('tx, 'w) node_ext \<Rightarrow> 'tx \<Rightarrow> (block_header \<times> u64) option \<Rightarrow> 'w tx_submitter
     \<Rightarrow> (bytes, translation_error) result \<Rightarrow> 'w tx_submitter \<Rightarrow> bool" where
  "accounted N tx m ts r ts' \<longleftrightarrow> ts_channel ts' = ts_channel ts \<and>
     (case r of
        Ok h \<Rightarrow> (\<exists>n w. nx_sign_and_submit N tx n m w = (Ok h, ts_world ts') \<and> ts_nonce ts' = n + 1)
          \<and> ts_updates ts' = ts_updates ts @ announced_to ts m h
      | _ \<Rightarrow> ts_updates ts' = ts_updates ts)"

lemma accounted_cong:
  "ts_channel t = ts_channel ts \<Longrightarrow> ts_updates t = ts_updates ts \<Longrightarrow> accounted N tx m t r ts' \<longleftrightarrow> accounted N tx m ts r ts'"
  by (simp add: accounted_def announced_to_def cong: result.case_cong)

lemma accounted_bind:
  assumes "ts_channel t = ts_channel ts \<and> ts_updates t = ts_updates ts"
    and "bind_st (r1, t) (\<lambda>_. f) = (r, ts')" "\<And>ts1. f ts1 = (r, ts') \<Longrightarrow> accounted N tx m ts1 r ts'"
  shows "accounted N tx m ts r ts'"
proof (cases r1)
  case (Ok x)
  then have "accounted N tx m t r ts'" using assms(2) by (intro assms(3)) simp
  then show ?thesis using accounted_cong[of t ts N tx m r ts'] assms(1) by simp
qed (use assms in \<open>auto simp: accounted_def\<close>)

lemma submit_attempts_accounted:
  "submit_attempts N tx m as ts = (r, ts') \<Longrightarrow> accounted N tx m ts r ts'"
proof (induction as arbitrary: ts)
  case Nil
  then show ?case by (auto simp: accounted_def)
next
  case (Cons a as)
  obtain r1 w where sub: "nx_sign_and_submit N tx (ts_nonce ts) m (ts_world ts) = (r1, w)" by force
  show ?case
  proof (cases r1)
    case (Ok h)
    then have "r = Ok h" "ts_world ts' = w" "ts_nonce ts' = ts_nonce ts + 1" "ts_channel ts' = ts_channel ts"
      "ts_updates ts' = ts_updates ts @ announced_to ts m h"
      using Cons.prems sub by (auto simp: announced_to_def send_update_def Let_def split: if_splits)
    then show ?thesis using sub Ok unfolding accounted_def by auto
  next
    case (Err e)
    let ?t = "ts\<lparr>ts_world := w\<rparr>"
    obtain r2 t2 where re: "refresh_nonce N ?t = (r2, t2)" by force
    obtain r3 t3 where rc: "reconnect_and_refresh_nonce N ?t = (r3, t3)" by force
    have frames: "ts_channel t2 = ts_channel ts \<and> ts_updates t2 = ts_updates ts"
      "ts_channel t3 = ts_channel ts \<and> ts_updates t3 = ts_updates ts"
      using refresh_nonce_frame[OF re] reconnect_frame[OF rc] by simp_all
    consider (last) "r = Err (TransactionError e)" "ts' = ?t"
      | (stale) "bind_st (r2, t2) (\<lambda>_. submit_attempts N tx m as) = (r, ts')"
      | (gone) "bind_st (r3, t3) (\<lambda>_. submit_attempts N tx m as) = (r, ts')"
      | (again) "submit_attempts N tx m as ?t = (r, ts')"
      using Cons.prems unfolding submit_attempts.simps Let_def sub Err prod.case result.case re rc by (metis prod.inject)
    then show ?thesis
    proof cases
      case last
      then show ?thesis by (simp add: accounted_def)
    next
      case stale
      then show ?thesis by (rule accounted_bind[OF frames(1) _ Cons.IH])
    next
      case gone
      then show ?thesis by (rule accounted_bind[OF frames(2) _ Cons.IH])
    next
      case again
      then show ?thesis using Cons.IH[of ?t] accounted_cong[of ?t ts N tx m r ts'] by simp
    qed
  next
    case Panic
    then show ?thesis using Cons.prems sub by (auto simp: accounted_def Let_def)
  qed
qed

section \<open>Nonces\<close>

text \<open>
  What a node documents for the account of a signer nobody else uses, \<open>next\<close> being the nonce that
  comes next: it takes a transaction with that nonce, it calls one with a smaller nonce outdated,
  and it tells the nonce on request. Nonces of accounts have 32 bits.
\<close>

definition account_rules :: "('tx, 'w) node_ext \<Rightarrow> ('w \<Rightarrow> nat) \<Rightarrow> bool" where
  "account_rules N next \<longleftrightarrow> (\<forall>w. next w < 2 ^ 32 \<longrightarrow>
     (\<forall>tx v m. unat v = next w \<longrightarrow> (\<exists>h w'. nx_sign_and_submit N tx v m w = (Ok h, w') \<and> next w' = Suc (next w)))
     \<and> (\<forall>tx v m. unat v < next w \<longrightarrow>
         (\<exists>e w'. nx_sign_and_submit N tx v m w = (Err e, w') \<and> is_stale_nonce_error e \<and> next w' = next w))
     \<and> (\<exists>a w'. nx_account_nonce N w = (Ok a, w') \<and> next w' = next w
         \<and> (case a of Some n \<Rightarrow> unat n = next w | None \<Rightarrow> next w = 0)))"

lemma unat_ucast_u32: "unat (ucast (n :: u32) :: u64) = unat n"
proof -
  have "unat n < 2 ^ 32" using unsigned_less[of n] by simp
  then show ?thesis by (simp add: unsigned_ucast_eq take_bit_eq_mod)
qed

lemma account_rules_accept:
  assumes "account_rules N next" "next w < 2 ^ 32" "unat v = next w"
  obtains h w' where "nx_sign_and_submit N tx v m w = (Ok h, w')" "next w' = Suc (next w)"
  using assms unfolding account_rules_def by blast

lemma account_rules_outdated:
  assumes "account_rules N next" "next w < 2 ^ 32" "unat v < next w"
  obtains e w' where "nx_sign_and_submit N tx v m w = (Err e, w')" "is_stale_nonce_error e" "next w' = next w"
  using assms unfolding account_rules_def by blast

lemma account_rules_refresh:
  fixes ts :: "'w tx_submitter"
  assumes "account_rules N next" "next (ts_world ts) < 2 ^ 32"
  obtains ts' where "refresh_nonce N ts = (Ok (), ts')" "unat (ts_nonce ts') = next (ts_world ts')"
    "next (ts_world ts') = next (ts_world ts)"
proof -
  obtain a w' where a: "nx_account_nonce N (ts_world ts) = (Ok a, w')" "next w' = next (ts_world ts)"
    "case a of Some n \<Rightarrow> unat n = next (ts_world ts) | None \<Rightarrow> next (ts_world ts) = 0"
    using assms unfolding account_rules_def by blast
  define n where "n = (case a of Some n \<Rightarrow> n | None \<Rightarrow> 0)"
  have "unat n = next (ts_world ts)" using a(3) by (simp add: n_def split: option.splits)
  moreover have "refresh_nonce N ts = (Ok (), ts\<lparr>ts_world := w', ts_nonce := ucast n\<rparr>)"
    by (simp add: refresh_nonce_def fetch_initial_nonce_def a(1) n_def)
  moreover have "unat (ucast n :: u64) = unat n" by (simp add: unat_ucast_u32)
  ultimately show thesis using a(2) that by simp
qed

lemma submit_tx_recovers:
  assumes "account_rules N next" "unat (ts_nonce ts) \<le> next (ts_world ts)" "next (ts_world ts) < 2 ^ 32"
  shows "\<exists>h ts'. submit_tx_get_hash_inner N tx m ts = (Ok h, ts') \<and> next (ts_world ts') = Suc (next (ts_world ts))
    \<and> unat (ts_nonce ts') = next (ts_world ts')"
proof -
  have attempts: "[0..<Suc MAX_RETRIES] = [0, 1, 2, 3]" by (simp add: MAX_RETRIES_def upt_rec)
  have now: "\<exists>h ts'. submit_attempts N tx m (a # as) t = (Ok h, ts') \<and> next (ts_world ts') = Suc (next (ts_world t))
      \<and> unat (ts_nonce ts') = next (ts_world ts')"
    if t: "unat (ts_nonce t) = next (ts_world t)" "next (ts_world t) < 2 ^ 32" for a as t
  proof -
    obtain h w' where sub: "nx_sign_and_submit N tx (ts_nonce t) m (ts_world t) = (Ok h, w')" "next w' = Suc (next (ts_world t))"
      using account_rules_accept[OF assms(1) t(2) t(1)] by blast
    have "unat (ts_nonce t + 1) = Suc (unat (ts_nonce t))"
      using t by (simp add: unat_word_ariths)
    then show ?thesis using sub t by (simp add: Let_def send_update_def)
  qed
  show ?thesis
  proof (cases "unat (ts_nonce ts) = next (ts_world ts)")
    case True
    then show ?thesis using now[of ts] assms(3) by (simp only: submit_tx_get_hash_inner_def attempts)
  next
    case False
    then have lt: "unat (ts_nonce ts) < next (ts_world ts)" using assms(2) by simp
    obtain e w' where e: "nx_sign_and_submit N tx (ts_nonce ts) m (ts_world ts) = (Err e, w')" "is_stale_nonce_error e"
      "next w' = next (ts_world ts)"
      using account_rules_outdated[OF assms(1,3) lt] by blast
    obtain ts1 where ts1: "refresh_nonce N (ts\<lparr>ts_world := w'\<rparr>) = (Ok (), ts1)" "unat (ts_nonce ts1) = next (ts_world ts1)"
      "next (ts_world ts1) = next (ts_world ts)"
      using account_rules_refresh[OF assms(1), of "ts\<lparr>ts_world := w'\<rparr>"] e(3) assms(3) by auto
    have "submit_tx_get_hash_inner N tx m ts = submit_attempts N tx m [1, 2, 3] ts1"
      unfolding submit_tx_get_hash_inner_def attempts submit_attempts.simps(2)[of N tx m 0] Let_def e(1) prod.case result.case
      by (simp add: e(2) ts1(1) MAX_RETRIES_def del: submit_attempts.simps)
    then show ?thesis using now[OF ts1(2), of 1 "[2, 3]"] ts1(3) assms(3) by simp
  qed
qed

text \<open>Several submissions one after the other, as the mutex around the submitter makes them.\<close>

fun submit_all ::
    "('tx, 'w) node_ext \<Rightarrow> ('tx \<times> (block_header \<times> u64) option) list \<Rightarrow> 'w tx_submitter
     \<Rightarrow> (bytes list, translation_error) result \<times> 'w tx_submitter" where
  "submit_all N [] ts = (Ok [], ts)"
| "submit_all N ((tx, m) # txs) ts =
     bind_st (submit_tx_get_hash_inner N tx m ts) (\<lambda>h ts. bind_st (submit_all N txs ts) (\<lambda>hs ts. (Ok (h # hs), ts)))"

abbreviation updates_of :: "('tx \<times> (block_header \<times> u64) option) list \<Rightarrow> bytes list \<Rightarrow> (bytes \<times> u64 option) list" where
  "updates_of txs hs \<equiv> zip hs (map (map_option (\<lambda>(header, _). ucast (hd_number header)) \<circ> snd) txs)"

lemma submit_tx_get_hash_inner_accounted:
  "submit_tx_get_hash_inner N tx m ts = (r, ts') \<Longrightarrow> accounted N tx m ts r ts'"
  by (simp only: submit_tx_get_hash_inner_def submit_attempts_accounted)


definition demo_node :: "('tx, nat) node_ext" where
  "demo_node =
     \<lparr>nx_sign_and_submit = \<lambda>tx v m w. if unat v = w then (Ok ''h'', Suc w) else (Err ''Transaction is outdated'', w),
      nx_account_nonce = \<lambda>w. (Ok (Some (of_nat w)), w), nx_connect = \<lambda>w. (Ok (), w)\<rparr>"

lemma demo_node_rules: "account_rules demo_node (\<lambda>w. w)"
proof -
  have "is_stale_nonce_error ''Transaction is outdated''" by code_simp
  then show ?thesis
    by (simp add: account_rules_def demo_node_def unat_of_nat)
qed


text \<open>
  \<open>submit\<close> reports success for every transaction the node takes: when it is dropped, found invalid or
  included and failed, the answer is the same as when it succeeded.
\<close>

lemma watch_tx_progress_ok: "Panic \<notin> set progress \<Longrightarrow> watch_tx_progress fetch progress = Ok ()"
  by (induction progress) (auto split: result.split tx_status.split)

lemma submit_reports_success:
  assumes "nx_sign_and_submit N tx (ts_nonce ts) None (ts_world ts) = (Ok h, w)" "Panic \<notin> set (progress h)"
  shows "fst (submit N progress fetch tx ts) = Ok ()"
proof -
  have "[0..<Suc MAX_RETRIES] = [0, 1, 2, 3]" by (simp add: MAX_RETRIES_def upt_rec)
  then show ?thesis using assms by (simp add: submit_def Let_def watch_tx_progress_ok)
qed

section \<open>Histories\<close>

text \<open>The statuses a stream yields before it ends or fails, and those still to come for a transaction.\<close>

fun statuses :: "(tx_status, bytes) result list \<Rightarrow> tx_status list" where
  "statuses (Ok st # rest) = st # statuses rest"
| "statuses _ = []"

definition pending :: "progress_task list \<Rightarrow> bytes \<Rightarrow> tx_status list" where
  "pending tasks h = (case map_of tasks h of Some xs \<Rightarrow> statuses xs | None \<Rightarrow> [])"

lemma pending_middle:
  "distinct (map fst (ps @ (h, xs) # qs)) \<Longrightarrow>
     pending (ps @ (h, xs) # qs) k = (if k = h then statuses xs else pending (ps @ qs) k)"
  "distinct (map fst (ps @ (h, xs) # qs)) \<Longrightarrow> pending (ps @ qs) h = []"
  by (auto simp: pending_def map_add_def image_iff split: option.splits)

lemma progress_step_history:
  assumes "progress_step (tasks, db) (tasks', db')" "distinct (map fst tasks)"
  shows "distinct (map fst tasks') \<and> sm_get_or [] db' h @ pending tasks' h = sm_get_or [] db h @ pending tasks h"
  using assms(1)
proof (cases rule: progress_step.cases)
  case (progress_status ps k st rest qs)
  then show ?thesis
    using assms(2) pending_middle(1)[of ps k "Ok st # rest" qs h] pending_middle(1)[of ps k rest qs h]
    by (simp add: record_status_def)
next
  case (progress_error ps k e rest qs)
  then show ?thesis
    using assms(2) pending_middle[of ps k "Err e # rest" qs] by auto
next
  case (progress_done ps k qs)
  then show ?thesis
    using assms(2) pending_middle[of ps k "[]" qs] by auto
qed

lemma progress_steps_history:
  assumes "progress_step\<^sup>*\<^sup>* (tasks, db) (tasks', db')" "distinct (map fst tasks)"
  shows "distinct (map fst tasks') \<and> sm_get_or [] db' h @ pending tasks' h = sm_get_or [] db h @ pending tasks h"
  using assms
proof (induction "(tasks', db')" arbitrary: tasks' db' rule: rtranclp_induct)
  case (step y)
  then show ?case using progress_step_history[of "fst y" "snd y" tasks' db' h] by (cases y) auto
qed auto

lemma progress_steps_nonempty:
  assumes "progress_step\<^sup>*\<^sup>* (tasks, db) (tasks', db')" "\<forall>h. sm_get db h \<noteq> Some []"
  shows "sm_get db' h \<noteq> Some []"
  using assms
proof (induction "(tasks', db')" arbitrary: tasks' db' h rule: rtranclp_induct)
  case (step y)
  then have "sm_get (snd y) k \<noteq> Some []" for k by (metis prod.collapse)
  with step(2) show ?case by (cases rule: progress_step.cases) (auto simp: record_status_def)
qed auto

text \<open>
  C37. The history of a transaction is what its stream yielded. However the tasks of different
  transactions interleave, at every moment the recorded statuses of a transaction followed by those
  its task has not received yet are all statuses of its stream before its end or first error, in
  order; once no task is left the history is complete, a transaction without any status has none, and
  tasks that remain can always go on, each step bringing the end nearer.
\<close>

theorem history_in_order:
  assumes "distinct (map fst tasks)" "progress_step\<^sup>*\<^sup>* (tasks, []) (tasks', db)"
  shows "(case get_history db h of Some l \<Rightarrow> l | None \<Rightarrow> []) @ pending tasks' h = pending tasks h
    \<and> (tasks' = [] \<longrightarrow> get_history db h = (if pending tasks h = [] then None else Some (pending tasks h)))
    \<and> (tasks' \<noteq> [] \<and> (\<forall>t \<in> set tasks'. Panic \<notin> set (snd t)) \<longrightarrow> (\<exists>tasks'' db'. progress_step (tasks', db) (tasks'', db')))
    \<and> (\<forall>tasks'' db'. progress_step (tasks', db) (tasks'', db') \<longrightarrow>
        sum_list (map (Suc \<circ> length \<circ> snd) tasks'') < sum_list (map (Suc \<circ> length \<circ> snd) tasks'))"
proof (intro conjI allI impI)
  have *: "sm_get_or [] db h @ pending tasks' h = pending tasks h"
    using progress_steps_history[OF assms(2,1), of h] by (simp add: sm_get_or_def)
  then show "(case get_history db h of Some l \<Rightarrow> l | None \<Rightarrow> []) @ pending tasks' h = pending tasks h"
    by (simp add: get_history_def sm_get_or_def)
  show "get_history db h = (if pending tasks h = [] then None else Some (pending tasks h))" if "tasks' = []"
    using * that progress_steps_nonempty[OF assms(2), of h]
    by (auto simp: pending_def[of "[]"] get_history_def sm_get_or_def split: option.splits)
  show "\<exists>tasks'' db'. progress_step (tasks', db) (tasks'', db')"
    if left: "tasks' \<noteq> [] \<and> (\<forall>t \<in> set tasks'. Panic \<notin> set (snd t))"
  proof -
    obtain k xs qs where t: "tasks' = (k, xs) # qs" using left by (cases tasks') auto
    consider "xs = []" | st rest where "xs = Ok st # rest" | e rest where "xs = Err e # rest"
      using left by (cases xs; cases "hd xs") (auto simp: t)
    then show ?thesis
    proof cases
      case 1
      then show ?thesis using progress_done[of "[]" k qs db] by (auto simp: t)
    next
      case (2 st rest)
      then show ?thesis using progress_status[of "[]" k st rest qs db] by (auto simp: t)
    next
      case (3 e rest)
      then show ?thesis using progress_error[of "[]" k e rest qs db] by (auto simp: t)
    qed
  qed
  show "sum_list (map (Suc \<circ> length \<circ> snd) tasks'') < sum_list (map (Suc \<circ> length \<circ> snd) tasks')"
    if "progress_step (tasks', db) (tasks'', db')" for tasks'' db'
    using that by (cases rule: progress_step.cases) auto
qed

theorem history_in_order_witness:
  "\<exists>db. progress_step\<^sup>*\<^sup>* ([(''a'', [Ok Validated, Ok (Broadcasted 3)]), (''b'', [Ok Validated, Err ''e''])], []) ([], db)
     \<and> get_history db ''a'' = Some [Validated, Broadcasted 3]"
proof -
  let ?db = "record_status ''a'' (Broadcasted 3) (record_status ''b'' Validated (record_status ''a'' Validated []))"
  let ?ts = "[(''a'', [Ok Validated, Ok (Broadcasted 3)]), (''b'', [Ok Validated, Err ''e''])]"
  note st = converse_rtranclp_into_rtranclp[of progress_step]
  have run: "progress_step\<^sup>*\<^sup>* (?ts, []) ([], ?db)"
    by (rule st[OF progress_status[of "[]" "''a''" Validated _ _ "[]", simplified]],
        rule st[OF progress_status[of "[(''a'', _)]" "''b''" Validated _ "[]", simplified]],
        rule st[OF progress_status[of "[]" "''a''" "Broadcasted 3" "[]", simplified]],
        rule st[OF progress_done[of "[]" "''a''", simplified]],
        rule st[OF progress_error[of "[]" "''b''" "''e''" "[]" "[]", simplified]], rule rtranclp.rtrancl_refl)
  have "get_history ?db ''a'' \<noteq> None" by (simp add: get_history_def record_status_def)
  with history_in_order[OF _ run, of "''a''"] have "get_history ?db ''a'' = Some [Validated, Broadcasted 3]"
    by (simp add: pending_def)
  with run show ?thesis by blast
qed

end
