(* ===== verification/Translation_Layer.thy ===== *)
theory Translation_Layer
  imports Tx_Submitter
begin

text \<open>
  The HTTP interface of \<open>translation-layer\<close>: requests become calls of the tables and smart contracts
  pallets, which the submitter of the chosen network sends; contracts are looked up in storage, and
  the status of a transaction is read from its events or from the recorded progress. Case folding and
  the lossy reading of UTF-8 are functions of \<open>text_ext\<close>; storage and blocks as the node serves them
  are functions of \<open>query_ext\<close>. JSON is the business of other crates: handlers start from the decoded
  request and end with the response.
\<close>

section \<open>Requests and responses\<close>

record text_ext =
  tx_to_lowercase :: "bytes \<Rightarrow> bytes"
  tx_from_utf8_lossy :: "bytes \<Rightarrow> bytes"

record api_response =
  ap_success :: bool
  ap_err_msg :: "bytes option"
  ap_tx_hash :: "bytes option"

datatype status_code = BAD_REQUEST | NOT_FOUND | INTERNAL_SERVER_ERROR

datatype api_table_type = ApiCoreBlockchain | ApiSCI | ApiCommunity

fun table_type_from_api :: "api_table_type \<Rightarrow> table_type" where
  "table_type_from_api ApiCoreBlockchain = CoreBlockchain"
| "table_type_from_api ApiSCI = SCI"
| "table_type_from_api ApiCommunity = Community"

fun api_table_type_from_runtime :: "table_type \<Rightarrow> api_table_type" where
  "api_table_type_from_runtime CoreBlockchain = ApiCoreBlockchain"
| "api_table_type_from_runtime SCI = ApiSCI"
| "api_table_type_from_runtime Community = ApiCommunity"
| "api_table_type_from_runtime _ = ApiCoreBlockchain"

datatype api_commitment_scheme = ApiHyperKzg | ApiDynamicDory

datatype chain_source =
  ChainEthereum | ChainSepolia | ChainBitcoin | ChainPolygon | ChainZkSyncEra | ChainUserCreated bytes

fun source_from_api :: "chain_source \<Rightarrow> source" where
  "source_from_api ChainEthereum = Ethereum"
| "source_from_api ChainSepolia = Sepolia"
| "source_from_api ChainBitcoin = Bitcoin"
| "source_from_api ChainPolygon = Polygon"
| "source_from_api ChainZkSyncEra = ZkSyncEra"
| "source_from_api (ChainUserCreated s) = SourceUserCreated s"

record table_request =
  tr_table_type :: api_table_type
  tr_table_name :: bytes
  tr_schema_name :: bytes
  tr_ddl_statement :: bytes
  tr_commitment :: "bytes option"
  tr_snapshot_url :: "bytes option"
  tr_commitment_scheme :: "api_commitment_scheme option"
  tr_source :: chain_source

record drop_table_request =
  dr_schema_name :: bytes
  dr_table_name :: bytes
  dr_source :: chain_source
  dr_mode :: bytes
  dr_table_type :: api_table_type

record event_mapping =
  em_name :: bytes
  em_signature :: bytes
  em_table :: bytes

text \<open>The fields both kinds of contract request have.\<close>

record contract_request =
  cq_source :: bytes
  cq_address :: bytes
  cq_abi :: "bytes option"
  cq_starting_block :: "u64 option"
  cq_target_schema :: "bytes option"
  cq_contract_name :: "bytes option"
  cq_events :: "event_mapping list"
  cq_ddl_statement :: "bytes option"
  cq_tables :: "table_request list"

datatype add_contract_request = AddNormal contract_request | AddProxy contract_request bytes

record remove_contract_request =
  rq_source :: bytes
  rq_address :: bytes

record api_contract_details =
  ac_source :: bytes
  ac_address :: bytes
  ac_abi :: "bytes option"
  ac_starting_block :: "u64 option"
  ac_target_schema :: "bytes option"
  ac_contract_name :: "bytes option"
  ac_events :: "event_mapping list"
  ac_ddl_statement :: "bytes option"

datatype api_contract = ApiNormal api_contract_details | ApiProxy api_contract_details bytes

datatype contract_conversion_error =
    AddressTooLong | ImplementationAddressTooLong | AbiTooLarge | TargetSchemaTooLong
  | ContractNameTooLong | HexConversionError | DDLTooLarge

fun contract_conversion_error_display :: "contract_conversion_error \<Rightarrow> bytes" where
  "contract_conversion_error_display AddressTooLong = ''Contract address exceeds 64 bytes''"
| "contract_conversion_error_display ImplementationAddressTooLong = ''Implementation address exceeds 64 bytes''"
| "contract_conversion_error_display AbiTooLarge = ''ABI exceeds 8192 bytes''"
| "contract_conversion_error_display TargetSchemaTooLong = ''Target schema exceeds 8192 bytes''"
| "contract_conversion_error_display ContractNameTooLong = ''Contract name exceeds '' @ show_nat IDENT_LENGTH @ '' bytes''"
| "contract_conversion_error_display HexConversionError = ''HexConversionError''"
| "contract_conversion_error_display DDLTooLarge = ''DDL to large to fit in bounded vector''"

definition CONTRACT_ABI_BOUND :: nat where "CONTRACT_ABI_BOUND = 32768"

section \<open>Conversions\<close>

text \<open>\<open>translation-layer/src/utils.rs\<close>\<close>

definition parse_h256_from_hex :: "bytes \<Rightarrow> (bytes, bytes) result" where
  "parse_h256_from_hex hex_str =
     (case hex_decode (trim_start_matches ''0x'' hex_str) of
        Some bs \<Rightarrow> if length bs = 32 then Ok bs else Err ''Invalid hex string''
      | None \<Rightarrow> Err ''Invalid hex string'')"

definition failure_response :: "bytes \<Rightarrow> api_response" where
  "failure_response message = \<lparr>ap_success = False, ap_err_msg = Some message, ap_tx_hash = None\<rparr>"

definition bad_request :: "bytes \<Rightarrow> status_code \<times> api_response" where
  "bad_request message = (BAD_REQUEST, failure_response message)"

definition internal_server_error :: "bytes \<Rightarrow> status_code \<times> api_response" where
  "internal_server_error message = (INTERNAL_SERVER_ERROR, failure_response message)"

definition not_found :: "bytes \<Rightarrow> status_code \<times> api_response" where
  "not_found message = (NOT_FOUND, failure_response message)"

definition extract_param :: "(bytes \<rightharpoonup> bytes) \<Rightarrow> bytes \<Rightarrow> (bytes, status_code \<times> api_response) result" where
  "extract_param params key = ok_or (params key) (bad_request (''Missing required query parameter: '' @ key))"

definition string_to_source :: "text_ext \<Rightarrow> bytes \<Rightarrow> source" where
  "string_to_source T source =
     (let s = tx_to_lowercase T source in
      if s = ''ethereum'' then Ethereum else if s = ''sepolia'' then Sepolia
      else if s = ''bitcoin'' then Bitcoin else if s = ''polygon'' then Polygon
      else if s = ''zksyncera'' then ZkSyncEra else SourceUserCreated s)"

fun source_to_string :: "source \<Rightarrow> bytes" where
  "source_to_string Ethereum = ''Ethereum''"
| "source_to_string Sepolia = ''Sepolia''"
| "source_to_string Bitcoin = ''Bitcoin''"
| "source_to_string Polygon = ''Polygon''"
| "source_to_string ZkSyncEra = ''ZkSyncEra''"
| "source_to_string (SourceUserCreated s) = (if utf8_valid s then s else ''InvalidUserCreatedSource'')"

definition string_to_mode :: "text_ext \<Rightarrow> bytes \<Rightarrow> indexer_mode" where
  "string_to_mode T original =
     (let mode = tx_to_lowercase T original in
      if mode = ''core'' then Core else if mode = ''full'' then Full
      else if mode = ''pricefeeds'' \<or> mode = ''price_feeds'' then PriceFeeds
      else if starts_with ''smartcontract:'' mode then SmartContractMode (trim_start_matches ''smartcontract:'' mode)
      else if starts_with ''usercreated:'' mode then ModeUserCreated (trim_start_matches ''usercreated:'' mode)
      else ModeUserCreated original)"

definition bytes_option_to_string :: "text_ext \<Rightarrow> bytes option \<Rightarrow> bytes option" where
  "bytes_option_to_string T = map_option (tx_from_utf8_lossy T)"

definition convert_event_details_from_chain :: "text_ext \<Rightarrow> event_details list option \<Rightarrow> event_mapping list" where
  "convert_event_details_from_chain T event_details =
     (case event_details of
        Some es \<Rightarrow> map (\<lambda>e. \<lparr>em_name = tx_from_utf8_lossy T (ev_name e), em_signature = tx_from_utf8_lossy T (ev_signature e),
          em_table = tx_from_utf8_lossy T (ev_table e)\<rparr>) es
      | None \<Rightarrow> [])"

definition convert_event_details_to_chain :: "event_mapping list \<Rightarrow> event_details list option" where
  "convert_event_details_to_chain es =
     (if es = [] then None
      else Some (map (\<lambda>e. \<lparr>ev_name = em_name e, ev_signature = em_signature e, ev_table = em_table e\<rparr>) es))"

fun map_contract_to_api :: "text_ext \<Rightarrow> contract \<Rightarrow> source \<Rightarrow> bytes \<Rightarrow> api_contract" where
  "map_contract_to_api T (Normal details) source address =
     ApiNormal \<lparr>ac_source = source_to_string source, ac_address = tx_from_utf8_lossy T address,
       ac_abi = bytes_option_to_string T (cd_abi details), ac_starting_block = cd_starting_block details,
       ac_target_schema = bytes_option_to_string T (cd_target_schema details),
       ac_contract_name = bytes_option_to_string T (cd_contract_name details),
       ac_events = convert_event_details_from_chain T (cd_event_details details), ac_ddl_statement = Some []\<rparr>"
| "map_contract_to_api T (Proxy details implementation) source address =
     ApiProxy \<lparr>ac_source = source_to_string source, ac_address = tx_from_utf8_lossy T address,
       ac_abi = bytes_option_to_string T (cd_abi implementation), ac_starting_block = cd_starting_block details,
       ac_target_schema = bytes_option_to_string T (cd_target_schema implementation),
       ac_contract_name = bytes_option_to_string T (cd_contract_name details),
       ac_events = convert_event_details_from_chain T (cd_event_details details), ac_ddl_statement = Some []\<rparr>
       (tx_from_utf8_lossy T (cd_address implementation))"

text \<open>\<open>translation-layer/src/model.rs\<close>: an optional text of bounded length, and an address in hexadecimal.\<close>

definition bounded_text :: "nat \<Rightarrow> contract_conversion_error \<Rightarrow> bytes option \<Rightarrow> (bytes option, contract_conversion_error) result" where
  "bounded_text bound e t =
     (case t of Some s \<Rightarrow> if length s > bound then Err e else Ok (Some s) | None \<Rightarrow> Ok None)"

definition decode_address :: "contract_conversion_error \<Rightarrow> bytes \<Rightarrow> (bytes, contract_conversion_error) result" where
  "decode_address too_long address =
     (let address = trim_start_matches ''0x'' address in
     bind_res (ok_or (hex_decode address) HexConversionError) (\<lambda>address_bytes.
     if length address_bytes > 64 then Err too_long else Ok address_bytes))"

definition convert_details ::
    "text_ext \<Rightarrow> contract_request \<Rightarrow> bytes \<Rightarrow> (contract_details, contract_conversion_error) result" where
  "convert_details T q address =
     bind_res (bounded_text CONTRACT_ABI_BOUND AbiTooLarge (cq_abi q)) (\<lambda>abi.
     bind_res (bounded_text IDENT_LENGTH TargetSchemaTooLong (cq_target_schema q)) (\<lambda>target_schema.
     bind_res (bounded_text IDENT_LENGTH ContractNameTooLong (cq_contract_name q)) (\<lambda>contract_name.
     bind_res (bounded_text CREATE_STMNT_LENGTH DDLTooLarge (cq_ddl_statement q)) (\<lambda>ddl_statement.
     Ok \<lparr>cd_source = string_to_source T (cq_source q), cd_address = address, cd_abi = abi,
         cd_starting_block = cq_starting_block q, cd_target_schema = target_schema, cd_contract_name = contract_name,
         cd_event_details = convert_event_details_to_chain (cq_events q), cd_ddl_statement = ddl_statement\<rparr>))))"

fun add_contract_try_into ::
    "text_ext \<Rightarrow> add_contract_request \<Rightarrow> (table_request list \<times> contract, contract_conversion_error) result" where
  "add_contract_try_into T (AddNormal q) =
     bind_res (decode_address AddressTooLong (cq_address q)) (\<lambda>address.
     bind_res (convert_details T q address) (\<lambda>details.
     Ok (cq_tables q, Normal details)))"
| "add_contract_try_into T (AddProxy q implementation_address) =
     bind_res (decode_address AddressTooLong (cq_address q)) (\<lambda>address.
     bind_res (decode_address ImplementationAddressTooLong implementation_address) (\<lambda>implementation_address.
     bind_res (convert_details T q address) (\<lambda>base_details.
     Ok (cq_tables q, Proxy base_details
       \<lparr>cd_source = string_to_source T (cq_source q), cd_address = implementation_address, cd_abi = None,
        cd_starting_block = None, cd_target_schema = None, cd_contract_name = None,
        cd_event_details = convert_event_details_to_chain (cq_events q), cd_ddl_statement = None\<rparr>))))"

section \<open>Building calls\<close>

text \<open>\<open>translation-layer/src/table_builder.rs\<close>; the parent of a builder is passed to \<open>tb_add\<close>.\<close>

record table_builder =
  tb_identifier :: table_identifier
  tb_ddl_statement :: bytes
  tb_table_type :: table_type
  tb_commitment_scheme :: "api_commitment_scheme option"
  tb_snapshot_url :: "bytes option"
  tb_commitment :: "bytes option"
  tb_source :: chain_source

type_synonym table_creator = "update_table list"

definition table_builder_new :: table_builder where
  "table_builder_new =
     \<lparr>tb_identifier = \<lparr>ti_name = [], ti_namespace = []\<rparr>, tb_ddl_statement = [], tb_table_type = CoreBlockchain,
      tb_commitment_scheme = None, tb_snapshot_url = None, tb_commitment = None, tb_source = ChainEthereum\<rparr>"

definition tb_add :: "table_builder \<Rightarrow> table_creator \<Rightarrow> table_creator" where
  "tb_add b parent =
     (let commitment =
        (case (tb_commitment_scheme b, tb_commitment b, tb_snapshot_url b) of
           (Some scheme, Some commitment, Some snapshot) \<Rightarrow>
             FromSnapshot snapshot
               (case scheme of
                  ApiHyperKzg \<Rightarrow> \<lparr>pc_hyper_kzg = Some commitment, pc_dynamic_dory = None\<rparr>
                | ApiDynamicDory \<Rightarrow> \<lparr>pc_hyper_kzg = None, pc_dynamic_dory = Some commitment\<rparr>)
         | _ \<Rightarrow> EmptyCommitment \<lparr>fl_hyper_kzg = True, fl_dynamic_dory = True\<rparr>)
      in parent @ [\<lparr>ut_ident = tb_identifier b, ut_create_statement = tb_ddl_statement b, ut_table_type = tb_table_type b,
                    ut_commitment = commitment, ut_source = source_from_api (tb_source b)\<rparr>])"

text \<open>The loop over the requested tables, which \<open>create_table\<close> and \<open>add_smartcontract\<close> both have.\<close>

fun add_requested_tables :: "table_request list \<Rightarrow> table_creator \<Rightarrow> table_creator option" where
  "add_requested_tables [] creator = Some creator"
| "add_requested_tables (table # tables) creator =
     (let builder = table_builder_new
        \<lparr>tb_identifier := \<lparr>ti_name = tr_table_name table, ti_namespace = tr_schema_name table\<rparr>,
         tb_ddl_statement := tr_ddl_statement table, tb_table_type := table_type_from_api (tr_table_type table),
         tb_source := tr_source table\<rparr> in
      case (tr_commitment table, tr_commitment_scheme table, tr_snapshot_url table) of
        (Some commitment_hex, Some scheme, Some snapshot) \<Rightarrow>
          (case hex_decode (trim_start_matches ''0x'' commitment_hex) of
             Some decoded \<Rightarrow> add_requested_tables tables
               (tb_add (builder\<lparr>tb_commitment_scheme := Some scheme, tb_commitment := Some decoded, tb_snapshot_url := Some snapshot\<rparr>) creator)
           | None \<Rightarrow> None)
      | _ \<Rightarrow> add_requested_tables tables (tb_add builder creator))"

section \<open>Handlers that submit\<close>

datatype network = Mainnet | Testnet

record 'w translation_layer_state =
  tl_mainnet_submitter :: "'w tx_submitter option"
  tl_testnet_submitter :: "'w tx_submitter option"
  tl_tx_db :: tx_db
  tl_network :: network

definition submitter_of :: "'w translation_layer_state \<Rightarrow> 'w tx_submitter option" where
  "submitter_of st = (case tl_network st of Mainnet \<Rightarrow> tl_mainnet_submitter st | Testnet \<Rightarrow> tl_testnet_submitter st)"

definition with_submitter_state :: "'w tx_submitter \<Rightarrow> 'w translation_layer_state \<Rightarrow> 'w translation_layer_state" where
  "with_submitter_state ts st =
     (case tl_network st of Mainnet \<Rightarrow> st\<lparr>tl_mainnet_submitter := Some ts\<rparr> | Testnet \<Rightarrow> st\<lparr>tl_testnet_submitter := Some ts\<rparr>)"

text \<open>The end of every submitting handler. A panic of the handler has no response.\<close>

definition submit_call ::
    "(runtime_call, 'w) node_ext \<Rightarrow> runtime_call \<Rightarrow> 'w translation_layer_state
     \<Rightarrow> api_response option \<times> 'w translation_layer_state" where
  "submit_call N tx st =
     (case submitter_of st of
        None \<Rightarrow> (Some (failure_response ''TxSubmitter not configured for this network''), st)
      | Some submitter \<Rightarrow>
          (case submit_tx_get_hash N tx submitter of
             (Ok hash, ts) \<Rightarrow>
               (Some \<lparr>ap_success = True, ap_err_msg = None, ap_tx_hash = Some (''0x'' @ hex_encode hash)\<rparr>, with_submitter_state ts st)
           | (Err err, ts) \<Rightarrow>
               (Some (failure_response (''Error: '' @ translation_error_display err)), with_submitter_state ts st)
           | (Panic, ts) \<Rightarrow> (None, with_submitter_state ts st)))"

definition api_create_table ::
    "(runtime_call, 'w) node_ext \<Rightarrow> table_request list \<Rightarrow> 'w translation_layer_state
     \<Rightarrow> api_response option \<times> 'w translation_layer_state" where
  "api_create_table N request st =
     (case add_requested_tables request [] of
        None \<Rightarrow> (Some (failure_response ''Invalid hex commitment''), st)
      | Some tables \<Rightarrow> submit_call N (TablesCall (CreateTables tables)) st)"

definition api_drop_table ::
    "(runtime_call, 'w) node_ext \<Rightarrow> drop_table_request \<Rightarrow> 'w translation_layer_state
     \<Rightarrow> api_response option \<times> 'w translation_layer_state" where
  "api_drop_table N request st =
     submit_call N (TablesCall (DropTable (table_type_from_api (dr_table_type request))
       \<lparr>ti_name = dr_table_name request, ti_namespace = dr_schema_name request\<rparr>
       (source_from_api (dr_source request)))) st"

definition api_add_smartcontract ::
    "text_ext \<Rightarrow> (runtime_call, 'w) node_ext \<Rightarrow> add_contract_request \<Rightarrow> 'w translation_layer_state
     \<Rightarrow> api_response option \<times> 'w translation_layer_state" where
  "api_add_smartcontract T N request st =
     (case add_contract_try_into T request of
        Ok (tables, contract) \<Rightarrow>
          (case add_requested_tables tables [] of
             None \<Rightarrow> (Some (failure_response ''Invalid hex commitment''), st)
           | Some tables \<Rightarrow> submit_call N (SmartcontractsCall (AddSmartcontract contract tables)) st)
      | Err e \<Rightarrow> (Some (failure_response (''Invalid contract input: '' @ contract_conversion_error_display e)), st)
      | Panic \<Rightarrow> (None, st))"

definition remove_call :: "text_ext \<Rightarrow> remove_contract_request \<Rightarrow> runtime_call" where
  "remove_call T request =
     SmartcontractsCall (RemoveSmartcontract (string_to_source T (rq_source request)) (rq_address request))"

definition api_remove_smartcontract ::
    "text_ext \<Rightarrow> (runtime_call, 'w) node_ext \<Rightarrow> remove_contract_request \<Rightarrow> 'w translation_layer_state
     \<Rightarrow> api_response option \<times> 'w translation_layer_state" where
  "api_remove_smartcontract T N request st = submit_call N (remove_call T request) st"

section \<open>Handlers that query\<close>

text \<open>
  What the node serves: whether the latest storage is available, a contract under a key, the values of
  all contracts of a source, blocks with their extrinsics. An extrinsic has its hash and its events,
  of which only a failure is looked into; a dispatch error is that of a pallet, by index, or another.
\<close>

datatype dispatch_failure = ModuleFailure u8 u8 | OtherFailure bytes

datatype extrinsic_event = ExtrinsicFailedEvent dispatch_failure | OtherEvent

record block_extrinsic =
  bx_hash :: bytes
  bx_events :: "((extrinsic_event, bytes) result list, bytes) result"

record query_ext =
  qx_latest :: "(unit, bytes) result"
  qx_contract :: "source \<Rightarrow> bytes \<Rightarrow> (contract option, bytes) result"
  qx_contracts :: "source \<Rightarrow> ((contract, bytes) result list, bytes) result"
  qx_block :: "bytes \<Rightarrow> ((block_extrinsic list, bytes) result, bytes) result"
  qx_error_variant :: "u8 \<Rightarrow> u8 \<Rightarrow> (bytes \<times> bytes list) option"

definition get_smartcontract ::
    "text_ext \<Rightarrow> query_ext \<Rightarrow> (bytes \<rightharpoonup> bytes) \<Rightarrow> 'w translation_layer_state
     \<Rightarrow> (api_contract, status_code \<times> api_response) result" where
  "get_smartcontract T Q params st =
     bind_res (extract_param params ''source'') (\<lambda>source.
     bind_res (extract_param params ''address'') (\<lambda>address.
     let source = string_to_source T source in
     bind_res (ensure (submitter_of st \<noteq> None) (internal_server_error ''tx submitter improperly initialized'')) (\<lambda>_.
     bind_res (map_err (\<lambda>_. internal_server_error ''Failed to access storage'') (qx_latest Q)) (\<lambda>_.
     bind_res (map_err (\<lambda>_. not_found ''Contract not found'') (qx_contract Q source address)) (\<lambda>found.
     bind_res (ok_or found (not_found ''Contract not found'')) (\<lambda>contract.
     Ok (map_contract_to_api T contract source address)))))))"

text \<open>\<open>while let Some(Ok(contract)) = stream.next()\<close>: the rest after the first error is left.\<close>

fun take_ok :: "('a, 'e) result list \<Rightarrow> 'a list" where
  "take_ok (Ok x # rest) = x # take_ok rest"
| "take_ok _ = []"

definition get_smartcontracts ::
    "text_ext \<Rightarrow> query_ext \<Rightarrow> (bytes \<rightharpoonup> bytes) \<Rightarrow> 'w translation_layer_state
     \<Rightarrow> (api_contract list, status_code \<times> api_response) result" where
  "get_smartcontracts T Q params st =
     bind_res (extract_param params ''source'') (\<lambda>source.
     let source = string_to_source T source in
     bind_res (ensure (submitter_of st \<noteq> None) (internal_server_error ''tx submitter improperly initialized'')) (\<lambda>_.
     bind_res (map_err (\<lambda>_. internal_server_error ''Failed to access storage'') (qx_latest Q)) (\<lambda>_.
     bind_res (map_err (\<lambda>err. internal_server_error (''Failed to get storage iterator: '' @ err)) (qx_contracts Q source)) (\<lambda>stream.
     let contracts = map (\<lambda>v. map_contract_to_api T v source (cd_address (contract_details_of v))) (take_ok stream) in
     if contracts = [] then Err (not_found ''No contracts found for the given source'') else Ok contracts))))"

fun join_with :: "bytes \<Rightarrow> bytes list \<Rightarrow> bytes" where
  "join_with sep [] = []"
| "join_with sep [x] = x"
| "join_with sep (x # xs) = x @ sep @ join_with sep xs"

definition decode_system_module_error :: "query_ext \<Rightarrow> dispatch_failure \<Rightarrow> bytes option" where
  "decode_system_module_error Q dispatch_error =
     (case dispatch_error of
        ModuleFailure index error \<Rightarrow>
          map_option (\<lambda>(error_name, docs). ''Pallet: System, Error: '' @ error_name @ '' ('' @ join_with '' '' docs @ '')'')
            (qx_error_variant Q index error)
      | OtherFailure _ \<Rightarrow> None)"

record tx_execution_status =
  xs_success :: bool
  xs_details :: "bytes option"

fun scan_events :: "query_ext \<Rightarrow> (extrinsic_event, bytes) result list \<Rightarrow> (tx_execution_status, status_code \<times> api_response) result" where
  "scan_events Q [] = Ok \<lparr>xs_success = True, xs_details = None\<rparr>"
| "scan_events Q (event # rest) =
     bind_res (map_err (\<lambda>e. internal_server_error (''Failed to parse event: '' @ e)) event) (\<lambda>event.
     case event of
       ExtrinsicFailedEvent dispatch_error \<Rightarrow>
         (case decode_system_module_error Q dispatch_error of
            Some decoded \<Rightarrow> Ok \<lparr>xs_success = False, xs_details = Some (''Extrinsic execution failed: '' @ decoded)\<rparr>
          | None \<Rightarrow> scan_events Q rest)
     | OtherEvent \<Rightarrow> scan_events Q rest)"

definition get_extrinsic_status_in_block ::
    "query_ext \<Rightarrow> (bytes \<rightharpoonup> bytes) \<Rightarrow> (tx_execution_status, status_code \<times> api_response) result" where
  "get_extrinsic_status_in_block Q params =
     bind_res (extract_param params ''tx_hash'') (\<lambda>tx_hash.
     bind_res (map_err (\<lambda>e. bad_request (''Invalid tx_hash format: '' @ e)) (parse_h256_from_hex tx_hash)) (\<lambda>tx_hash.
     bind_res (extract_param params ''block_hash'') (\<lambda>block_hash.
     bind_res (map_err (\<lambda>e. bad_request (''Invalid block_hash format: '' @ e)) (parse_h256_from_hex block_hash)) (\<lambda>block_hash.
     bind_res (map_err (\<lambda>e. internal_server_error (''Subxt error fetching block: '' @ e)) (qx_block Q block_hash)) (\<lambda>block_at_hash.
     bind_res (map_err (\<lambda>e. internal_server_error (''Subxt error fetching extrinsics: '' @ e)) block_at_hash) (\<lambda>extrinsics.
     case List.find (\<lambda>ext. bx_hash ext = tx_hash) extrinsics of
       Some extrinsic \<Rightarrow>
         bind_res (map_err (\<lambda>e. internal_server_error (''Subxt error fetching events: '' @ e)) (bx_events extrinsic)) (scan_events Q)
     | None \<Rightarrow> Err (not_found ''Transaction not found in the block'')))))))"

record tx_status_details =
  sd_validated :: bool
  sd_no_longer_in_best_block :: bool
  sd_broadcasted_peers :: "u32 option"
  sd_in_best_block :: "bytes option"
  sd_finalized_in_block :: "bytes option"
  sd_dropped_message :: "bytes option"
  sd_invalid_message :: "bytes option"
  sd_error_message :: "bytes option"

fun apply_status :: "tx_status \<Rightarrow> tx_status_details \<Rightarrow> tx_status_details" where
  "apply_status (Broadcasted num_peers) d = d\<lparr>sd_broadcasted_peers := Some num_peers\<rparr>"
| "apply_status (InBestBlock block) d = d\<lparr>sd_in_best_block := Some (''0x'' @ hex_encode block)\<rparr>"
| "apply_status (InFinalizedBlock block) d = d\<lparr>sd_finalized_in_block := Some (''0x'' @ hex_encode block)\<rparr>"
| "apply_status (Dropped message) d = d\<lparr>sd_dropped_message := Some message\<rparr>"
| "apply_status (Invalid message) d = d\<lparr>sd_invalid_message := Some message\<rparr>"
| "apply_status (TxError message) d = d\<lparr>sd_error_message := Some message\<rparr>"
| "apply_status Validated d = d\<lparr>sd_validated := True\<rparr>"
| "apply_status NoLongerInBestBlock d = d\<lparr>sd_no_longer_in_best_block := True\<rparr>"

definition get_extrinsic_status ::
    "(bytes \<rightharpoonup> bytes) \<Rightarrow> 'w translation_layer_state \<Rightarrow> (tx_status_details, status_code \<times> api_response) result" where
  "get_extrinsic_status params st =
     bind_res (extract_param params ''tx_hash'') (\<lambda>tx_hash.
     case get_history (tl_tx_db st) tx_hash of
       Some status_list \<Rightarrow> Ok (fold apply_status status_list
         \<lparr>sd_validated = False, sd_no_longer_in_best_block = False, sd_broadcasted_peers = None, sd_in_best_block = None,
          sd_finalized_in_block = None, sd_dropped_message = None, sd_invalid_message = None, sd_error_message = None\<rparr>)
     | None \<Rightarrow> Err (not_found ''Transaction not found''))"

section \<open>Requested tables\<close>

text \<open>What a request asks for, in one piece; a commitment counts only with its scheme and snapshot.\<close>

definition commitment_readable :: "table_request \<Rightarrow> bool" where
  "commitment_readable r \<longleftrightarrow>
     (case (tr_commitment r, tr_commitment_scheme r, tr_snapshot_url r) of
        (Some c, Some _, Some _) \<Rightarrow> hex_decode (trim_start_matches ''0x'' c) \<noteq> None | _ \<Rightarrow> True)"

definition requested_table :: "table_request \<Rightarrow> update_table" where
  "requested_table r =
     \<lparr>ut_ident = \<lparr>ti_name = tr_table_name r, ti_namespace = tr_schema_name r\<rparr>, ut_create_statement = tr_ddl_statement r,
      ut_table_type = table_type_from_api (tr_table_type r),
      ut_commitment =
        (case (tr_commitment r, tr_commitment_scheme r, tr_snapshot_url r) of
           (Some c, Some scheme, Some snapshot) \<Rightarrow>
             (let bytes = the (hex_decode (trim_start_matches ''0x'' c)) in
              FromSnapshot snapshot (case scheme of
                  ApiHyperKzg \<Rightarrow> \<lparr>pc_hyper_kzg = Some bytes, pc_dynamic_dory = None\<rparr>
                | ApiDynamicDory \<Rightarrow> \<lparr>pc_hyper_kzg = None, pc_dynamic_dory = Some bytes\<rparr>))
         | _ \<Rightarrow> EmptyCommitment flags_all),
      ut_source = source_from_api (tr_source r)\<rparr>"

lemma add_requested_tables_iff:
  "add_requested_tables rs creator =
     (if list_all commitment_readable rs then Some (creator @ map requested_table rs) else None)"
proof (induction rs arbitrary: creator)
  case (Cons r rs)
  show ?case
    by (auto simp: Cons.IH Let_def tb_add_def table_builder_new_def requested_table_def commitment_readable_def flags_all_def
        split: option.splits api_commitment_scheme.splits)
qed simp


section \<open>Addresses of contracts\<close>

lemma length_hex_decode: "hex_decode t = Some bs \<Longrightarrow> length t = 2 * length bs"
  by (induction t arbitrary: bs rule: hex_decode.induct) (auto split: option.splits)

lemma length_trim_start_matches: "length (trim_start_matches p s) \<le> length s"
  by (induction p s rule: trim_start_matches.induct) (subst trim_start_matches.simps, auto intro: le_trans)

lemma decode_address_shorter: "decode_address e a = Ok bs \<Longrightarrow> bs \<noteq> [] \<Longrightarrow> bs \<noteq> a"
  using length_trim_start_matches[of "''0x''" a]
  by (auto simp: decode_address_def Let_def res_Ok_iff dest!: length_hex_decode split: if_splits)

fun request_fields :: "add_contract_request \<Rightarrow> contract_request" where
  "request_fields (AddNormal q) = q"
| "request_fields (AddProxy q _) = q"

lemma convert_details_key:
  "convert_details T q a = Ok d \<Longrightarrow> cd_source d = string_to_source T (cq_source q) \<and> cd_address d = a"
  by (auto simp: convert_details_def res_Ok_iff)

lemma add_contract_key:
  assumes "add_contract_try_into T req = Ok (tables, contract)"
  shows "cd_source (contract_details_of contract) = string_to_source T (cq_source (request_fields req))
    \<and> decode_address AddressTooLong (cq_address (request_fields req)) = Ok (cd_address (contract_details_of contract))"
  using assms by (cases req) (auto simp: res_Ok_iff dest!: convert_details_key)

lemma remove_smartcontract_other:
  assumes "remove_smartcontract orig src a s = Ok s'" "k \<noteq> (src, a)"
  shows "sm_get (ContractStorage s') k = sm_get (ContractStorage s) k"
  using assms
  by (auto simp: remove_smartcontract_def Let_def res_Ok_iff deposit_event_def split: option.splits
      dest!: drop_contract_tables_Ok dropped_contracts)

text \<open>
  C39. A contract added through the interface cannot be found or removed through it: it is stored under
  the decoded bytes of its address, while both other requests use the bytes of the text. After a
  contract with a non-empty address has been added, a query with the same source and the same
  address answers that there is none, and every removal with them leaves the contract where it is,
  unless something else is stored under the text itself.
\<close>

theorem added_contract_not_found:
  assumes "add_contract_try_into T req = Ok (tables, contract)" "add_smartcontract E X orig contract uts s = Ok s'"
    and "q = request_fields req" "cd_address (contract_details_of contract) \<noteq> []"
    and "\<not> sm_contains (ContractStorage s) (string_to_source T (cq_source q), cq_address q)"
    and "submitter_of st \<noteq> None" "qx_latest Q = Ok ()" "\<And>src a. qx_contract Q src a = Ok (sm_get (ContractStorage s') (src, a))"
  shows "get_smartcontract T Q [''source'' \<mapsto> cq_source q, ''address'' \<mapsto> cq_address q] st = Err (not_found ''Contract not found'')
    \<and> remove_call T \<lparr>rq_source = cq_source q, rq_address = cq_address q\<rparr> =
        SmartcontractsCall (RemoveSmartcontract (string_to_source T (cq_source q)) (cq_address q))
    \<and> (\<forall>orig s''. remove_smartcontract orig (string_to_source T (cq_source q)) (cq_address q) s' = Ok s'' \<longrightarrow>
        sm_get (ContractStorage s'') (string_to_source T (cq_source q), cd_address (contract_details_of contract)) = Some contract)"
proof -
  let ?src = "string_to_source T (cq_source q)" and ?d = "contract_details_of contract"
  have key: "cd_source ?d = ?src" "decode_address AddressTooLong (cq_address q) = Ok (cd_address ?d)"
    using add_contract_key[OF assms(1)] assms(3) by simp_all
  have ne: "cd_address ?d \<noteq> cq_address q" using decode_address_shorter[OF key(2) assms(4)] .
  have st: "ContractStorage s' = sm_insert (?src, cd_address ?d) contract (ContractStorage s)"
    using add_smartcontract_Ok[OF assms(2)] key(1) by metis
  have none: "sm_get (ContractStorage s') (?src, cq_address q) = None"
    using assms(5) ne by (simp add: st sm_contains_def)
  have "sm_get (ContractStorage s'') (?src, cd_address ?d) = Some contract"
    if "remove_smartcontract orig ?src (cq_address q) s' = Ok s''" for orig s''
    using remove_smartcontract_other[OF that, of "(?src, cd_address ?d)"] ne by (simp add: st)
  then show ?thesis
    using assms(6-8) none by (auto simp: get_smartcontract_def extract_param_def Let_def remove_call_def)
qed

section \<open>Reported outcomes\<close>

lemma scan_events_success:
  "scan_events Q (map Ok evs) = Ok r \<Longrightarrow>
     xs_success r \<longleftrightarrow> (\<forall>e. ExtrinsicFailedEvent e \<in> set evs \<longrightarrow> decode_system_module_error Q e = None)"
  by (induction evs) (auto split: extrinsic_event.splits option.splits)

lemma scan_events_total: "\<exists>r. scan_events Q (map Ok evs) = Ok r"
  by (induction evs) (auto split: extrinsic_event.split option.split)

text \<open>
  C40. The execution status of a transaction: for a transaction in the block the handler reports failure
  exactly if one of its events is a failure whose error belongs to a pallet and is known to the
  metadata. A transaction that failed for any other reason is reported as successful.
\<close>

theorem execution_status_correct:
  assumes "parse_h256_from_hex h = Ok tx_hash" "parse_h256_from_hex b = Ok block_hash" "qx_block Q block_hash = Ok (Ok extrinsics)"
    and "List.find (\<lambda>e. bx_hash e = tx_hash) extrinsics = Some ext" "bx_events ext = Ok (map Ok evs)"
  shows "\<exists>r. get_extrinsic_status_in_block Q [''tx_hash'' \<mapsto> h, ''block_hash'' \<mapsto> b] = Ok r
    \<and> (xs_success r \<longleftrightarrow> \<not> (\<exists>index error v. ExtrinsicFailedEvent (ModuleFailure index error) \<in> set evs \<and> qx_error_variant Q index error = Some v))
    \<and> (\<forall>m. evs = [ExtrinsicFailedEvent (OtherFailure m)] \<longrightarrow> xs_success r)"
proof -
  obtain r where r: "scan_events Q (map Ok evs) = Ok r" using scan_events_total by blast
  have dec: "decode_system_module_error Q e \<noteq> None \<longleftrightarrow> (\<exists>index error v. e = ModuleFailure index error \<and> qx_error_variant Q index error = Some v)" for e
    by (cases e) (auto simp: decode_system_module_error_def)
  have "xs_success r \<longleftrightarrow> \<not> (\<exists>index error v. ExtrinsicFailedEvent (ModuleFailure index error) \<in> set evs \<and> qx_error_variant Q index error = Some v)"
    using scan_events_success[OF r] dec by metis
  then show ?thesis
    using assms r by (auto simp: get_extrinsic_status_in_block_def extract_param_def)
qed

section \<open>An example\<close>

definition demo_text :: text_ext where
  "demo_text = \<lparr>tx_to_lowercase = map ascii_lower_char, tx_from_utf8_lossy = \<lambda>b. b\<rparr>"

definition demo_api_state :: "nat translation_layer_state" where
  "demo_api_state = \<lparr>tl_mainnet_submitter = Some \<lparr>ts_nonce = 3, ts_channel = True, ts_updates = [], ts_world = 12\<rparr>,
     tl_testnet_submitter = None, tl_tx_db = [], tl_network = Mainnet\<rparr>"

definition demo_contract_request :: contract_request where
  "demo_contract_request = \<lparr>cq_source = ''Ethereum'', cq_address = ''0xab12'', cq_abi = None, cq_starting_block = None,
     cq_target_schema = Some ''M'', cq_contract_name = None, cq_events = [], cq_ddl_statement = Some ''s'', cq_tables = []\<rparr>"

definition demo_added_contract :: contract where
  "demo_added_contract = Normal \<lparr>cd_source = Ethereum, cd_address = [CHR 0xAB, CHR 0x12], cd_abi = None, cd_starting_block = None,
     cd_target_schema = Some ''M'', cd_contract_name = None, cd_event_details = None, cd_ddl_statement = Some ''s''\<rparr>"

lemma demo_contract_converted: "add_contract_try_into demo_text (AddNormal demo_contract_request) = Ok ([], demo_added_contract)"
proof -
  have "decode_address AddressTooLong ''0xab12'' = Ok [CHR 0xAB, CHR 0x12]" "string_to_source demo_text ''Ethereum'' = Ethereum"
    by code_simp+
  then show ?thesis
    by (simp add: demo_contract_request_def demo_added_contract_def convert_details_def bounded_text_def CREATE_STMNT_LENGTH_def
        convert_event_details_to_chain_def)
qed

lemma demo_contract_added: "is_ok (add_smartcontract demo_ext demo_sql Root demo_added_contract [] demo_contract_state)"
proof -
  have u: "utf8_valid ''s''" "utf8_valid ''M''" "extract_schema_uuid ''s'' = None" by code_simp+
  have g: "generate_namespace_uuid demo_sql 1 ''M'' \<noteq> None"
    using generate_uuid_cases[of demo_sql "show_nat 1 @ ''M''"] by (auto simp: generate_namespace_uuid_def split: option.splits)
  have ns: "is_ok (create_namespace demo_sql Root ''M'' 0 ''s'' SCI src s)"
    if "block_number s = 1" "\<not> sm_contains (NamespaceVersions s) (''M'', 0)" for src and s :: "'a tables_state_scheme"
    using that g by (auto simp: create_namespace_def from_utf8_def u insert_namespace_uuid_def)
  have parts: "block_number demo_contract_state = 1" "\<not> sm_contains (NamespaceVersions demo_contract_state) (''M'', 0)"
    "\<not> sm_contains (ContractStorage demo_contract_state) (Ethereum, [CHR 0xAB, CHR 0x12])"
    by (simp_all add: demo_contract_defs sm_contains_def sm_get_def)
  define s1 where "s1 = demo_contract_state\<lparr>ContractStorage := sm_insert (Ethereum, [CHR 0xAB, CHR 0x12]) demo_added_contract (ContractStorage demo_contract_state),
    ContractTables := sm_insert (Ethereum, [CHR 0xAB, CHR 0x12]) [] (ContractTables demo_contract_state)\<rparr>"
  obtain s2 where "create_namespace demo_sql Root ''M'' 0 ''s'' SCI Ethereum s1 = Ok s2"
    using ns[of s1] parts by (auto simp: is_ok_iff s1_def)
  then show ?thesis
    using parts(3) by (simp add: add_smartcontract_def demo_added_contract_def Let_def bounded_try_from_def s1_def create_tables_inner_def)
qed

theorem added_contract_not_found_witness:
  "\<exists>s'. add_smartcontract demo_ext demo_sql Root demo_added_contract [] demo_contract_state = Ok s'
     \<and> get_smartcontract demo_text \<lparr>qx_latest = Ok (), qx_contract = \<lambda>src a. Ok (sm_get (ContractStorage s') (src, a)),
           qx_contracts = \<lambda>_. Ok [], qx_block = \<lambda>_. Err [], qx_error_variant = \<lambda>_ _. None\<rparr>
         [''source'' \<mapsto> ''Ethereum'', ''address'' \<mapsto> ''0xab12''] demo_api_state = Err (not_found ''Contract not found'')"
proof -
  obtain s' where run: "add_smartcontract demo_ext demo_sql Root demo_added_contract [] demo_contract_state = Ok s'"
    using demo_contract_added by (auto simp: is_ok_iff)
  have src: "string_to_source demo_text ''Ethereum'' = Ethereum" by code_simp
  have "\<not> sm_contains (ContractStorage demo_contract_state) (Ethereum, ''0xab12'')"
    by (simp add: demo_contract_defs sm_contains_def sm_get_def)
  from added_contract_not_found[OF demo_contract_converted run refl, of demo_api_state "\<lparr>qx_latest = Ok (), qx_contract = \<lambda>src a. Ok (sm_get (ContractStorage s') (src, a)),
           qx_contracts = \<lambda>_. Ok [], qx_block = \<lambda>_. Err [], qx_error_variant = \<lambda>_ _. None\<rparr>"] this
  show ?thesis
    using run by (auto simp: demo_contract_request_def demo_added_contract_def src demo_api_state_def submitter_of_def)
qed


theorem execution_status_correct_witness:
  "\<exists>r. get_extrinsic_status_in_block
       \<lparr>qx_latest = Ok (), qx_contract = \<lambda>_ _. Ok None, qx_contracts = \<lambda>_. Ok [],
        qx_block = \<lambda>_. Ok (Ok [\<lparr>bx_hash = replicate 32 (CHR 0x11), bx_events = Ok [Ok (ExtrinsicFailedEvent (OtherFailure ''BadOrigin''))]\<rparr>]),
        qx_error_variant = \<lambda>_ _. Some (''e'', [])\<rparr>
       [''tx_hash'' \<mapsto> replicate 64 (CHR ''1''), ''block_hash'' \<mapsto> replicate 64 (CHR ''2'')] = Ok r \<and> xs_success r"
proof -
  have p: "parse_h256_from_hex (replicate 64 (CHR ''1'')) = Ok (replicate 32 (CHR 0x11))"
    "parse_h256_from_hex (replicate 64 (CHR ''2'')) = Ok (replicate 32 (CHR 0x22))" by code_simp+
  show ?thesis
    by (insert execution_status_correct[OF p, of "\<lparr>qx_latest = Ok (), qx_contract = \<lambda>_ _. Ok None, qx_contracts = \<lambda>_. Ok [],
        qx_block = \<lambda>_. Ok (Ok [\<lparr>bx_hash = replicate 32 (CHR 0x11), bx_events = Ok [Ok (ExtrinsicFailedEvent (OtherFailure ''BadOrigin''))]\<rparr>]),
        qx_error_variant = \<lambda>_ _. Some (''e'', [])\<rparr>" _ _ "[ExtrinsicFailedEvent (OtherFailure ''BadOrigin'')]"]) simp
qed

end
