(* ===== verification/Watcher.thy ===== *)
theory Watcher
  imports Tx_Submitter
begin

text \<open>
  The attestor program \<open>watcher\<close>: for every finalised block it fetches the attested storage, builds the
  attestation tree, signs its root and sends the attestation; it prints the details of a registration
  and verifies the attestations recorded for a block. Files, the curve keys and the connection are
  parameters; the terminal is left out.
\<close>

section \<open>Fetching the attested storage\<close>

text \<open>\<open>watcher/src/attestation/fetch.rs\<close>: raw storage below a prefix, and under a key, at a block.\<close>

record fetch_ext =
  fx_descendant_values :: "bytes \<Rightarrow> bytes \<Rightarrow> ((bytes \<times> bytes) list, bytes) result"
  fx_value :: "bytes \<Rightarrow> bytes \<Rightarrow> (bytes option, bytes) result"

datatype fetch_error =
  LocksStorageIteration bytes | CommitmentStorageIteration bytes | StakingContractFetch bytes | NoStakingContract

text \<open>
  \<open>try_join!\<close> runs its futures together and stops at the first failure. \<open>finish\<close> gives the moments at which
  the futures end, which decide whose failure is reported when several fail.
\<close>

definition try_join3 ::
    "(nat \<Rightarrow> nat) \<Rightarrow> ('a, 'e) result \<Rightarrow> ('b, 'e) result \<Rightarrow> ('c, 'e) result \<Rightarrow> ('a \<times> 'b \<times> 'c, 'e) result" where
  "try_join3 finish a b c =
     (let outcomes = [(finish 0, map_ok (\<lambda>_. ()) a), (finish 1, map_ok (\<lambda>_. ()) b), (finish 2, map_ok (\<lambda>_. ()) c)] in
      bind_res (case List.find (\<lambda>r. \<not> is_ok r) (map snd (sort_key fst outcomes)) of Some r \<Rightarrow> r | None \<Rightarrow> Ok ()) (\<lambda>_.
      bind_res a (\<lambda>x. bind_res b (\<lambda>y. map_ok (\<lambda>z. (x, y, z)) c))))"

definition commitments_and_locks_and_staking_contract_info ::
    "fetch_ext \<Rightarrow> storage_ext \<Rightarrow> bytes \<Rightarrow> (nat \<Rightarrow> nat) \<Rightarrow> bytes
     \<Rightarrow> ((bytes \<times> bytes) list \<times> (bytes \<times> bytes) list \<times> bytes, fetch_error) result" where
  "commitments_and_locks_and_staking_contract_info FX L staking_contract_prefix finish block_hash =
     try_join3 finish
       (map_err CommitmentStorageIteration (fx_descendant_values FX (pf_prefix_hash (commitment_map_prefix_foliate L)) block_hash))
       (map_err LocksStorageIteration (fx_descendant_values FX (pf_prefix_hash (locks_staking_prefix_foliate L)) block_hash))
       (bind_res (map_err StakingContractFetch (fx_value FX staking_contract_prefix block_hash)) (\<lambda>maybe_staking_contract.
          ok_or maybe_staking_contract NoStakingContract))"

lemma try_join3_Ok: "try_join3 finish a b c = Ok (x, y, z) \<longleftrightarrow> a = Ok x \<and> b = Ok y \<and> c = Ok z"
proof (cases "is_ok a \<and> is_ok b \<and> is_ok c")
  case True
  then obtain x' y' z' where abc: "a = Ok x'" "b = Ok y'" "c = Ok z'" by (auto simp: is_ok_iff)
  define l where "l = sort_key fst [(finish 0, Ok () :: (unit, 'e) result), (finish 1, Ok ()), (finish 2, Ok ())]"
  have "\<forall>r \<in> set (map snd l). r = Ok ()" by (auto simp: l_def)
  then have "List.find (\<lambda>r. \<not> is_ok r) (map snd l) = None" by (auto simp: find_None_iff)
  then show ?thesis by (simp add: try_join3_def abc l_def)
qed (auto simp: try_join3_def Let_def res_Ok_iff)

section \<open>Keys\<close>

text \<open>
  The file system, and the keys: a signing key as bytes and the compressed point of its verifying key;
  an sr25519 key pair and its account.
\<close>

record ('p, 'q) key_ext =
  ky_read_file :: "bytes \<Rightarrow> (bytes, bytes) result"
  ky_trim :: "bytes \<Rightarrow> bytes"
  ky_to_bytes :: "'p \<Rightarrow> bytes"
  ky_sec1_bytes :: "'p \<Rightarrow> bytes"
  ky_keypair_from_secret_key :: "bytes \<Rightarrow> 'q option"
  ky_account_id :: "'q \<Rightarrow> account_id"

datatype watcher_error =
    FileReadError bytes | WatcherInvalidKeyLength | WatcherKeypairCreationError | SigningKeyParseError | SubxtError bytes
  | AttestationCreationError | AccountIdError | HexDecodeError | SxtCoreAttestationError eth_attestation_error
  | TransactionFailed bytes | EthereumHexDecodeError | BlockHashNotFoundError | ErrorFetchingAttestations u32
  | InvalidSignature u32 | StateRootMismatch | FetchFailed fetch_error | TxSubmitterError translation_error

text \<open>\<open>GenericArray::from_slice\<close> panics unless it gets 32 bytes.\<close>

definition load_ethereum_key ::
    "('g, 'k, 'p) crypto_ext \<Rightarrow> ('p, 'q) key_ext \<Rightarrow> bytes \<Rightarrow> ('p, watcher_error) result" where
  "load_ethereum_key X KY path =
     bind_res (map_err FileReadError (ky_read_file KY path)) (\<lambda>hex_string.
     bind_res (ok_or (hex_decode (ky_trim KY hex_string)) EthereumHexDecodeError) (\<lambda>key_bytes.
     if length key_bytes \<noteq> 32 then Panic else ok_or (cx_signing_key X key_bytes) SigningKeyParseError))"

definition load_substrate_key :: "('p, 'q) key_ext \<Rightarrow> bytes \<Rightarrow> ('q, watcher_error) result" where
  "load_substrate_key KY file_path =
     bind_res (map_err FileReadError (ky_read_file KY file_path)) (\<lambda>hex_string.
     bind_res (ok_or (hex_decode (ky_trim KY hex_string)) HexDecodeError) (\<lambda>key_bytes.
     bind_res (ensure (length key_bytes = 32) WatcherInvalidKeyLength) (\<lambda>_.
     ok_or (ky_keypair_from_secret_key KY key_bytes) WatcherKeypairCreationError)))"

definition get_proposed_pub_key :: "('p, 'q) key_ext \<Rightarrow> 'p \<Rightarrow> (bytes, watcher_error) result" where
  "get_proposed_pub_key KY private_key =
     (let pub_key = ky_sec1_bytes KY private_key in
      if length pub_key = 33 then Ok pub_key else Err SigningKeyParseError)"

definition generate_signature ::
    "('g, 'k, 'p) crypto_ext \<Rightarrow> ('p, 'q) key_ext \<Rightarrow> 'p \<Rightarrow> bytes \<Rightarrow> (ethereum_signature, watcher_error) result" where
  "generate_signature X KY private_key message =
     map_err (\<lambda>_. AttestationCreationError) (sign_eth_message X (ky_to_bytes KY private_key) message)"

text \<open>\<open>register\<close>: what it prints is the account and the registration.\<close>

definition register ::
    "('g, 'k, 'p) crypto_ext \<Rightarrow> ('p, 'q) key_ext \<Rightarrow> bytes \<Rightarrow> bytes
     \<Rightarrow> (account_id \<times> register_external_address, watcher_error) result" where
  "register X KY eth_key_path substrate_key_path =
     bind_res (load_ethereum_key X KY eth_key_path) (\<lambda>eth_signing_key.
     bind_res (load_substrate_key KY substrate_key_path) (\<lambda>substrate_key.
     let account_id = ky_account_id KY substrate_key in
     bind_res (map_err SxtCoreAttestationError
       (create_ethereum_attestation_registration X account_id (ky_to_bytes KY eth_signing_key) (ky_sec1_bytes KY eth_signing_key)))
       (\<lambda>registration. Ok (account_id, registration))))"

section \<open>Attesting blocks\<close>

record sxt_block =
  sb_hash :: bytes
  sb_header :: block_header

definition create_attestation ::
    "('g, 'k, 'p) crypto_ext \<Rightarrow> ('p, 'q) key_ext \<Rightarrow> block_header \<Rightarrow> 'p \<Rightarrow> ethereum_signature \<Rightarrow> bytes
     \<Rightarrow> (attestation, watcher_error) result" where
  "create_attestation X KY header private_key signature state_root =
     bind_res (get_proposed_pub_key KY private_key) (\<lambda>proposed_pub_key.
     bind_res (map_err SxtCoreAttestationError (uncompressed_public_key_to_address X proposed_pub_key)) (\<lambda>address20.
     Ok \<lparr>at_signature = signature, at_proposed_pub_key = proposed_pub_key, at_address20 = address20,
         at_state_root = state_root, at_block_number = hd_number header, at_block_hash = hd_hash header\<rparr>))"

definition MORTALITY :: u64 where "MORTALITY = 32"

definition submit_transaction_with_retry ::
    "('g, 'k, 'p) crypto_ext \<Rightarrow> ('p, 'q) key_ext \<Rightarrow> (runtime_call, 'w) node_ext \<Rightarrow> sxt_block \<Rightarrow> 'p \<Rightarrow> ethereum_signature
     \<Rightarrow> bytes \<Rightarrow> 'w tx_submitter \<Rightarrow> (unit, watcher_error) result \<times> 'w tx_submitter" where
  "submit_transaction_with_retry X KY N block private_key signature state_root ts =
     (let header = sb_header block in
      bind_st (create_attestation X KY header private_key signature state_root, ts) (\<lambda>attestation ts.
      let tx = AttestationsCall (AttestBlockCall (hd_number header) attestation) in
      case submit_tx_get_hash_with_mortality N tx header MORTALITY ts of
        (Ok tx_hash, ts) \<Rightarrow> (Ok (), ts)
      | (Err err, ts) \<Rightarrow> (Err (TransactionFailed (translation_error_display err)), ts)
      | (Panic, ts) \<Rightarrow> (Panic, ts)))"

text \<open>Errors are logged and end the processing of the block.\<close>

definition logged :: "('a, 'e) result \<times> 's \<Rightarrow> ('a \<Rightarrow> 's \<Rightarrow> (unit, unit) result \<times> 's) \<Rightarrow> (unit, unit) result \<times> 's" where
  "logged rs f = (case rs of (Ok x, s) \<Rightarrow> f x s | (Err e, s) \<Rightarrow> (Ok (), s) | (Panic, s) \<Rightarrow> (Panic, s))"

lemma logged_simps [simp]:
  "logged (Ok x, s) f = f x s" "logged (Err e, s) f = (Ok (), s)" "logged (Panic, s) f = (Panic, s)"
  by (simp_all add: logged_def)

definition process_block ::
    "('g, 'k, 'p) crypto_ext \<Rightarrow> ('p, 'q) key_ext \<Rightarrow> 't merkle_ext \<Rightarrow> storage_ext \<Rightarrow> fetch_ext \<Rightarrow> bytes \<Rightarrow> (nat \<Rightarrow> nat)
     \<Rightarrow> (runtime_call, 'w) node_ext \<Rightarrow> (sxt_block, bytes) result \<Rightarrow> 'p \<Rightarrow> 'w tx_submitter
     \<Rightarrow> (unit, unit) result \<times> 'w tx_submitter" where
  "process_block X KY MT L FX staking_contract_prefix finish N block_result private_key ts =
     logged (block_result, ts) (\<lambda>block ts.
     logged (commitments_and_locks_and_staking_contract_info FX L staking_contract_prefix finish (sb_hash block), ts)
       (\<lambda>(commitments, locks, contract_info) ts.
     logged (attestation_tree_from_prefixes MT L commitments locks contract_info, ts) (\<lambda>tree ts.
     logged (ok_or (mx_root MT tree) (), ts) (\<lambda>state_root ts.
     logged (unwrap_opt (hex_decode state_root) :: (bytes, unit) result, ts) (\<lambda>hex_decoded_state_root ts.
     let message = create_attestation_message hex_decoded_state_root (ucast (hd_number (sb_header block))) in
     logged (generate_signature X KY private_key message, ts) (\<lambda>signature ts.
     logged (submit_transaction_with_retry X KY N block private_key signature hex_decoded_state_root ts) (\<lambda>_ ts.
     (Ok (), ts))))))))"

section \<open>Watching the submitted transactions\<close>

text \<open>What awaiting the next status for 30 seconds gives: an item of the stream, its end, or a timeout.\<close>

datatype progress_event = ProgressItem "(tx_status, bytes) result" | ProgressEnded | ProgressTimeout

text \<open>Whether the task that follows one transaction asks for a restart; without an event it is still waiting.\<close>

fun asks_restart :: "progress_event list \<Rightarrow> bool" where
  "asks_restart [] = False"
| "asks_restart (e # es) =
     (case e of
        ProgressItem (Ok (InFinalizedBlock _)) \<Rightarrow> False
      | ProgressItem (Ok (Dropped _)) \<Rightarrow> True
      | ProgressItem (Ok (Invalid _)) \<Rightarrow> True
      | ProgressItem (Ok _) \<Rightarrow> asks_restart es
      | ProgressItem _ \<Rightarrow> False
      | ProgressEnded \<Rightarrow> True
      | ProgressTimeout \<Rightarrow> True)"

text \<open>The updates for which a task is started: the loop ends with the first update that has no block number.\<close>

definition spawn_tx_progress_logger :: "(bytes \<times> u64 option) list \<Rightarrow> (bytes \<times> u64) list" where
  "spawn_tx_progress_logger updates = map (\<lambda>(h, b). (h, the b)) (takeWhile (\<lambda>(_, b). b \<noteq> None) updates)"

section \<open>Verifying recorded attestations\<close>

definition to_le_bytes :: "nat \<Rightarrow> nat \<Rightarrow> bytes" where
  "to_le_bytes n v = rev (to_be_bytes n v)"

definition create_message :: "bytes \<Rightarrow> u32 \<Rightarrow> bytes" where
  "create_message state_root number = state_root @ to_le_bytes 4 (unat number)"

definition verify_signature ::
    "('g, 'k, 'p) crypto_ext \<Rightarrow> bytes \<Rightarrow> ethereum_signature \<Rightarrow> bytes \<Rightarrow> (unit, watcher_error) result" where
  "verify_signature X msg signature proposed_pub_key =
     map_err SxtCoreAttestationError (verify_eth_signature X msg signature proposed_pub_key)"

fun verify_attestations_from ::
    "('g, 'k, 'p) crypto_ext \<Rightarrow> bytes option \<Rightarrow> attestation list \<Rightarrow> (unit, watcher_error) result" where
  "verify_attestations_from X first_state_root [] = Ok ()"
| "verify_attestations_from X first_state_root (att # atts) =
     (let msg = create_message (at_state_root att) (at_block_number att) in
     bind_res (verify_signature X msg (at_signature att) (at_proposed_pub_key att)) (\<lambda>_.
     case first_state_root of
       Some first_root \<Rightarrow>
         if first_root \<noteq> at_state_root att then Err StateRootMismatch
         else verify_attestations_from X first_state_root atts
     | None \<Rightarrow> verify_attestations_from X (Some (at_state_root att)) atts))"

definition verify_attestations ::
    "('g, 'k, 'p) crypto_ext \<Rightarrow> attestation list \<Rightarrow> (unit, watcher_error) result" where
  "verify_attestations X attestations = verify_attestations_from X None attestations"

text \<open>What \<open>verify\<close> shows for the attestations stored for a block.\<close>

datatype verify_report = NoAttestationsFound | SuccessfullyVerified | VerificationError watcher_error

definition verify_block ::
    "('g, 'k, 'p) crypto_ext \<Rightarrow> attestation list option \<Rightarrow> (verify_report, watcher_error) result" where
  "verify_block X stored_attestations =
     (case stored_attestations of
        None \<Rightarrow> Ok NoAttestationsFound
      | Some attestations \<Rightarrow>
          if attestations = [] then Ok NoAttestationsFound
          else (case verify_attestations X attestations of
                  Ok _ \<Rightarrow> Ok SuccessfullyVerified | Err err \<Rightarrow> Ok (VerificationError err) | Panic \<Rightarrow> Panic))"

section \<open>The attestation that reaches the chain\<close>

text \<open>
  What the key crates document: a signing key is read back from its 32 bytes and the verifying key from
  the 33 bytes of its compressed point; signing succeeds, and both scalars have 32 bytes.
\<close>

definition key_laws :: "('g, 'k, 'p) crypto_ext \<Rightarrow> ('p, 'q) key_ext \<Rightarrow> ('p \<Rightarrow> 'k) \<Rightarrow> bool" where
  "key_laws X KY pk \<longleftrightarrow> ecdsa_recoverable X pk
     \<and> (\<forall>sk. length (ky_to_bytes KY sk) = 32 \<and> cx_signing_key X (ky_to_bytes KY sk) = Some sk
         \<and> length (ky_sec1_bytes KY sk) = 33 \<and> cx_from_sec1_bytes X (ky_sec1_bytes KY sk) = Some (pk sk))
     \<and> (\<forall>sk d. \<exists>g v. cx_sign_digest_recoverable X sk d = Some (g, v) \<and> length (cx_sig_r X g) = 32 \<and> length (cx_sig_s X g) = 32)"

lemma key_laws_sign:
  assumes "key_laws X KY pk"
  obtains sig where "sign_eth_message X (ky_to_bytes KY sk) msg = Ok sig"
    "verify_eth_signature X msg sig (ky_sec1_bytes KY sk) = Ok ()"
proof -
  obtain g v where g: "cx_sign_digest_recoverable X sk (hash_eth_msg X msg) = Some (g, v)"
    "length (cx_sig_r X g) = 32" "length (cx_sig_s X g) = 32"
    using assms unfolding key_laws_def by metis
  have k: "length (ky_to_bytes KY sk) = 32" "cx_signing_key X (ky_to_bytes KY sk) = Some sk"
    "cx_from_sec1_bytes X (ky_sec1_bytes KY sk) = Some (pk sk)" "ecdsa_recoverable X pk"
    using assms unfolding key_laws_def by blast+
  have s: "sign_eth_message X (ky_to_bytes KY sk) msg = Ok (ethereum_signature_new (cx_sig_r X g) (cx_sig_s X g) (Some v))"
    using g k by (simp add: sign_eth_message_def Let_def slice_to_scalar_def)
  then show thesis using that sign_verify[OF k(4) s k(2,3)] by blast
qed

text \<open>The conditions under which the chain takes an attestation of a block by an account.\<close>

definition may_attest :: "'a attestation_state_scheme \<Rightarrow> account_id \<Rightarrow> bytes \<Rightarrow> u32 \<Rightarrow> bool" where
  "may_attest s who pub b \<longleftrightarrow> b < block_number s \<and> has_permissions s who (AttestationPallet AttestBlock)
     \<and> (\<exists>key. registered_key s who = Some key \<and> ek_pub_key key = pub)
     \<and> pub \<notin> at_proposed_pub_key ` set (sm_get_or [] (Attestations s) b)
     \<and> length (sm_get_or [] (Attestations s) b) < MAX_ATTESTATIONS"


section \<open>Verification by the watcher\<close>

lemma create_message_differs: "create_message root b \<noteq> create_attestation_message root' (ucast b')" if "length root = length root'"
proof
  assume "create_message root b = create_attestation_message root' (ucast b')"
  then have "length (create_message root b) = length (create_attestation_message root' (ucast b'))" by simp
  with that show False by (simp add: create_message_def create_attestation_message_def to_le_bytes_def)
qed

text \<open>A signature that verifies for one message under a key does not verify for another one.\<close>

definition signatures_bind :: "('g, 'k, 'p) crypto_ext \<Rightarrow> bool" where
  "signatures_bind X \<longleftrightarrow> (\<forall>m m' sig pub. verify_eth_signature X m sig pub = Ok () \<and> verify_eth_signature X m' sig pub = Ok () \<longrightarrow> m = m')"

text \<open>
  C38. The \<open>verify\<close> command fails for every block that has attestations. It checks the signatures against
  the state root followed by four bytes of the block number, least significant first, while what
  attestors sign and the chain checks ends in eight bytes, most significant first. Where signatures
  bind their messages no attestation the chain accepted passes, and the report is always an error.
\<close>

theorem verify_rejects_recorded:
  assumes "signatures_bind X" "attestation_inv X s" "sm_get (Attestations s) b = Some atts" "atts \<noteq> []"
  shows "\<exists>e. verify_block X (Some atts) = Ok (VerificationError (SxtCoreAttestationError e))"
proof -
  obtain att rest where atts: "atts = att # rest" using assms(4) by (cases atts) auto
  have "block_attestations_ok X b atts" using assms(2,3) by (auto simp: attestation_inv_def sm_get_or_def split: option.splits)
  then have v: "verify_eth_signature X (create_attestation_message (at_state_root att) (ucast b)) (at_signature att) (at_proposed_pub_key att) = Ok ()"
    "at_block_number att = b" by (auto simp: block_attestations_ok_def attestation_valid_def atts)
  have "verify_eth_signature X (create_message (at_state_root att) b) (at_signature att) (at_proposed_pub_key att) \<noteq> Ok ()"
    using assms(1) v(1) create_message_differs[OF refl] unfolding signatures_bind_def by metis
  then obtain e where "verify_eth_signature X (create_message (at_state_root att) b) (at_signature att) (at_proposed_pub_key att) = Err e"
    by (cases "verify_eth_signature X (create_message (at_state_root att) b) (at_signature att) (at_proposed_pub_key att)") auto
  then show ?thesis
    by (simp add: verify_block_def verify_attestations_def atts Let_def v(2) verify_signature_def)
qed

section \<open>Examples\<close>

text \<open>A single key whose signatures carry nothing.\<close>

definition demo_single_key :: "(unit, unit, unit) crypto_ext" where
  "demo_single_key =
     \<lparr>cx_from_scalars = (\<lambda>r s. Some ()), cx_recovery_id = Some, cx_recover_from_digest = (\<lambda>d g v. Some ()),
      cx_from_sec1_bytes = (\<lambda>b. Some ()), cx_uncompressed_point = (\<lambda>k. replicate 65 (CHR 0x04)),
      cx_keccak256 = (\<lambda>m. replicate 32 (CHR 0x00)), cx_signing_key = (\<lambda>b. Some ()),
      cx_sign_digest_recoverable = (\<lambda>sk d. Some ((), 0)),
      cx_sig_r = (\<lambda>g. replicate 32 (CHR 0x00)), cx_sig_s = (\<lambda>g. replicate 32 (CHR 0x00))\<rparr>"

definition demo_keys :: "(unit, unit) key_ext" where
  "demo_keys = \<lparr>ky_read_file = Ok, ky_trim = \<lambda>s. s, ky_to_bytes = \<lambda>_. replicate 32 (CHR ''k''),
     ky_sec1_bytes = \<lambda>_. replicate 33 (CHR 0x02), ky_keypair_from_secret_key = \<lambda>_. Some (), ky_account_id = \<lambda>_. ''v''\<rparr>"

lemma demo_key_laws: "key_laws demo_single_key demo_keys (\<lambda>_. ())"
  by (simp add: key_laws_def demo_single_key_def demo_keys_def ecdsa_recoverable_def)

definition demo_fetch :: fetch_ext where
  "demo_fetch = \<lparr>fx_descendant_values = \<lambda>_ _. Ok [], fx_value = \<lambda>_ _. Ok (Some ''i'')\<rparr>"

definition demo_watched :: attestation_state where
  "demo_watched = demo_attestation_state\<lparr>Keys := [(''v'', \<lparr>us_eth_key = Some \<lparr>ek_pub_key = replicate 33 (CHR 0x02), ek_address20 = []\<rparr>\<rparr>)]\<rparr>"


text \<open>Signatures that are the digest they sign, and a hash without collisions.\<close>

definition demo_binding :: "(bytes, unit, unit) crypto_ext" where
  "demo_binding =
     \<lparr>cx_from_scalars = (\<lambda>r s. Some r), cx_recovery_id = Some, cx_recover_from_digest = (\<lambda>d g v. if g = d then Some () else None),
      cx_from_sec1_bytes = (\<lambda>b. Some ()), cx_uncompressed_point = (\<lambda>k. []), cx_keccak256 = (\<lambda>m. m),
      cx_signing_key = (\<lambda>b. Some ()), cx_sign_digest_recoverable = (\<lambda>sk d. Some (d, 0)), cx_sig_r = (\<lambda>g. g), cx_sig_s = (\<lambda>g. g)\<rparr>"

lemma length_show_nat_mono: "m \<le> n \<Longrightarrow> length (show_nat m) \<le> length (show_nat n)"
proof (induction n arbitrary: m rule: show_nat.induct)
  case (1 n)
  show ?case
  proof (cases "m < 10")
    case True
    then show ?thesis by (subst (1 2) show_nat.simps) simp
  next
    case False
    then show ?thesis
      using 1 by (subst (1 2) show_nat.simps) (auto simp: div_le_mono)
  qed
qed

lemma hash_prefix_inj: "show_nat (length m) @ m = show_nat (length m') @ m' \<Longrightarrow> m = m'"
proof -
  assume eq: "show_nat (length m) @ m = show_nat (length m') @ m'"
  then have "length (show_nat (length m)) + length m = length (show_nat (length m')) + length m'"
    by (metis length_append)
  then have "length m = length m'"
    using length_show_nat_mono[of "length m" "length m'"] length_show_nat_mono[of "length m'" "length m"] by linarith
  with eq show "m = m'" by simp
qed

lemma demo_signatures_bind: "signatures_bind demo_binding"
  by (auto simp: signatures_bind_def verify_eth_signature_Ok demo_binding_def hash_eth_msg_def Let_def split: if_splits
      dest: hash_prefix_inj)

definition demo_recorded :: attestation where
  "demo_recorded = \<lparr>at_signature = \<lparr>es_r = hash_eth_msg demo_binding (create_attestation_message ''root'' 9), es_s = [], es_v = 0\<rparr>,
     at_proposed_pub_key = ''k'', at_address20 = [], at_state_root = ''root'', at_block_number = 9, at_block_hash = ''b''\<rparr>"

theorem verify_rejects_recorded_witness:
  "\<exists>e. verify_block demo_binding (Some [demo_recorded]) = Ok (VerificationError (SxtCoreAttestationError e))"
proof (rule verify_rejects_recorded[OF demo_signatures_bind, of "demo_attestation_state\<lparr>Attestations := [(9, [demo_recorded])]\<rparr>" 9])
  have "verify_eth_signature demo_binding (create_attestation_message ''root'' 9) (at_signature demo_recorded) ''k'' = Ok ()"
    by (simp add: verify_eth_signature_def demo_binding_def demo_recorded_def)
  then have "attestation_valid demo_binding 9 demo_recorded" by (simp add: attestation_valid_def demo_recorded_def)
  then show "attestation_inv demo_binding (demo_attestation_state\<lparr>Attestations := [(9, [demo_recorded])]\<rparr>)"
    by (auto simp: attestation_inv_def block_attestations_ok_def sm_get_or_def sm_get_def MAX_ATTESTATIONS_def sm_wf_def)
qed (simp_all add: sm_get_def)

end
