(* ===== verification/Spec2Isabelle.thy ===== *)
theory Spec2Isabelle
  imports Translation_Layer Watcher
begin

text \<open>
  \<^bold>\<open>A verification library for the SxT node\<close>

  The program is a Substrate blockchain that keeps tables of indexed data together with
  cryptographic commitments to them. Accounts with permissions submit rows for tables; once enough
  of them agree on a batch it is decided, numbered, and added to the commitments of its table;
  rows of some system tables are staking requests from Ethereum, which the chain carries out.
  Attestors sign a Merkle root over commitments and staked balances, block by block, and clients
  get commitments, proofs and query plans over RPC. The programs beside the chain send it their
  transactions through one submitter.

  \<^bold>\<open>How the code is translated.\<close> A Rust function is a HOL function of the same name. Structs are
  records, enumerations datatypes, machine integers words of their width, bytes and strings lists of
  characters, a storage map an association list read and written like the map of Substrate. A
  fallible function returns a \<open>result\<close>: \<open>Ok\<close>, \<open>Err\<close> with the error of the code, or \<open>Panic\<close> for an
  \<open>unwrap\<close>, \<open>expect\<close> or slice that fails. The storage of the chain is one record which each pallet
  extends by its items, so that a pallet's functions run on the state of every pallet built on it. An
  extrinsic that fails leaves the state as it was (\<open>run_extrinsics\<close> in \<open>Sxt_Frame\<close>), as dispatch in a
  transaction does. Code of other crates is an argument: records whose names end in \<open>_ext\<close> hold its
  functions (curve arithmetic and hashes, SCALE and bincode codecs, the SQL parser, the planner and
  the commitment schemes of Proof of SQL, balances, staking and session, the Merkle tree, the client
  of the node), and what the code relies on is stated as named laws, each of them shown to be
  satisfiable by the concrete instance that the witnesses use (definitions that start with \<open>demo\<close>).

  \<^bold>\<open>Theories.\<close>

  \<^item> \<open>Sxt_Prelude\<close>: results, UTF-8 and strings, bounded vectors, storage maps, ordered sets, saturating
    arithmetic, bytes of integers; \<open>Sxt_Utils\<close> (\<open>sxt-core/src/utils.rs\<close>): hexadecimal text and accounts.
  \<^item> \<open>Sxt_Core_Types\<close> (\<open>sxt-core\<close>): identifiers, sources, quorum sizes, submitters by scope, permissions,
    keys, attestations, contracts.
  \<^item> \<open>Commitment_Map\<close> (\<open>proof-of-sql/commitment-map\<close>): schemes, data per scheme, the operations of a
    commitment map and both its implementations. The on-chain storage refines the abstract map, the map in
    memory simulates the storage; both implement one interface, a locale.
  \<^item> \<open>On_Chain_Table\<close> (\<open>proof-of-sql/on-chain-table\<close>): columns, tables, scalars, conversion to and from
    arrow, with well-formedness and round trips.
  \<^item> \<open>Commitment_Sql\<close> (\<open>proof-of-sql/commitment-sql\<close>): validation of table definitions, the row number
    column, and what creation, snapshots and inserts do to commitments; row numbers are consecutive.
  \<^item> \<open>Sxt_Frame\<close>: errors, events, requests, origins, the event log, execution of extrinsics; the locales
    for pallets that keep an invariant and pallets that are guarded by permissions, interpreted on the
    dispatch function of each pallet.
  \<^item> \<open>Pallet_Permissions\<close>, \<open>Eth_Attestation\<close> (\<open>sxt-core/src/attestation.rs\<close>), \<open>Pallet_Keystore\<close>,
    \<open>Pallet_Attestation\<close>: who may do what, registered Ethereum keys, attestations of blocks. Registered
    keys were proved, recorded attestations carry valid signatures, a registration made by a client is
    accepted.
  \<^item> \<open>Pallet_Commitments\<close> with the host functions of \<open>native/src/sxt.rs\<close>: the commitments of all schemes of
    a table agree on rows and columns after creation and every insert.
  \<^item> \<open>Sql_Statements\<close> (\<open>sxt-core/src/tables.rs\<close>), \<open>Pallet_Tables\<close>: statements and their UUIDs; creation and
    removal of namespaces and tables, with the invariant that ties schemas, identifiers and quorums.
  \<^item> \<open>Pallet_System_Tables\<close>: parsing of staking rows, what each request does to balances and staking,
    messages with nonces.
  \<^item> \<open>Pallet_Indexing\<close>: submissions, quorums, and the batch that a quorum decides, through to the
    commitments and system tables.
  \<^item> \<open>Pallet_Smartcontracts\<close>, \<open>Pallet_Rewards\<close>, \<open>Pallet_System_Contracts\<close>: indexed contracts with their
    tables, the payout of eras at most \<open>MaxPayoutsPerBlock\<close> at a time, the contracts on Ethereum.
  \<^item> \<open>Attestation_Tree\<close> (\<open>attestation_tree\<close>): the leaves of the attested storage, the tree and proofs. What is
    stored can be proved, and without hash collisions what can be proved is stored.
  \<^item> \<open>Sxt_Runtime\<close> (\<open>runtime/src/lib.rs\<close>): all pallets together. A run of the chain is any sequence of
    extrinsics of any pallet, block starts, offences and steps of Substrate's own pallets. The invariants
    hold together in every run, and changes are traced to their causes: a decided batch to submitters
    with the right to submit, a permission to a grant by someone entitled to it.
  \<^item> \<open>Sxt_Rpc\<close> (\<open>rpc\<close>): attestations, verifiable commitments and query plans as clients get them, tied to
    the state of the chain and the attestation tree.
  \<^item> \<open>Tx_Submitter\<close> (\<open>translation-layer/src/tx_submitter.rs\<close>, \<open>tx_progress.rs\<close>): nonces, retries and
    reconnection, and the interleaved tasks that record the progress of transactions.

  \<^bold>\<open>Bounds and fuel.\<close> There is no fuel: every loop of the code is a recursion on the data it goes
  over, or has a termination proof with a measure (\<open>trim_start_matches\<close>, \<open>show_nat\<close>, the payout loop).
  The retries of the submitter recurse over the list of attempts. Bounds are those of the code, as
  constants with its names, and integers wrap or saturate at their width. The interleavings of the
  progress tasks are an inductive step relation, of which progress and a decreasing measure are proved.

  \<^bold>\<open>Not modelled.\<close> Weights and fees, apart from the weight that the rewards hook returns; pauses and log
  messages; the genesis of pallets where it only fills maps. The Substrate pallets (balances,
  staking, session, sudo) and consensus appear as parameters or as steps that may change their own
  state in any way. Whole parts left out, because they are wiring, generated code or input and output
  around library calls: the node, the generated runtime interface, the files of the commitment setups,
  the data loader, the tools for operators, the HTTP handlers of the translation layer, the
  watcher and the event forwarder. The manifest lists each with its reason.
\<close>

end
